theory Spec2Isabelle
  imports Complex_Main
begin

section \<open>Numbers, points and errors\<close>

text \<open>
  A JavaScript number is either a finite value, idealised as a real, or one of the
  non-finite values \<open>NaN\<close>, \<open>Infinity\<close>, \<open>-Infinity\<close>, which are not told apart.
  The range of the doubles is modelled and their rounding is not: the result of an
  operation is the exact one as long as an IEEE double would round it to a finite value,
  that is, as long as its magnitude is below \<open>2^1024 - 2^970\<close>, and it is not finite
  beyond. Data read from the record (coordinates, sizes, distances, ancestor scales, the
  draw progress) is finite; \<open>setLinePoints\<close> writes \<open>NaN\<close> itself to mark a missing
  control point.
\<close>

datatype jsnum = Fin real | NonFinite

type_synonym point = "real \<times> real"

text \<open>Accessing a property of \<open>undefined\<close> throws.\<close>

datatype error = TypeError

definition overflowBound :: real where
  "overflowBound = 2 ^ 1024 - 2 ^ 970"

definition rangeChecked :: "real \<Rightarrow> jsnum" where
  "rangeChecked x = (if \<bar>x\<bar> < overflowBound then Fin x else NonFinite)"

fun jmul :: "jsnum \<Rightarrow> jsnum \<Rightarrow> jsnum" where
  "jmul (Fin a) (Fin b) = rangeChecked (a * b)"
| "jmul _ _ = NonFinite"

fun jadd :: "jsnum \<Rightarrow> jsnum \<Rightarrow> jsnum" where
  "jadd (Fin a) (Fin b) = rangeChecked (a + b)"
| "jadd _ _ = NonFinite"

fun jneg :: "jsnum \<Rightarrow> jsnum" where
  "jneg (Fin a) = Fin (- a)"
| "jneg NonFinite = NonFinite"

text \<open>
  Division by a finite divisor: a zero divisor gives \<open>\<plusminus>Infinity\<close> or \<open>NaN\<close>, a
  quotient out of range gives \<open>\<plusminus>Infinity\<close>, and a non-finite dividend stays non-finite.
\<close>

fun jdiv :: "jsnum \<Rightarrow> real \<Rightarrow> jsnum" where
  "jdiv (Fin a) b = (if b = 0 then NonFinite else rangeChecked (a / b))"
| "jdiv NonFinite b = NonFinite"

text \<open>\<open>Math.atan2(y, x)\<close> on finite arguments.\<close>

definition atan2 :: "real \<Rightarrow> real \<Rightarrow> real" where
  "atan2 y x =
     (if 0 < x then arctan (y / x)
      else if x < 0 then (if 0 \<le> y then arctan (y / x) + pi else arctan (y / x) - pi)
      else if 0 < y then pi / 2
      else if y < 0 then - (pi / 2)
      else 0)"

text \<open>\<open>vector.sub\<close> and \<open>vector.normalize\<close> of the rendering library.\<close>

definition vsub :: "point \<Rightarrow> point \<Rightarrow> point" where
  "vsub a b = (fst a - fst b, snd a - snd b)"

definition normalize :: "point \<Rightarrow> point" where
  "normalize v =
     (let d = sqrt (fst v * fst v + snd v * snd v)
      in if d = 0 then (0, 0) else (fst v / d, snd v / d))"

text \<open>JavaScript truthiness of an optional string, and \<open>a || b\<close> on two of them.\<close>

definition truthyStr :: "string option \<Rightarrow> bool" where
  "truthyStr s = (case s of None \<Rightarrow> False | Some t \<Rightarrow> t \<noteq> [])"

definition orStr :: "string option \<Rightarrow> string option \<Rightarrow> string option" where
  "orStr a b = (if truthyStr a then a else b)"

definition truthyBool :: "bool option \<Rightarrow> bool" where
  "truthyBool b = (case b of None \<Rightarrow> False | Some v \<Rightarrow> v)"

section \<open>Curve geometry\<close>

record shape =
  x1 :: real
  y1 :: real
  x2 :: real
  y2 :: real
  percent :: real
  cpx1 :: jsnum
  cpy1 :: jsnum

text \<open>
  \<open>setLinePoints(targetShape, points)\<close>. A point is a two-element array; reading
  \<open>points[0][0]\<close> or \<open>points[1][0]\<close> of a list with fewer than two points throws.
\<close>

definition setLinePoints :: "shape \<Rightarrow> point list \<Rightarrow> error + shape" where
  "setLinePoints targetShape points =
     (case points of
        p0 # p1 # rest \<Rightarrow>
          Inr (let s = targetShape\<lparr>x1 := fst p0, y1 := snd p0,
                                   x2 := fst p1, y2 := snd p1, percent := 1\<rparr>
               in case rest of
                    cp1 # _ \<Rightarrow> s\<lparr>cpx1 := Fin (fst cp1), cpy1 := Fin (snd cp1)\<rparr>
                  | [] \<Rightarrow> s\<lparr>cpx1 := NonFinite, cpy1 := NonFinite\<rparr>)
      | _ \<Rightarrow> Inl TypeError)"

text \<open>The shape of a freshly constructed path, before \<open>setLinePoints\<close> fills it.\<close>

definition emptyShape :: shape where
  "emptyShape = \<lparr>x1 = 0, y1 = 0, x2 = 0, y2 = 0, percent = 1,
                 cpx1 = NonFinite, cpy1 = NonFinite\<rparr>"

text \<open>
  Modelled from the spec: the path class \<open>LinePath\<close> with its \<open>pointAt\<close> and
  \<open>tangentAt\<close> is not among the sources. The control point is absent when it is marked
  so by \<open>setLinePoints\<close>; the straight case interpolates linearly and has the tangent
  \<open>p1 - p0\<close>, the curved case is the quadratic Bezier curve and its derivative.
\<close>

definition controlPoint :: "shape \<Rightarrow> point option" where
  "controlPoint s =
     (case (cpx1 s, cpy1 s) of (Fin cx, Fin cy) \<Rightarrow> Some (cx, cy) | _ \<Rightarrow> None)"

definition pointAt :: "shape \<Rightarrow> real \<Rightarrow> point" where
  "pointAt s t =
     (case controlPoint s of
        None \<Rightarrow> (x1 s * (1 - t) + x2 s * t, y1 s * (1 - t) + y2 s * t)
      | Some (cx, cy) \<Rightarrow>
          ((1 - t) * (1 - t) * x1 s + 2 * t * (1 - t) * cx + t * t * x2 s,
           (1 - t) * (1 - t) * y1 s + 2 * t * (1 - t) * cy + t * t * y2 s))"

definition tangentAt :: "shape \<Rightarrow> real \<Rightarrow> point" where
  "tangentAt s t =
     (case controlPoint s of
        None \<Rightarrow> (x2 s - x1 s, y2 s - y1 s)
      | Some (cx, cy) \<Rightarrow>
          (2 * ((1 - t) * (cx - x1 s) + t * (x2 s - cx)),
           2 * ((1 - t) * (cy - y1 s) + t * (y2 s - cy))))"

section \<open>The data record\<close>

text \<open>\<open>SYMBOL_CATEGORIES\<close>: the two marker categories, and the names they stand for.\<close>

datatype category = FromSymbol | ToSymbol

definition SYMBOL_CATEGORIES :: "category list" where
  "SYMBOL_CATEGORIES = [FromSymbol, ToSymbol]"

fun categoryName :: "category \<Rightarrow> string" where
  "categoryName FromSymbol = ''fromSymbol''"
| "categoryName ToSymbol = ''toSymbol''"

text \<open>A size or a distance is a single number or an array of two.\<close>

datatype extent = Scalar real | Pair real real

text \<open>\<open>if (!zrUtil.isArray(v)) v = [v, v]\<close>.\<close>

fun broadcast :: "extent \<Rightarrow> real \<times> real" where
  "broadcast (Scalar s) = (s, s)"
| "broadcast (Pair w h) = (w, h)"

text \<open>A label text is a string (a formatted label, a name) or a number (a raw value).\<close>

datatype labelText = TStr string | TNum jsnum

record lineStyleProps =
  ls_strokeNoScale :: "bool option"
  ls_fill :: "string option"
  ls_stroke :: "string option"
  ls_opacity :: "real option"
  ls_rest :: "(string \<times> string) list"

record labelModel =
  lm_show :: "bool option"
  lm_position :: "string option"
  lm_distance :: extent
  lm_align :: "string option"
  lm_verticalAlign :: "string option"
  lm_color :: "string option"
  lm_fontStyle :: "string option"
  lm_fontWeight :: "string option"
  lm_fontSize :: "real option"
  lm_fontFamily :: "string option"

text \<open>
  The four style models the update reads, either from the shared series scope or from
  the item model of the record (\<open>lineStyle\<close>, \<open>emphasis.lineStyle\<close>, \<open>label\<close>,
  \<open>emphasis.label\<close>).
\<close>

record seriesScope =
  sc_lineStyle :: lineStyleProps
  sc_hoverLineStyle :: lineStyleProps
  sc_labelModel :: labelModel
  sc_hoverLabelModel :: labelModel

datatype labelState = Normal | Emphasis

record seriesModel =
  getFormattedLabel :: "nat \<Rightarrow> labelState \<Rightarrow> string option"
  getRawValue :: "nat \<Rightarrow> jsnum option"
  isAnimationEnabled :: bool

text \<open>
  The data record \<open>List\<close>, with one typed accessor for each key that the element passes
  to \<open>getItemVisual\<close>: \<open>color\<close>, \<open>opacity\<close>, the category name and the category name
  followed by \<open>Size\<close>.
\<close>

record lineData =
  hostModel :: seriesModel
  hasItemOption :: bool
  getItemLayout :: "nat \<Rightarrow> point list"
  getItemModel :: "nat \<Rightarrow> seriesScope"
  getName :: "nat \<Rightarrow> string"
  vis_color :: "nat \<Rightarrow> string option"
  vis_opacity :: "nat \<Rightarrow> real option"
  vis_symbol :: "nat \<Rightarrow> category \<Rightarrow> string option"
  vis_symbolSize :: "nat \<Rightarrow> category \<Rightarrow> extent"

section \<open>The scene graph\<close>

text \<open>An endpoint marker, as \<open>symbolUtil.createSymbol\<close> builds it.\<close>

record symbol =
  sym_name :: "category option"
  sym_type :: string
  sym_x :: real
  sym_y :: real
  sym_w :: real
  sym_h :: real
  sym_color :: "string option"
  sym_opacity :: "real option"
  sym_position :: point
  sym_rotation :: real
  sym_scale :: "jsnum \<times> jsnum"

record textStyle =
  ts_text :: "labelText option"
  ts_textAlign :: "string option"
  ts_textVerticalAlign :: "string option"
  ts_textFill :: "string option"

record hoverTextStyle =
  hs_text :: "labelText option"
  hs_textFill :: "string option"
  hs_fontStyle :: "string option"
  hs_fontWeight :: "string option"
  hs_fontSize :: "real option"
  hs_fontFamily :: "string option"

text \<open>
  \<open>InnerLineLabel\<close>: the text element with the fields the update caches on it
  (\<open>__textAlign\<close>, \<open>__verticalAlign\<close>, \<open>__position\<close>, \<open>__labelDistance\<close>).
\<close>

record label =
  lineLabelOriginalOpacity :: real
  lbl_ignore :: bool
  lbl_style :: textStyle
  lbl_hoverStyle :: hoverTextStyle
  lbl_textAlign :: "string option"
  lbl_verticalAlign :: "string option"
  lbl_position :: "string option"
  lbl_labelDistance :: "(real \<times> real) option"
  lbl_pos :: "jsnum \<times> jsnum"
  lbl_rotation :: real
  lbl_scale :: "jsnum \<times> jsnum"
  lbl_origin :: "(jsnum \<times> jsnum) option"

record linePath =
  lp_shape :: shape
  lp_subPixelOptimize :: bool
  lp_style :: "lineStyleProps option"
  lp_hoverStyle :: "lineStyleProps option"
  lp_dirty :: bool

datatype child = CLine linePath | CLabel label | CSymbol symbol

fun childName :: "child \<Rightarrow> string" where
  "childName (CLine _) = ''line''"
| "childName (CLabel _) = ''label''"
| "childName (CSymbol s) = (case sym_name s of None \<Rightarrow> [] | Some c \<Rightarrow> categoryName c)"

text \<open>An ancestor of the element: its scale, when it has one, and its own parent.\<close>

datatype ancestor = Ancestor (anc_scale: "(real \<times> real) option") (anc_parent: "ancestor option")

text \<open>
  The element itself: a group with its children in insertion order, the two cached
  shape kinds \<open>_fromSymbolType\<close> and \<open>_toSymbolType\<close>, the parent it hangs under and
  its dirty flag.
\<close>

record line =
  children :: "child list"
  fromSymbolType :: "string option"
  toSymbolType :: "string option"
  parent :: "ancestor option"
  dirty :: bool
  hoverStyleSet :: bool

text \<open>\<open>Group.childOfName\<close>, \<open>Group.add\<close> and \<open>Group.remove\<close> of the rendering library.\<close>

definition childOfName :: "line \<Rightarrow> string \<Rightarrow> child option" where
  "childOfName g n = find (\<lambda>c. childName c = n) (children g)"

definition add :: "child option \<Rightarrow> line \<Rightarrow> line" where
  "add c g = (case c of None \<Rightarrow> g | Some x \<Rightarrow> g\<lparr>children := children g @ [x]\<rparr>)"

definition remove :: "child option \<Rightarrow> line \<Rightarrow> line" where
  "remove c g = (case c of None \<Rightarrow> g | Some x \<Rightarrow> g\<lparr>children := remove1 x (children g)\<rparr>)"

text \<open>
  \<open>makeSymbolTypeKey\<close> builds the name of a field of the element, which \<open>this[key]\<close>
  then reads or writes. The two names it can build are those of the two cached shape
  kinds.
\<close>

definition makeSymbolTypeKey :: "string \<Rightarrow> string" where
  "makeSymbolTypeKey symbolCategory = ''_'' @ symbolCategory @ ''Type''"

definition getField :: "string \<Rightarrow> line \<Rightarrow> string option" where
  "getField key g =
     (if key = ''_fromSymbolType'' then fromSymbolType g
      else if key = ''_toSymbolType'' then toSymbolType g
      else None)"

definition setField :: "string \<Rightarrow> string option \<Rightarrow> line \<Rightarrow> line" where
  "setField key v g =
     (if key = ''_fromSymbolType'' then g\<lparr>fromSymbolType := v\<rparr>
      else if key = ''_toSymbolType'' then g\<lparr>toSymbolType := v\<rparr>
      else g)"

definition getSymbolTypeKey :: "category \<Rightarrow> line \<Rightarrow> string option" where
  "getSymbolTypeKey symbolCategory g =
     getField (makeSymbolTypeKey (categoryName symbolCategory)) g"

definition setSymbolTypeKey :: "category \<Rightarrow> string option \<Rightarrow> line \<Rightarrow> line" where
  "setSymbolTypeKey symbolCategory v g =
     setField (makeSymbolTypeKey (categoryName symbolCategory)) v g"

text \<open>Applies a mutation to the child that \<open>childOfName\<close> returns for a name.\<close>

fun mapFirst :: "('a \<Rightarrow> bool) \<Rightarrow> ('a \<Rightarrow> 'a) \<Rightarrow> 'a list \<Rightarrow> 'a list" where
  "mapFirst P f [] = []"
| "mapFirst P f (x # xs) = (if P x then f x # xs else x # mapFirst P f xs)"

definition updateChild :: "string \<Rightarrow> (child \<Rightarrow> child) \<Rightarrow> line \<Rightarrow> line" where
  "updateChild n f g = g\<lparr>children := mapFirst (\<lambda>c. childName c = n) f (children g)\<rparr>"

section \<open>Construction of the parts\<close>

text \<open>
  Modelled from the spec: \<open>symbolUtil.createSymbol\<close>, the construction of a marker shape
  by name, is not among the sources. It builds a shape of the given kind in the given
  box and colour, with the pose of a new element.
\<close>

definition symbolUtil_createSymbol ::
  "string \<Rightarrow> real \<Rightarrow> real \<Rightarrow> real \<Rightarrow> real \<Rightarrow> string option \<Rightarrow> symbol" where
  "symbolUtil_createSymbol symbolType x y w h color =
     \<lparr>sym_name = None, sym_type = symbolType, sym_x = x, sym_y = y, sym_w = w, sym_h = h,
      sym_color = color, sym_opacity = None,
      sym_position = (0, 0), sym_rotation = 0, sym_scale = (Fin 1, Fin 1)\<rparr>"

definition createSymbol :: "category \<Rightarrow> lineData \<Rightarrow> nat \<Rightarrow> symbol option" where
  "createSymbol name lineData idx =
     (let color = vis_color lineData idx;
          symbolType = vis_symbol lineData idx name;
          symbolSize = vis_symbolSize lineData idx name
      in case symbolType of
           None \<Rightarrow> None
         | Some ty \<Rightarrow>
             if ty = [] \<or> ty = ''none'' then None
             else let sz = broadcast symbolSize;
                      symbolPath = symbolUtil_createSymbol ty
                        (- fst sz / 2) (- snd sz / 2) (fst sz) (snd sz) color
                  in Some (symbolPath\<lparr>sym_name := Some name\<rparr>))"

definition createLine :: "point list \<Rightarrow> error + linePath" where
  "createLine points =
     (let line = \<lparr>lp_shape = emptyShape, lp_subPixelOptimize = True,
                  lp_style = None, lp_hoverStyle = None, lp_dirty = True\<rparr>
      in case setLinePoints (lp_shape line) points of
           Inl e \<Rightarrow> Inl e
         | Inr s \<Rightarrow> Inr (line\<lparr>lp_shape := s\<rparr>))"

text \<open>
  Modelled from the spec: \<open>graphic.initProps\<close> and \<open>graphic.updateProps\<close> are not among
  the sources. With animation enabled they only request a transition towards the target,
  which an external scheduler carries out later; without it they write the target at once.
\<close>

definition initProps :: "linePath \<Rightarrow> real \<Rightarrow> seriesModel \<Rightarrow> linePath" where
  "initProps el targetPercent seriesModel =
     (if isAnimationEnabled seriesModel then el
      else el\<lparr>lp_shape := (lp_shape el)\<lparr>percent := targetPercent\<rparr>, lp_dirty := True\<rparr>)"

definition updateProps :: "linePath \<Rightarrow> shape \<Rightarrow> seriesModel \<Rightarrow> linePath" where
  "updateProps el targetShape seriesModel =
     (if isAnimationEnabled seriesModel then el
      else el\<lparr>lp_shape := targetShape, lp_dirty := True\<rparr>)"

definition newLabel :: label where
  "newLabel =
     \<lparr>lineLabelOriginalOpacity = 1, lbl_ignore = False,
      lbl_style = \<lparr>ts_text = None, ts_textAlign = None, ts_textVerticalAlign = None,
                   ts_textFill = None\<rparr>,
      lbl_hoverStyle = \<lparr>hs_text = None, hs_textFill = None, hs_fontStyle = None,
                        hs_fontWeight = None, hs_fontSize = None, hs_fontFamily = None\<rparr>,
      lbl_textAlign = None, lbl_verticalAlign = None, lbl_position = None,
      lbl_labelDistance = None,
      lbl_pos = (Fin 0, Fin 0), lbl_rotation = 0, lbl_scale = (Fin 1, Fin 1),
      lbl_origin = None\<rparr>"

definition newGroup :: line where
  "newGroup = \<lparr>children = [], fromSymbolType = None, toSymbolType = None,
               parent = None, dirty = True, hoverStyleSet = False\<rparr>"

section \<open>Style and label resolution\<close>

text \<open>\<open>zrUtil.retrieve2\<close>, \<open>zrUtil.retrieve3\<close>: the first value that is not null.\<close>

definition retrieve2 :: "'a option \<Rightarrow> 'a option \<Rightarrow> 'a option" where
  "retrieve2 a b = (case a of None \<Rightarrow> b | Some v \<Rightarrow> Some v)"

definition retrieve3 :: "'a option \<Rightarrow> 'a option \<Rightarrow> 'a \<Rightarrow> 'a" where
  "retrieve3 a b c = (case a of Some v \<Rightarrow> v | None \<Rightarrow> (case b of Some w \<Rightarrow> w | None \<Rightarrow> c))"

text \<open>\<open>zrUtil.defaults(target, source)\<close>: a key of the source fills a null key of the target.\<close>

definition defaults :: "lineStyleProps \<Rightarrow> lineStyleProps \<Rightarrow> lineStyleProps" where
  "defaults target source =
     \<lparr>ls_strokeNoScale = retrieve2 (ls_strokeNoScale target) (ls_strokeNoScale source),
      ls_fill = retrieve2 (ls_fill target) (ls_fill source),
      ls_stroke = retrieve2 (ls_stroke target) (ls_stroke source),
      ls_opacity = retrieve2 (ls_opacity target) (ls_opacity source),
      ls_rest = ls_rest target @ ls_rest source\<rparr>"

text \<open>
  Modelled from the spec: \<open>graphic.setTextStyle\<close> is not among the sources. It writes the
  given text, the alignment overrides of the label model and the text colour, which
  defaults to the automatic colour.
\<close>

definition setTextStyle ::
  "textStyle \<Rightarrow> labelModel \<Rightarrow> labelText option \<Rightarrow> string option \<Rightarrow> textStyle" where
  "setTextStyle st lm txt autoColor =
     st\<lparr>ts_text := txt, ts_textAlign := lm_align lm,
        ts_textVerticalAlign := lm_verticalAlign lm,
        ts_textFill := retrieve2 (lm_color lm) autoColor\<rparr>"

text \<open>The loop of \<open>_updateCommonStl\<close> that repaints the markers that exist.\<close>

definition repaint :: "string option \<Rightarrow> real \<Rightarrow> symbol \<Rightarrow> symbol" where
  "repaint visualColor visualOpacity symbol =
     symbol\<lparr>sym_color := visualColor, sym_opacity := Some visualOpacity\<rparr>"

definition repaintChild :: "string option \<Rightarrow> real \<Rightarrow> child \<Rightarrow> child" where
  "repaintChild visualColor visualOpacity c =
     (case c of CSymbol s \<Rightarrow> CSymbol (repaint visualColor visualOpacity s) | _ \<Rightarrow> c)"

definition paintSymbol :: "string option \<Rightarrow> real \<Rightarrow> category \<Rightarrow> line \<Rightarrow> line" where
  "paintSymbol visualColor visualOpacity symbolCategory g =
     (case childOfName g (categoryName symbolCategory) of
        Some (CSymbol symbol) \<Rightarrow>
          updateChild (categoryName symbolCategory)
            (\<lambda>_. CSymbol (repaint visualColor visualOpacity symbol)) g
      | _ \<Rightarrow> g)"

text \<open>
  The text of the base state: the formatted label, else the name when there is no raw
  value, else the raw value, rounded by the helper \<open>round\<close> when it is finite. The helper
  is not among the sources and is the parameter \<open>rnd\<close>.
\<close>

definition resolveBaseText :: "(real \<Rightarrow> real) \<Rightarrow> lineData \<Rightarrow> nat \<Rightarrow> labelText" where
  "resolveBaseText rnd lineData idx =
     (case getFormattedLabel (hostModel lineData) idx Normal of
        Some t \<Rightarrow> TStr t
      | None \<Rightarrow>
          (case getRawValue (hostModel lineData) idx of
             None \<Rightarrow> TStr (getName lineData idx)
           | Some (Fin r) \<Rightarrow> TNum (Fin (rnd r))
           | Some NonFinite \<Rightarrow> TNum NonFinite))"

definition updateLabelStl ::
  "(real \<Rightarrow> real) \<Rightarrow> lineData \<Rightarrow> nat \<Rightarrow> labelModel \<Rightarrow> labelModel \<Rightarrow> label \<Rightarrow> label" where
  "updateLabelStl rnd lineData idx labelModel hoverLabelModel label =
     (let seriesModel = hostModel lineData;
          visualColor = vis_color lineData idx;
          showLabel = truthyBool (lm_show labelModel);
          hoverShowLabel = truthyBool (lm_show hoverLabelModel);
          defaultLabelColor =
            (if showLabel \<or> hoverShowLabel then orStr visualColor (Some ''#000'') else None);
          baseText =
            (if showLabel \<or> hoverShowLabel then Some (resolveBaseText rnd lineData idx)
             else None);
          normalText = (if showLabel then baseText else None);
          emphasisText =
            (if hoverShowLabel
             then retrieve2 (map_option TStr (getFormattedLabel seriesModel idx Emphasis)) baseText
             else None);
          label1 =
            (if normalText \<noteq> None \<or> emphasisText \<noteq> None
             then let style = setTextStyle (lbl_style label) labelModel normalText defaultLabelColor
                  in label\<lparr>lbl_style := style,
                           lbl_textAlign := ts_textAlign style,
                           lbl_verticalAlign := ts_textVerticalAlign style,
                           lbl_position := orStr (lm_position labelModel) (Some ''middle''),
                           lbl_labelDistance := Some (broadcast (lm_distance labelModel))\<rparr>
             else label);
          label2 =
            (if emphasisText \<noteq> None
             then label1\<lparr>lbl_hoverStyle :=
                    \<lparr>hs_text = emphasisText,
                     hs_textFill = lm_color hoverLabelModel,
                     hs_fontStyle = lm_fontStyle hoverLabelModel,
                     hs_fontWeight = lm_fontWeight hoverLabelModel,
                     hs_fontSize = lm_fontSize hoverLabelModel,
                     hs_fontFamily = lm_fontFamily hoverLabelModel\<rparr>\<rparr>
             else label1\<lparr>lbl_hoverStyle :=
                    \<lparr>hs_text = None, hs_textFill = None, hs_fontStyle = None,
                     hs_fontWeight = None, hs_fontSize = None, hs_fontFamily = None\<rparr>\<rparr>)
      in label2\<lparr>lbl_ignore := \<not> showLabel \<and> \<not> hoverShowLabel\<rparr>)"

text \<open>
  The style models in force: those of the shared scope, unless there is none or the data
  carries per-item options, in which case they come from the item model.
\<close>

definition resolveModels :: "lineData \<Rightarrow> nat \<Rightarrow> seriesScope option \<Rightarrow> seriesScope" where
  "resolveModels lineData idx seriesScope =
     (case seriesScope of
        None \<Rightarrow> getItemModel lineData idx
      | Some sc \<Rightarrow> if hasItemOption lineData then getItemModel lineData idx else sc)"

text \<open>The effective opacity: that of the record, else that of the line style, else 1.\<close>

definition resolveOpacity :: "lineData \<Rightarrow> nat \<Rightarrow> seriesScope \<Rightarrow> real" where
  "resolveOpacity lineData idx models =
     retrieve3 (vis_opacity lineData idx) (ls_opacity (sc_lineStyle models)) 1"

text \<open>The part of \<open>_updateCommonStl\<close> that styles the curve.\<close>

definition styleLine :: "lineData \<Rightarrow> nat \<Rightarrow> seriesScope \<Rightarrow> linePath \<Rightarrow> linePath" where
  "styleLine lineData idx models line =
     (let lineStyle = sc_lineStyle models;
          hoverLineStyle = sc_hoverLineStyle models;
          visualColor = vis_color lineData idx;
          visualOpacity = resolveOpacity lineData idx models
      in line\<lparr>lp_style := Some (defaults
                   \<lparr>ls_strokeNoScale = Some True, ls_fill = Some ''none'',
                    ls_stroke = visualColor, ls_opacity = Some visualOpacity,
                    ls_rest = []\<rparr> lineStyle),
               lp_hoverStyle := Some hoverLineStyle,
               lp_dirty := True\<rparr>)"

definition updateCommonStl ::
  "(real \<Rightarrow> real) \<Rightarrow> line \<Rightarrow> lineData \<Rightarrow> nat \<Rightarrow> seriesScope option \<Rightarrow> error + line" where
  "updateCommonStl rnd this lineData idx seriesScope =
     (let models = resolveModels lineData idx seriesScope;
          visualColor = vis_color lineData idx;
          visualOpacity = resolveOpacity lineData idx models
      in case childOfName this ''line'' of
           Some (CLine line) \<Rightarrow>
             (let g1 = updateChild ''line'' (\<lambda>_. CLine (styleLine lineData idx models line)) this;
                  g2 = fold (paintSymbol visualColor visualOpacity) SYMBOL_CATEGORIES g1
              in case childOfName g2 ''label'' of
                   Some (CLabel label) \<Rightarrow>
                     (let label' = updateLabelStl rnd lineData idx (sc_labelModel models)
                                     (sc_hoverLabelModel models) label;
                          g3 = updateChild ''label'' (\<lambda>_. CLabel label') g2
                      in Inr (g3\<lparr>hoverStyleSet := True\<rparr>))
                 | _ \<Rightarrow> Inl TypeError)
         | _ \<Rightarrow> Inl TypeError)"

section \<open>Construction and data update\<close>

definition createLineGroup ::
  "(real \<Rightarrow> real) \<Rightarrow> lineData \<Rightarrow> nat \<Rightarrow> seriesScope option \<Rightarrow> error + line" where
  "createLineGroup rnd lineData idx seriesScope =
     (let seriesModel = hostModel lineData;
          linePoints = getItemLayout lineData idx
      in case createLine linePoints of
           Inl e \<Rightarrow> Inl e
         | Inr line \<Rightarrow>
             (let line0 = line\<lparr>lp_shape := (lp_shape line)\<lparr>percent := 0\<rparr>\<rparr>;
                  line1 = initProps line0 1 seriesModel;
                  g1 = add (Some (CLine line1)) newGroup;
                  g2 = add (Some (CLabel newLabel)) g1;
                  g3 = fold (\<lambda>symbolCategory g.
                               let symbol = createSymbol symbolCategory lineData idx
                               in setSymbolTypeKey symbolCategory
                                    (vis_symbol lineData idx symbolCategory)
                                    (add (map_option CSymbol symbol) g))
                         SYMBOL_CATEGORIES g2
              in updateCommonStl rnd g3 lineData idx seriesScope))"

text \<open>The loop of \<open>updateData\<close> that rebuilds the markers whose shape kind changed.\<close>

definition updateSymbol :: "lineData \<Rightarrow> nat \<Rightarrow> category \<Rightarrow> line \<Rightarrow> line" where
  "updateSymbol lineData idx symbolCategory this =
     (let symbolType = vis_symbol lineData idx symbolCategory;
          this1 =
            (if getSymbolTypeKey symbolCategory this \<noteq> symbolType
             then let g = remove (childOfName this (categoryName symbolCategory)) this;
                      symbol = createSymbol symbolCategory lineData idx
                  in add (map_option CSymbol symbol) g
             else this)
      in setSymbolTypeKey symbolCategory symbolType this1)"

definition updateData ::
  "(real \<Rightarrow> real) \<Rightarrow> line \<Rightarrow> lineData \<Rightarrow> nat \<Rightarrow> seriesScope option \<Rightarrow> error + line" where
  "updateData rnd this lineData idx seriesScope =
     (let seriesModel = hostModel lineData;
          linePoints = getItemLayout lineData idx
      in case setLinePoints emptyShape linePoints of
           Inl e \<Rightarrow> Inl e
         | Inr targetShape \<Rightarrow>
             (case childOfName this ''line'' of
                Some (CLine line) \<Rightarrow>
                  (let g1 = updateChild ''line''
                              (\<lambda>_. CLine (updateProps line targetShape seriesModel)) this;
                       g2 = fold (updateSymbol lineData idx) SYMBOL_CATEGORIES g1
                   in updateCommonStl rnd g2 lineData idx seriesScope)
              | _ \<Rightarrow> Inl TypeError))"

text \<open>The method \<open>setLinePoints\<close> of the element, and \<open>updateLayout\<close> that calls it.\<close>

definition line_setLinePoints :: "line \<Rightarrow> point list \<Rightarrow> error + line" where
  "line_setLinePoints this points =
     (case childOfName this ''line'' of
        Some (CLine linePath) \<Rightarrow>
          (case setLinePoints (lp_shape linePath) points of
             Inl e \<Rightarrow> Inl e
           | Inr s \<Rightarrow>
               Inr (updateChild ''line'' (\<lambda>_. CLine (linePath\<lparr>lp_shape := s, lp_dirty := True\<rparr>)) this))
      | _ \<Rightarrow> Inl TypeError)"

definition updateLayout :: "line \<Rightarrow> lineData \<Rightarrow> nat \<Rightarrow> error + line" where
  "updateLayout this lineData idx = line_setLinePoints this (getItemLayout lineData idx)"

section \<open>The layout pass\<close>

text \<open>
  The walk up the ancestor chain: \<open>invScale /= parentNode.scale[0]\<close> for each ancestor
  that has a scale, starting from the parent of the element.
\<close>

fun invScaleLoop :: "jsnum \<Rightarrow> ancestor option \<Rightarrow> jsnum" where
  "invScaleLoop invScale None = invScale"
| "invScaleLoop invScale (Some (Ancestor sc p)) =
     invScaleLoop (case sc of None \<Rightarrow> invScale | Some s \<Rightarrow> jdiv invScale (fst s)) p"

text \<open>What the two \<open>switch\<close> statements over \<open>label.__position\<close> compute.\<close>

record placement =
  pl_dy :: jsnum
  pl_textVerticalAlign :: string
  pl_textPosition :: "(jsnum \<times> jsnum) option"
  pl_textAlign :: "string option"
  pl_textOrigin :: "(jsnum \<times> jsnum) option"

text \<open>The first \<open>switch\<close>: the vertical offset and the vertical alignment.\<close>

definition labelVertical :: "string option \<Rightarrow> jsnum \<Rightarrow> jsnum \<times> string" where
  "labelVertical position distanceY =
     (if position = Some ''insideStartTop'' \<or> position = Some ''insideMiddleTop''
         \<or> position = Some ''insideEndTop'' \<or> position = Some ''middle''
      then (jneg distanceY, ''bottom'')
      else if position = Some ''insideStartBottom'' \<or> position = Some ''insideMiddleBottom''
         \<or> position = Some ''insideEndBottom''
      then (distanceY, ''top'')
      else (Fin 0, ''middle''))"

text \<open>The second \<open>switch\<close>: the anchor, the horizontal alignment and the origin.\<close>

definition labelPlacement ::
  "string option \<Rightarrow> point \<Rightarrow> point \<Rightarrow> point \<Rightarrow> point \<Rightarrow> point \<Rightarrow> real
     \<Rightarrow> jsnum \<Rightarrow> jsnum \<Rightarrow> placement" where
  "labelPlacement position d tangent fromPos toPos cp dir distanceX distanceY =
     (let dy = fst (labelVertical position distanceY);
          textVerticalAlign = snd (labelVertical position distanceY)
      in if position = Some ''end'' then
           \<lparr>pl_dy = dy,
            pl_textVerticalAlign =
              (if 0.8 < snd d then ''top''
               else if snd d < - 0.8 then ''bottom'' else ''middle''),
            pl_textPosition =
              Some (jadd (jmul (Fin (fst d)) distanceX) (Fin (fst toPos)),
                    jadd (jmul (Fin (snd d)) distanceY) (Fin (snd toPos))),
            pl_textAlign =
              Some (if 0.8 < fst d then ''left''
                    else if fst d < - 0.8 then ''right'' else ''center''),
            pl_textOrigin = None\<rparr>
         else if position = Some ''start'' then
           \<lparr>pl_dy = dy,
            pl_textVerticalAlign =
              (if 0.8 < snd d then ''bottom''
               else if snd d < - 0.8 then ''top'' else ''middle''),
            pl_textPosition =
              Some (jadd (jmul (Fin (- fst d)) distanceX) (Fin (fst fromPos)),
                    jadd (jmul (Fin (- snd d)) distanceY) (Fin (snd fromPos))),
            pl_textAlign =
              Some (if 0.8 < fst d then ''right''
                    else if fst d < - 0.8 then ''left'' else ''center''),
            pl_textOrigin = None\<rparr>
         else if position = Some ''insideStartTop'' \<or> position = Some ''insideStart''
              \<or> position = Some ''insideStartBottom'' then
           \<lparr>pl_dy = dy,
            pl_textVerticalAlign = textVerticalAlign,
            pl_textPosition =
              Some (jadd (jmul distanceX (Fin dir)) (Fin (fst fromPos)),
                    jadd (Fin (snd fromPos)) dy),
            pl_textAlign = Some (if fst tangent < 0 then ''right'' else ''left''),
            pl_textOrigin = Some (jmul (jneg distanceX) (Fin dir), jneg dy)\<rparr>
         else if position = Some ''insideMiddleTop'' \<or> position = Some ''insideMiddle''
              \<or> position = Some ''insideMiddleBottom'' \<or> position = Some ''middle'' then
           \<lparr>pl_dy = dy,
            pl_textVerticalAlign = textVerticalAlign,
            pl_textPosition = Some (Fin (fst cp), jadd (Fin (snd cp)) dy),
            pl_textAlign = Some ''center'',
            pl_textOrigin = Some (Fin 0, jneg dy)\<rparr>
         else if position = Some ''insideEndTop'' \<or> position = Some ''insideEnd''
              \<or> position = Some ''insideEndBottom'' then
           \<lparr>pl_dy = dy,
            pl_textVerticalAlign = textVerticalAlign,
            pl_textPosition =
              Some (jadd (jmul (jneg distanceX) (Fin dir)) (Fin (fst toPos)),
                    jadd (Fin (snd toPos)) dy),
            pl_textAlign = Some (if 0 \<le> fst tangent then ''right'' else ''left''),
            pl_textOrigin = Some (jmul distanceX (Fin dir), jneg dy)\<rparr>
         else
           \<lparr>pl_dy = dy,
            pl_textVerticalAlign = textVerticalAlign,
            pl_textPosition = None,
            pl_textAlign = None,
            pl_textOrigin = None\<rparr>)"

text \<open>
  The block guarded by \<open>!label.ignore\<close>. The element setter \<open>attr\<close> copies a position
  or an origin only when it is given one, and writes every key of the style it is given.
  The normal \<open>n\<close> that the source computes from the tangent is used nowhere and is left
  out.
\<close>

definition layoutLabel ::
  "label \<Rightarrow> shape \<Rightarrow> point \<Rightarrow> point \<Rightarrow> point \<Rightarrow> jsnum \<Rightarrow> error + label" where
  "layoutLabel label sh fromPos toPos d invScale =
     (case lbl_labelDistance label of
        None \<Rightarrow> Inl TypeError
      | Some distance \<Rightarrow>
          (let label1 = label\<lparr>lbl_pos := (Fin (fst toPos), Fin (snd toPos))\<rparr>;
               distanceX = jmul (Fin (fst distance)) invScale;
               distanceY = jmul (Fin (snd distance)) invScale;
               halfPercent = percent sh / 2;
               tangent = tangentAt sh halfPercent;
               cp = pointAt sh halfPercent;
               dir = (if fst tangent < 0 then - 1 else 1);
               label2 =
                 (if lbl_position label \<noteq> Some ''start'' \<and> lbl_position label \<noteq> Some ''end''
                  then let rotation = - atan2 (snd tangent) (fst tangent)
                       in label1\<lparr>lbl_rotation :=
                            (if fst toPos < fst fromPos then pi + rotation else rotation)\<rparr>
                  else label1);
               pl = labelPlacement (lbl_position label) d tangent fromPos toPos cp dir
                      distanceX distanceY
           in Inr (label2\<lparr>
                lbl_style := (lbl_style label2)\<lparr>
                  ts_textVerticalAlign :=
                    orStr (lbl_verticalAlign label) (Some (pl_textVerticalAlign pl)),
                  ts_textAlign := orStr (lbl_textAlign label) (pl_textAlign pl)\<rparr>,
                lbl_pos := (case pl_textPosition pl of None \<Rightarrow> lbl_pos label2 | Some p \<Rightarrow> p),
                lbl_scale := (invScale, invScale),
                lbl_origin :=
                  (case pl_textOrigin pl of None \<Rightarrow> lbl_origin label2 | Some p \<Rightarrow> Some p)\<rparr>)))"

definition poseFrom :: "shape \<Rightarrow> point \<Rightarrow> jsnum \<Rightarrow> symbol \<Rightarrow> symbol" where
  "poseFrom sh fromPos invScale symbolFrom =
     (let tangent = tangentAt sh 0
      in symbolFrom\<lparr>sym_position := fromPos,
                    sym_rotation := pi / 2 - atan2 (snd tangent) (fst tangent),
                    sym_scale := (jmul invScale (Fin (percent sh)),
                                  jmul invScale (Fin (percent sh)))\<rparr>)"

definition poseTo :: "shape \<Rightarrow> point \<Rightarrow> jsnum \<Rightarrow> symbol \<Rightarrow> symbol" where
  "poseTo sh toPos invScale symbolTo =
     (let tangent = tangentAt sh 1
      in symbolTo\<lparr>sym_position := toPos,
                  sym_rotation := - pi / 2 - atan2 (snd tangent) (fst tangent),
                  sym_scale := (jmul invScale (Fin (percent sh)),
                                jmul invScale (Fin (percent sh)))\<rparr>)"

definition beforeUpdate :: "line \<Rightarrow> error + line" where
  "beforeUpdate this =
     (let symbolFrom = childOfName this ''fromSymbol'';
          symbolTo = childOfName this ''toSymbol'';
          label = childOfName this ''label''
      in case (if symbolFrom = None \<and> symbolTo = None
               then (case label of Some (CLabel l) \<Rightarrow> Inr (lbl_ignore l) | _ \<Rightarrow> Inl TypeError)
               else Inr False) of
           Inl e \<Rightarrow> Inl e
         | Inr True \<Rightarrow> Inr this
         | Inr False \<Rightarrow>
             (let invScale = invScaleLoop (Fin 1) (parent this)
              in case childOfName this ''line'' of
                   Some (CLine line) \<Rightarrow>
                     if \<not> dirty this \<and> \<not> lp_dirty line then Inr this
                     else
                       (let sh = lp_shape line;
                            fromPos = pointAt sh 0;
                            toPos = pointAt sh (percent sh);
                            d = normalize (vsub toPos fromPos);
                            g1 = (case symbolFrom of
                                    Some (CSymbol s) \<Rightarrow>
                                      updateChild ''fromSymbol''
                                        (\<lambda>_. CSymbol (poseFrom sh fromPos invScale s)) this
                                  | _ \<Rightarrow> this);
                            g2 = (case symbolTo of
                                    Some (CSymbol s) \<Rightarrow>
                                      updateChild ''toSymbol''
                                        (\<lambda>_. CSymbol (poseTo sh toPos invScale s)) g1
                                  | _ \<Rightarrow> g1)
                        in case label of
                             Some (CLabel l) \<Rightarrow>
                               if lbl_ignore l then Inr g2
                               else (case layoutLabel l sh fromPos toPos d invScale of
                                       Inl e \<Rightarrow> Inl e
                                     | Inr l' \<Rightarrow> Inr (updateChild ''label'' (\<lambda>_. CLabel l') g2))
                           | _ \<Rightarrow> Inl TypeError)
                 | _ \<Rightarrow> Inl TypeError))"

section \<open>Vocabulary of the properties\<close>

text \<open>
  An element is well formed when it has its curve and its label and no two of its
  children share a name. Construction establishes this and every data update keeps it.
\<close>

definition wellFormed :: "line \<Rightarrow> bool" where
  "wellFormed this =
     (childOfName this ''line'' \<noteq> None \<and> childOfName this ''label'' \<noteq> None
      \<and> distinct (map childName (children this)))"

text \<open>The curve as \<open>_createLine\<close> leaves it, for the shape that \<open>setLinePoints\<close> wrote.\<close>

definition builtLine :: "lineData \<Rightarrow> nat \<Rightarrow> shape \<Rightarrow> linePath" where
  "builtLine lineData idx sh =
     initProps \<lparr>lp_shape = sh\<lparr>percent := 0\<rparr>, lp_subPixelOptimize = True,
                lp_style = None, lp_hoverStyle = None, lp_dirty = True\<rparr>
       1 (hostModel lineData)"

text \<open>A change of pose applied to a child that is a marker.\<close>

definition poseChild :: "(symbol \<Rightarrow> symbol) \<Rightarrow> child \<Rightarrow> child" where
  "poseChild f c = (case c of CSymbol s \<Rightarrow> CSymbol (f s) | _ \<Rightarrow> c)"

text \<open>The x-scales of the ancestors that have a scale, from the parent upwards.\<close>

fun ancestorScales :: "ancestor option \<Rightarrow> real list" where
  "ancestorScales None = []"
| "ancestorScales (Some (Ancestor sc p)) =
     (case sc of None \<Rightarrow> ancestorScales p | Some s \<Rightarrow> fst s # ancestorScales p)"


text \<open>Construction of an element followed by \<open>setLinePoints\<close> on a point list.\<close>

definition constructThenSet ::
  "(real \<Rightarrow> real) \<Rightarrow> lineData \<Rightarrow> nat \<Rightarrow> seriesScope option \<Rightarrow> point list \<Rightarrow> error + line" where
  "constructThenSet rnd lineData idx seriesScope points =
     (case createLineGroup rnd lineData idx seriesScope of
        Inl e \<Rightarrow> Inl e
      | Inr this \<Rightarrow> line_setLinePoints this points)"

text \<open>
  The point of the curve at its draw progress, which the layout pass takes as the end of
  the drawn part.
\<close>

definition drawnEnd :: "linePath \<Rightarrow> point" where
  "drawnEnd lp = pointAt (lp_shape lp) (percent (lp_shape lp))"

text \<open>The anchor policies that the layout pass tells apart, and the test that a name contains a given word.\<close>

definition POLICIES :: "string list" where
  "POLICIES =
     [''start'', ''middle'', ''end'',
      ''insideStart'', ''insideStartTop'', ''insideStartBottom'',
      ''insideMiddle'', ''insideMiddleTop'', ''insideMiddleBottom'',
      ''insideEnd'', ''insideEndTop'', ''insideEndBottom'']"

fun containsStr :: "string \<Rightarrow> string \<Rightarrow> bool" where
  "containsStr w [] = (w = [])"
| "containsStr w (c # cs) = (take (length w) (c # cs) = w \<or> containsStr w cs)"

text \<open>The parts of the element that an operation returns, when it returns one.\<close>

definition lineOf :: "error + line \<Rightarrow> linePath option" where
  "lineOf r =
     (case r of
        Inr g \<Rightarrow> (case childOfName g ''line'' of Some (CLine l) \<Rightarrow> Some l | _ \<Rightarrow> None)
      | Inl _ \<Rightarrow> None)"

definition labelOf :: "error + line \<Rightarrow> label option" where
  "labelOf r =
     (case r of
        Inr g \<Rightarrow> (case childOfName g ''label'' of Some (CLabel l) \<Rightarrow> Some l | _ \<Rightarrow> None)
      | Inl _ \<Rightarrow> None)"

definition symbolOf :: "category \<Rightarrow> error + line \<Rightarrow> symbol option" where
  "symbolOf cat r =
     (case r of
        Inr g \<Rightarrow> (case childOfName g (categoryName cat) of Some (CSymbol s) \<Rightarrow> Some s | _ \<Rightarrow> None)
      | Inl _ \<Rightarrow> None)"

section \<open>Example records\<close>

text \<open>
  A curved connector from \<open>(0, 0)\<close> to \<open>(1, 1)\<close> with its control point at \<open>(1, 0)\<close>,
  a circle at its start and an arrow at its end, and a visible label.
\<close>

definition exampleLabelModel :: labelModel where
  "exampleLabelModel =
     \<lparr>lm_show = Some True, lm_position = None, lm_distance = Scalar 5,
      lm_align = None, lm_verticalAlign = None, lm_color = None, lm_fontStyle = None,
      lm_fontWeight = None, lm_fontSize = None, lm_fontFamily = None\<rparr>"

definition exampleLineStyle :: lineStyleProps where
  "exampleLineStyle =
     \<lparr>ls_strokeNoScale = None, ls_fill = None, ls_stroke = None, ls_opacity = None,
      ls_rest = []\<rparr>"

definition exampleModels :: seriesScope where
  "exampleModels =
     \<lparr>sc_lineStyle = exampleLineStyle, sc_hoverLineStyle = exampleLineStyle,
      sc_labelModel = exampleLabelModel,
      sc_hoverLabelModel = exampleLabelModel\<lparr>lm_show := Some False\<rparr>\<rparr>"

definition exampleSeries :: seriesModel where
  "exampleSeries =
     \<lparr>getFormattedLabel = (\<lambda>_ st. case st of Normal \<Rightarrow> None | Emphasis \<Rightarrow> Some ''hover''),
      getRawValue = (\<lambda>_. Some (Fin 3)),
      isAnimationEnabled = True\<rparr>"

definition exampleData :: lineData where
  "exampleData =
     \<lparr>hostModel = exampleSeries, hasItemOption = False,
      getItemLayout = (\<lambda>_. [(0, 0), (1, 1), (1, 0)]),
      getItemModel = (\<lambda>_. exampleModels),
      getName = (\<lambda>_. ''edge''),
      vis_color = (\<lambda>_. Some ''red''),
      vis_opacity = (\<lambda>_. None),
      vis_symbol = (\<lambda>_ cat. case cat of FromSymbol \<Rightarrow> Some ''circle'' | ToSymbol \<Rightarrow> Some ''arrow''),
      vis_symbolSize = (\<lambda>_ cat. case cat of FromSymbol \<Rightarrow> Scalar 10 | ToSymbol \<Rightarrow> Pair 8 6)\<rparr>"

text \<open>The same record with no marker at its end, and with an empty shape kind.\<close>

definition exampleDataNoArrow :: lineData where
  "exampleDataNoArrow =
     exampleData\<lparr>vis_symbol :=
       (\<lambda>_ cat. case cat of FromSymbol \<Rightarrow> Some ''circle'' | ToSymbol \<Rightarrow> Some ''none'')\<rparr>"

definition exampleDataEmptyKind :: lineData where
  "exampleDataEmptyKind = exampleData\<lparr>vis_symbol := (\<lambda>_ _. Some [])\<rparr>"

text \<open>The element of such a record, at a given draw progress, parent and anchor policy.\<close>

definition exampleShape :: "real \<Rightarrow> shape" where
  "exampleShape p =
     \<lparr>x1 = 0, y1 = 0, x2 = 1, y2 = 1, percent = p, cpx1 = Fin 1, cpy1 = Fin 0\<rparr>"

definition exampleSymbol :: "category \<Rightarrow> string \<Rightarrow> symbol" where
  "exampleSymbol cat ty =
     (symbolUtil_createSymbol ty (- 5) (- 5) 10 10 (Some ''red''))\<lparr>sym_name := Some cat\<rparr>"

definition exampleLabel :: "string \<Rightarrow> label" where
  "exampleLabel pos = newLabel\<lparr>lbl_position := Some pos, lbl_labelDistance := Some (5, 5)\<rparr>"

definition exampleLine :: "real \<Rightarrow> ancestor option \<Rightarrow> string \<Rightarrow> line" where
  "exampleLine p par pos =
     \<lparr>children =
        [CLine \<lparr>lp_shape = exampleShape p, lp_subPixelOptimize = True, lp_style = None,
                lp_hoverStyle = None, lp_dirty = True\<rparr>,
         CLabel (exampleLabel pos),
         CSymbol (exampleSymbol FromSymbol ''circle''),
         CSymbol (exampleSymbol ToSymbol ''arrow'')],
      fromSymbolType = Some ''circle'', toSymbolType = Some ''arrow'',
      parent = par, dirty = True, hoverStyleSet = True\<rparr>"

section \<open>Auxiliary facts about numbers\<close>

lemma overflowBound_large: "2 ^ 1000 < overflowBound"
proof -
  have "(2::real) ^ 1024 = 2 ^ 54 * 2 ^ 970" by (simp add: power_add [symmetric])
  moreover have "(2::real) ^ 1000 = 2 ^ 30 * 2 ^ 970" by (simp add: power_add [symmetric])
  ultimately have "overflowBound - 2 ^ 1000 = (2 ^ 54 - 1 - 2 ^ 30) * (2::real) ^ 970"
    unfolding overflowBound_def by (simp add: algebra_simps)
  moreover have "0 < (2 ^ 54 - 1 - 2 ^ 30) * (2::real) ^ 970" by simp
  ultimately show ?thesis by linarith
qed

lemma rangeChecked_Fin: "\<bar>x\<bar> \<le> 2 ^ 1000 \<Longrightarrow> rangeChecked x = Fin x"
  using overflowBound_large by (simp add: rangeChecked_def)

lemma two_pow_1000: "(1000000::real) \<le> 2 ^ 1000"
proof -
  have "(1000000::real) \<le> 2 ^ 20" by simp
  also have "\<dots> \<le> 2 ^ 1000" by (rule power_increasing) simp_all
  finally show ?thesis .
qed

lemma rangeChecked_small: "\<bar>x\<bar> \<le> 1000000 \<Longrightarrow> rangeChecked x = Fin x"
  using two_pow_1000 by (intro rangeChecked_Fin) linarith

lemma rangeChecked_eq_Fin: "rangeChecked x = Fin v \<longleftrightarrow> v = x \<and> \<bar>x\<bar> < overflowBound"
  by (auto simp: rangeChecked_def)

lemma rangeChecked_NonFinite: "rangeChecked x = NonFinite \<longleftrightarrow> overflowBound \<le> \<bar>x\<bar>"
  by (auto simp: rangeChecked_def)


lemma overflowBound_upper: "overflowBound \<le> 2 ^ 1024"
  using zero_le_power [of "2::real" 970] unfolding overflowBound_def by (simp only: diff_le_eq le_add_same_cancel1)

section \<open>Auxiliary facts about children\<close>

lemma getSymbolTypeKey_simps [simp]:
  "getSymbolTypeKey FromSymbol g = fromSymbolType g"
  "getSymbolTypeKey ToSymbol g = toSymbolType g"
  by (simp_all add: getSymbolTypeKey_def getField_def makeSymbolTypeKey_def)

lemma setSymbolTypeKey_simps [simp]:
  "setSymbolTypeKey FromSymbol v g = g\<lparr>fromSymbolType := v\<rparr>"
  "setSymbolTypeKey ToSymbol v g = g\<lparr>toSymbolType := v\<rparr>"
  by (simp_all add: setSymbolTypeKey_def setField_def makeSymbolTypeKey_def)

lemma find_snoc:
  "find P (xs @ [y]) = (case find P xs of Some x \<Rightarrow> Some x | None \<Rightarrow> if P y then Some y else None)"
  by (induction xs) auto

lemma find_mapFirst_same:
  "(\<And>x. P x \<Longrightarrow> P (f x)) \<Longrightarrow> find P (mapFirst P f xs) = map_option f (find P xs)"
  by (induction xs) auto

lemma childOfName_add:
  "childOfName (add c g) n =
     (case childOfName g n of Some x \<Rightarrow> Some x
      | None \<Rightarrow> (case c of None \<Rightarrow> None | Some x \<Rightarrow> if childName x = n then Some x else None))"
  by (cases c) (simp_all add: childOfName_def add_def find_snoc split: option.splits)

lemma childOfName_updateChild_same:
  assumes "\<And>c. childName c = n \<Longrightarrow> childName (f c) = n"
  shows "childOfName (updateChild n f g) n = map_option f (childOfName g n)"
  using assms by (simp add: childOfName_def updateChild_def find_mapFirst_same)

lemma find_mapFirst_diff:
  assumes "\<And>x. Q x \<Longrightarrow> \<not> P x \<and> \<not> P (f x)"
  shows "find P (mapFirst Q f xs) = find P xs"
  using assms by (induction xs) auto

lemma childOfName_updateChild_diff:
  assumes "m \<noteq> n" and "\<And>c. childName c = m \<Longrightarrow> childName (f c) = m"
  shows "childOfName (updateChild m f g) n = childOfName g n"
proof -
  have "find (\<lambda>c. childName c = n) (mapFirst (\<lambda>c. childName c = m) f (children g))
        = find (\<lambda>c. childName c = n) (children g)"
    by (rule find_mapFirst_diff) (use assms in auto)
  then show ?thesis by (simp add: childOfName_def updateChild_def)
qed

lemma find_remove1_same:
  assumes "distinct (map f xs)" and "x \<in> set xs" and "f x = n"
  shows "find (\<lambda>c. f c = n) (remove1 x xs) = None"
proof -
  have d: "distinct xs" and inj: "inj_on f (set xs)"
    using assms(1) by (simp_all add: distinct_map)
  have "f y \<noteq> n" if "y \<in> set (remove1 x xs)" for y
  proof -
    from that d have "y \<in> set xs" and "y \<noteq> x" by auto
    with inj assms(2,3) show ?thesis by (auto dest: inj_onD)
  qed
  then show ?thesis by (simp add: find_None_iff)
qed

lemma find_Some_mem: "find P xs = Some x \<Longrightarrow> x \<in> set xs \<and> P x"
  by (induction xs) (auto split: if_splits)

lemma find_remove1_diff:
  "f x = n \<Longrightarrow> m \<noteq> n \<Longrightarrow> find (\<lambda>c. f c = m) (remove1 x xs) = find (\<lambda>c. f c = m) xs"
  by (induction xs) auto

lemma names_mapFirst:
  "(\<And>x. P x \<Longrightarrow> h (f x) = h x) \<Longrightarrow> map h (mapFirst P f xs) = map h xs"
  by (induction xs) auto

lemma names_updateChild:
  assumes "\<And>c. childName c = n \<Longrightarrow> childName (f c) = n"
  shows "map childName (children (updateChild n f g)) = map childName (children g)"
proof -
  have "map childName (mapFirst (\<lambda>c. childName c = n) f (children g)) = map childName (children g)"
    by (rule names_mapFirst) (use assms in auto)
  then show ?thesis by (simp add: updateChild_def)
qed

lemma childOfName_name: "childOfName g n = Some c \<Longrightarrow> childName c = n"
  unfolding childOfName_def by (drule find_Some_mem) simp

lemma sym_name_repaint [simp]: "sym_name (repaint vc vo s) = sym_name s"
  by (simp add: repaint_def)

lemma childName_repaint [simp]: "childName (CSymbol (repaint vc vo s)) = childName (CSymbol s)"
  by simp

lemma childName_repaintChild [simp]: "childName (repaintChild vc vo c) = childName c"
  by (cases c) (simp_all add: repaintChild_def)

lemma categoryName_inj [simp]: "categoryName a = categoryName b \<longleftrightarrow> a = b"
  by (cases a; cases b) simp_all

lemma categoryName_not_line [simp]:
  "categoryName a \<noteq> ''line''" "categoryName a \<noteq> ''label''"
  "''line'' \<noteq> categoryName a" "''label'' \<noteq> categoryName a"
  by (cases a; simp)+

lemma paintSymbol_childOfName:
  "childOfName (paintSymbol vc vo cat g) n =
     (if n = categoryName cat then map_option (repaintChild vc vo) (childOfName g n)
      else childOfName g n)"
proof (cases "childOfName g (categoryName cat)")
  case None
  then show ?thesis by (simp add: paintSymbol_def)
next
  case (Some c)
  then have nm: "childName c = categoryName cat" by (rule childOfName_name)
  show ?thesis
  proof (cases c)
    case (CSymbol s)
    have pres: "\<And>c'. childName c' = categoryName cat \<Longrightarrow>
                 childName (CSymbol (repaint vc vo s)) = categoryName cat"
      using nm CSymbol by simp
    show ?thesis
    proof (cases "n = categoryName cat")
      case True
      then show ?thesis using Some CSymbol pres
        by (simp add: paintSymbol_def childOfName_updateChild_same repaintChild_def)
    next
      case False
      then show ?thesis using Some CSymbol pres
        by (simp add: paintSymbol_def childOfName_updateChild_diff)
    qed
  qed (use Some nm in \<open>simp_all add: paintSymbol_def\<close>)
qed

lemma paintSymbol_names:
  "map childName (children (paintSymbol vc vo cat g)) = map childName (children g)"
proof (cases "childOfName g (categoryName cat)")
  case None
  then show ?thesis by (simp add: paintSymbol_def)
next
  case (Some c)
  then have nm: "childName c = categoryName cat" by (rule childOfName_name)
  show ?thesis
  proof (cases c)
    case (CSymbol s)
    then show ?thesis using Some nm
      by (simp add: paintSymbol_def names_updateChild)
  qed (use Some in \<open>simp_all add: paintSymbol_def\<close>)
qed

lemma paintSymbol_fields [simp]:
  "fromSymbolType (paintSymbol vc vo cat g) = fromSymbolType g"
  "toSymbolType (paintSymbol vc vo cat g) = toSymbolType g"
  "parent (paintSymbol vc vo cat g) = parent g"
  "dirty (paintSymbol vc vo cat g) = dirty g"
  by (simp_all add: paintSymbol_def updateChild_def split: option.splits child.splits)

lemma updateChild_fields [simp]:
  "fromSymbolType (updateChild n f g) = fromSymbolType g"
  "toSymbolType (updateChild n f g) = toSymbolType g"
  "parent (updateChild n f g) = parent g"
  "dirty (updateChild n f g) = dirty g"
  by (simp_all add: updateChild_def)

lemma fold_paint_childOfName:
  "childOfName (fold (paintSymbol vc vo) SYMBOL_CATEGORIES g) n =
     (if n = ''fromSymbol'' \<or> n = ''toSymbol'' then map_option (repaintChild vc vo) (childOfName g n)
      else childOfName g n)"
  by (simp add: SYMBOL_CATEGORIES_def paintSymbol_childOfName)

lemma fold_paint_names:
  "map childName (children (fold (paintSymbol vc vo) SYMBOL_CATEGORIES g)) = map childName (children g)"
  by (simp add: SYMBOL_CATEGORIES_def paintSymbol_names)

lemma fold_paint_fields [simp]:
  "fromSymbolType (fold (paintSymbol vc vo) SYMBOL_CATEGORIES g) = fromSymbolType g"
  "toSymbolType (fold (paintSymbol vc vo) SYMBOL_CATEGORIES g) = toSymbolType g"
  "parent (fold (paintSymbol vc vo) SYMBOL_CATEGORIES g) = parent g"
  "dirty (fold (paintSymbol vc vo) SYMBOL_CATEGORIES g) = dirty g"
  by (simp_all add: SYMBOL_CATEGORIES_def)

lemma updateCommonStl_result:
  assumes lp: "childOfName this ''line'' = Some (CLine lp)"
      and lb: "childOfName this ''label'' = Some (CLabel lb)"
  shows "\<exists>this'. updateCommonStl rnd this lineData idx sc = Inr this' \<and>
     childOfName this' ''line'' = Some (CLine (styleLine lineData idx (resolveModels lineData idx sc) lp)) \<and>
     childOfName this' ''label'' =
       Some (CLabel (updateLabelStl rnd lineData idx (sc_labelModel (resolveModels lineData idx sc)) (sc_hoverLabelModel (resolveModels lineData idx sc)) lb)) \<and>
     (\<forall>cat. childOfName this' (categoryName cat) =
        map_option (repaintChild (vis_color lineData idx) (resolveOpacity lineData idx (resolveModels lineData idx sc)))
          (childOfName this (categoryName cat))) \<and>
     map childName (children this') = map childName (children this) \<and>
     fromSymbolType this' = fromSymbolType this \<and> toSymbolType this' = toSymbolType this \<and>
     parent this' = parent this \<and> dirty this' = dirty this"
proof -
  let ?vc = "vis_color lineData idx" and ?vo = "resolveOpacity lineData idx (resolveModels lineData idx sc)"
  let ?g1 = "updateChild ''line'' (\<lambda>_. CLine (styleLine lineData idx (resolveModels lineData idx sc) lp)) this"
  let ?g2 = "fold (paintSymbol ?vc ?vo) SYMBOL_CATEGORIES ?g1"
  let ?lb' = "updateLabelStl rnd lineData idx (sc_labelModel (resolveModels lineData idx sc)) (sc_hoverLabelModel (resolveModels lineData idx sc)) lb"
  let ?g3 = "updateChild ''label'' (\<lambda>_. CLabel ?lb') ?g2"
  have g1_line: "childOfName ?g1 ''line'' = Some (CLine (styleLine lineData idx (resolveModels lineData idx sc) lp))"
    using lp by (simp add: childOfName_updateChild_same)
  have g1_other: "n \<noteq> ''line'' \<Longrightarrow> childOfName ?g1 n = childOfName this n" for n
    by (simp add: childOfName_updateChild_diff)
  have g2_label: "childOfName ?g2 ''label'' = Some (CLabel lb)"
    using lb by (simp add: fold_paint_childOfName g1_other)
  have eq: "updateCommonStl rnd this lineData idx sc = Inr (?g3\<lparr>hoverStyleSet := True\<rparr>)"
    using lp g2_label by (simp add: updateCommonStl_def Let_def )
  have g3_line: "childOfName ?g3 ''line'' = Some (CLine (styleLine lineData idx (resolveModels lineData idx sc) lp))"
    using g1_line by (simp add: childOfName_updateChild_diff fold_paint_childOfName)
  have g3_label: "childOfName ?g3 ''label'' = Some (CLabel ?lb')"
    using g2_label by (simp add: childOfName_updateChild_same)
  have g3_sym: "childOfName ?g3 (categoryName cat) =
        map_option (repaintChild ?vc ?vo) (childOfName this (categoryName cat))" for cat
    by (cases cat) (simp_all add: childOfName_updateChild_diff fold_paint_childOfName g1_other)
  have g3_names: "map childName (children ?g3) = map childName (children this)"
    by (simp add: names_updateChild fold_paint_names)
  have hs: "childOfName (g\<lparr>hoverStyleSet := True\<rparr>) n = childOfName g n" for g n
    by (simp add: childOfName_def)
  show ?thesis
    unfolding eq using g3_line g3_label g3_sym g3_names by (simp add: hs)
qed

lemma updateCommonStl_Inr:
  assumes "updateCommonStl rnd this lineData idx sc = Inr this'"
  shows "\<exists>lp lb. childOfName this ''line'' = Some (CLine lp) \<and> childOfName this ''label'' = Some (CLabel lb)"
proof -
  from assms obtain lp where lp: "childOfName this ''line'' = Some (CLine lp)"
    by (auto simp: updateCommonStl_def Let_def split: option.splits child.splits)
  have g1_other: "n \<noteq> ''line'' \<Longrightarrow>
      childOfName (updateChild ''line'' (\<lambda>_. CLine x) this) n = childOfName this n" for n x
    by (simp add: childOfName_updateChild_diff)
  from assms lp obtain lb where "childOfName this ''label'' = Some (CLabel lb)"
    by (auto simp: updateCommonStl_def Let_def fold_paint_childOfName g1_other
             split: option.splits child.splits)
  with lp show ?thesis by blast
qed

lemma childOfName_None_iff: "childOfName g n = None \<longleftrightarrow> n \<notin> set (map childName (children g))"
  by (auto simp: childOfName_def find_None_iff)

lemma remove_childOfName:
  assumes "distinct (map childName (children g))"
  shows "childOfName (remove (childOfName g m) g) n = (if n = m then None else childOfName g n)"
proof (cases "childOfName g m")
  case None
  then show ?thesis by (simp add: remove_def)
next
  case (Some x)
  then have mem: "x \<in> set (children g)" and nm: "childName x = m"
    unfolding childOfName_def by (auto dest: find_Some_mem)
  show ?thesis
  proof (cases "n = m")
    case True
    then show ?thesis using Some find_remove1_same [OF assms mem nm]
      by (simp add: remove_def childOfName_def)
  next
    case False
    have "find (\<lambda>c. childName c = n) (remove1 x (children g))
          = find (\<lambda>c. childName c = n) (children g)"
      using nm False by (intro find_remove1_diff [where n = m]) auto
    then show ?thesis using Some False
      by (simp add: remove_def childOfName_def)
  qed
qed

lemma remove_distinct:
  assumes "distinct (map childName (children g))"
  shows "distinct (map childName (children (remove c g)))"
proof (cases c)
  case None
  then show ?thesis using assms by (simp add: remove_def)
next
  case (Some x)
  have "distinct (remove1 x (children g))" and "inj_on childName (set (remove1 x (children g)))"
    using assms by (auto simp: distinct_map intro: inj_on_subset set_remove1_subset)
  then show ?thesis using Some by (simp add: remove_def distinct_map)
qed

lemma add_distinct:
  assumes "distinct (map childName (children g))"
      and "\<And>x. c = Some x \<Longrightarrow> childOfName g (childName x) = None"
  shows "distinct (map childName (children (add c g)))"
  using assms by (cases c) (auto simp: add_def childOfName_None_iff)

lemma createSymbol_name: "createSymbol cat ld idx = Some s \<Longrightarrow> sym_name s = Some cat"
  by (auto simp: createSymbol_def Let_def split: option.splits if_splits)

lemma setSymbolTypeKey_children [simp]: "children (setSymbolTypeKey cat v g) = children g"
  by (cases cat) simp_all

lemma setSymbolTypeKey_childOfName [simp]:
  "childOfName (setSymbolTypeKey cat v g) n = childOfName g n"
  by (simp add: childOfName_def)

lemma setSymbolTypeKey_fields [simp]:
  "parent (setSymbolTypeKey cat v g) = parent g" "dirty (setSymbolTypeKey cat v g) = dirty g"
  by (cases cat; simp)+

lemma getSymbolTypeKey_set [simp]:
  "getSymbolTypeKey c (setSymbolTypeKey cat v g) = (if c = cat then v else getSymbolTypeKey c g)"
  by (cases c; cases cat) simp_all

lemma getSymbolTypeKey_add [simp]: "getSymbolTypeKey c (add x g) = getSymbolTypeKey c g"
  by (cases c; cases x) (simp_all add: add_def)

lemma getSymbolTypeKey_remove [simp]: "getSymbolTypeKey c (remove x g) = getSymbolTypeKey c g"
  by (cases c; cases x) (simp_all add: remove_def)

lemma add_remove_fields [simp]:
  "parent (add x g) = parent g" "dirty (add x g) = dirty g"
  "parent (remove x g) = parent g" "dirty (remove x g) = dirty g"
  by (cases x; simp add: add_def remove_def)+

lemma updateSymbol_childOfName:
  assumes "distinct (map childName (children g))"
  shows "childOfName (updateSymbol ld idx cat g) n =
     (if n = categoryName cat \<and> getSymbolTypeKey cat g \<noteq> vis_symbol ld idx cat
      then map_option CSymbol (createSymbol cat ld idx) else childOfName g n)"
proof (cases "getSymbolTypeKey cat g \<noteq> vis_symbol ld idx cat")
  case False
  then show ?thesis by (simp add: updateSymbol_def Let_def)
next
  case True
  have nm: "childName (CSymbol s) = categoryName cat" if "createSymbol cat ld idx = Some s" for s
    using createSymbol_name [OF that] by simp
  show ?thesis using True nm
    by (cases "createSymbol cat ld idx")
       (auto simp: updateSymbol_def Let_def childOfName_add remove_childOfName [OF assms]
             split: option.splits)
qed

lemma updateSymbol_distinct:
  assumes "distinct (map childName (children g))"
  shows "distinct (map childName (children (updateSymbol ld idx cat g)))"
proof (cases "getSymbolTypeKey cat g \<noteq> vis_symbol ld idx cat")
  case False
  then show ?thesis using assms by (simp add: updateSymbol_def Let_def)
next
  case True
  let ?g = "remove (childOfName g (categoryName cat)) g"
  have d: "distinct (map childName (children ?g))" by (rule remove_distinct [OF assms])
  have "distinct (map childName (children (add (map_option CSymbol (createSymbol cat ld idx)) ?g)))"
  proof (rule add_distinct [OF d])
    fix x assume "map_option CSymbol (createSymbol cat ld idx) = Some x"
    then obtain s where "createSymbol cat ld idx = Some s" "x = CSymbol s" by auto
    then have "childName x = categoryName cat" using createSymbol_name by fastforce
    then show "childOfName ?g (childName x) = None"
      by (simp add: remove_childOfName [OF assms])
  qed
  then show ?thesis using True by (simp add: updateSymbol_def Let_def)
qed

lemma updateSymbol_key [simp]:
  "getSymbolTypeKey c (updateSymbol ld idx cat g) =
     (if c = cat then vis_symbol ld idx cat else getSymbolTypeKey c g)"
  by (simp add: updateSymbol_def Let_def)

lemma updateSymbol_fields [simp]:
  "parent (updateSymbol ld idx cat g) = parent g" "dirty (updateSymbol ld idx cat g) = dirty g"
  by (simp_all add: updateSymbol_def Let_def)

lemma fold_updateSymbol:
  assumes "distinct (map childName (children g))"
  shows "distinct (map childName (children (fold (updateSymbol ld idx) SYMBOL_CATEGORIES g)))"
    and "childOfName (fold (updateSymbol ld idx) SYMBOL_CATEGORIES g) (categoryName cat) =
           (if getSymbolTypeKey cat g \<noteq> vis_symbol ld idx cat
            then map_option CSymbol (createSymbol cat ld idx)
            else childOfName g (categoryName cat))"
    and "n \<noteq> ''fromSymbol'' \<Longrightarrow> n \<noteq> ''toSymbol'' \<Longrightarrow>
         childOfName (fold (updateSymbol ld idx) SYMBOL_CATEGORIES g) n = childOfName g n"
proof -
  let ?g1 = "updateSymbol ld idx FromSymbol g"
  have d1: "distinct (map childName (children ?g1))" by (rule updateSymbol_distinct [OF assms])
  show "distinct (map childName (children (fold (updateSymbol ld idx) SYMBOL_CATEGORIES g)))"
    by (simp add: SYMBOL_CATEGORIES_def updateSymbol_distinct [OF d1])
  show "childOfName (fold (updateSymbol ld idx) SYMBOL_CATEGORIES g) (categoryName cat) =
           (if getSymbolTypeKey cat g \<noteq> vis_symbol ld idx cat
            then map_option CSymbol (createSymbol cat ld idx)
            else childOfName g (categoryName cat))"
    by (cases cat)
       (simp_all add: SYMBOL_CATEGORIES_def updateSymbol_childOfName [OF d1]
                      updateSymbol_childOfName [OF assms])
  show "n \<noteq> ''fromSymbol'' \<Longrightarrow> n \<noteq> ''toSymbol'' \<Longrightarrow>
         childOfName (fold (updateSymbol ld idx) SYMBOL_CATEGORIES g) n = childOfName g n"
    by (simp add: SYMBOL_CATEGORIES_def updateSymbol_childOfName [OF d1]
                  updateSymbol_childOfName [OF assms])
qed

lemma fold_updateSymbol_key:
  "getSymbolTypeKey c (fold (updateSymbol ld idx) SYMBOL_CATEGORIES g) = vis_symbol ld idx c"
  by (cases c) (simp_all add: SYMBOL_CATEGORIES_def)

lemma getSymbolTypeKey_updateChild [simp]:
  "getSymbolTypeKey c (updateChild n f g) = getSymbolTypeKey c g"
  by (cases c) simp_all

lemma setLinePoints_Inr:
  "setLinePoints sh (p0 # p1 # rest) =
     Inr (sh\<lparr>x1 := fst p0, y1 := snd p0, x2 := fst p1, y2 := snd p1, percent := 1,
             cpx1 := (case rest of [] \<Rightarrow> NonFinite | cp # _ \<Rightarrow> Fin (fst cp)),
             cpy1 := (case rest of [] \<Rightarrow> NonFinite | cp # _ \<Rightarrow> Fin (snd cp))\<rparr>)"
  by (simp add: setLinePoints_def Let_def split: list.splits)

lemma setLinePoints_Inl:
  "length points < 2 \<Longrightarrow> setLinePoints sh points = Inl TypeError"
  by (auto simp: setLinePoints_def split: list.splits)

lemma childOfName_newGroup [simp]: "childOfName newGroup n = None"
  by (simp add: childOfName_def newGroup_def)

lemma childOfName_key_update [simp]:
  "childOfName (g\<lparr>fromSymbolType := v\<rparr>) n = childOfName g n"
  "childOfName (g\<lparr>toSymbolType := v\<rparr>) n = childOfName g n"
  "childOfName (g\<lparr>hoverStyleSet := b\<rparr>) n = childOfName g n"
  by (simp_all add: childOfName_def)

lemma add_remove_keys [simp]:
  "fromSymbolType (add x g) = fromSymbolType g" "toSymbolType (add x g) = toSymbolType g"
  "fromSymbolType (remove x g) = fromSymbolType g" "toSymbolType (remove x g) = toSymbolType g"
  by (cases x; simp add: add_def remove_def)+

lemma createLineGroup_result:
  assumes lay: "getItemLayout lineData idx = p0 # p1 # rest"
  shows "\<exists>this sh. createLineGroup rnd lineData idx sc = Inr this \<and>
     setLinePoints emptyShape (p0 # p1 # rest) = Inr sh \<and>
     childOfName this ''line'' =
       Some (CLine (styleLine lineData idx (resolveModels lineData idx sc) (builtLine lineData idx sh))) \<and>
     childOfName this ''label'' =
       Some (CLabel (updateLabelStl rnd lineData idx (sc_labelModel (resolveModels lineData idx sc))
                       (sc_hoverLabelModel (resolveModels lineData idx sc)) newLabel)) \<and>
     (\<forall>cat. childOfName this (categoryName cat) =
        map_option (\<lambda>s. CSymbol (repaint (vis_color lineData idx)
                       (resolveOpacity lineData idx (resolveModels lineData idx sc)) s))
          (createSymbol cat lineData idx)) \<and>
     (\<forall>cat. getSymbolTypeKey cat this = vis_symbol lineData idx cat) \<and>
     distinct (map childName (children this)) \<and> parent this = None \<and> dirty this"
proof -
  obtain sh where sh: "setLinePoints emptyShape (p0 # p1 # rest) = Inr sh"
    by (simp add: setLinePoints_Inr)
  let ?line = "builtLine lineData idx sh"
  let ?g2 = "add (Some (CLabel newLabel)) (add (Some (CLine ?line)) newGroup)"
  let ?step = "\<lambda>symbolCategory g.
                               let symbol = createSymbol symbolCategory lineData idx
                               in setSymbolTypeKey symbolCategory
                                    (vis_symbol lineData idx symbolCategory)
                                    (add (map_option CSymbol symbol) g)"
  let ?g3 = "fold ?step SYMBOL_CATEGORIES ?g2"
  have eq: "createLineGroup rnd lineData idx sc = updateCommonStl rnd ?g3 lineData idx sc"
    using sh lay by (simp add: createLineGroup_def createLine_def Let_def builtLine_def)
  have nmF: "createSymbol FromSymbol lineData idx = Some s \<Longrightarrow> childName (CSymbol s) = ''fromSymbol''" for s
    by (auto dest: createSymbol_name)
  have nmT: "createSymbol ToSymbol lineData idx = Some s \<Longrightarrow> childName (CSymbol s) = ''toSymbol''" for s
    by (auto dest: createSymbol_name)
  have g3_line: "childOfName ?g3 ''line'' = Some (CLine ?line)"
    by (simp add: SYMBOL_CATEGORIES_def childOfName_add)
  have g3_label: "childOfName ?g3 ''label'' = Some (CLabel newLabel)"
    by (simp add: SYMBOL_CATEGORIES_def childOfName_add)
  have g2_sym: "childOfName ?g2 (categoryName cat) = None" for cat
    by (cases cat) (simp_all add: childOfName_add)
  have g3_sym: "childOfName ?g3 (categoryName cat) = map_option CSymbol (createSymbol cat lineData idx)" for cat
    using nmF nmT g2_sym [of FromSymbol] g2_sym [of ToSymbol]
    by (cases cat; cases "createSymbol FromSymbol lineData idx"; cases "createSymbol ToSymbol lineData idx")
       (simp_all add: SYMBOL_CATEGORIES_def childOfName_add)
  have g3_key: "getSymbolTypeKey cat ?g3 = vis_symbol lineData idx cat" for cat
    by (cases cat) (simp_all add: SYMBOL_CATEGORIES_def)
  have g3_names: "distinct (map childName (children ?g3))"
    using nmF nmT
    by (cases "createSymbol FromSymbol lineData idx"; cases "createSymbol ToSymbol lineData idx")
       (simp_all add: SYMBOL_CATEGORIES_def add_def newGroup_def)
  have g3_par: "parent ?g3 = None" "dirty ?g3"
    by (simp_all add: SYMBOL_CATEGORIES_def) (simp_all add: newGroup_def)
  from updateCommonStl_result [OF g3_line g3_label, of rnd lineData idx sc]
  obtain this' where r: "updateCommonStl rnd ?g3 lineData idx sc = Inr this'"
     "childOfName this' ''line'' = Some (CLine (styleLine lineData idx (resolveModels lineData idx sc) ?line))"
     "childOfName this' ''label'' =
       Some (CLabel (updateLabelStl rnd lineData idx (sc_labelModel (resolveModels lineData idx sc))
                       (sc_hoverLabelModel (resolveModels lineData idx sc)) newLabel))"
     "\<And>cat. childOfName this' (categoryName cat) =
        map_option (repaintChild (vis_color lineData idx) (resolveOpacity lineData idx (resolveModels lineData idx sc)))
          (childOfName ?g3 (categoryName cat))"
     "map childName (children this') = map childName (children ?g3)"
     "fromSymbolType this' = fromSymbolType ?g3" "toSymbolType this' = toSymbolType ?g3"
     "parent this' = parent ?g3" "dirty this' = dirty ?g3"
    by blast
  have key: "getSymbolTypeKey cat this' = vis_symbol lineData idx cat" for cat
    using g3_key [of cat] r(6,7) by (cases cat) simp_all
  have sym: "childOfName this' (categoryName cat) =
        map_option (\<lambda>s. CSymbol (repaint (vis_color lineData idx)
                       (resolveOpacity lineData idx (resolveModels lineData idx sc)) s))
          (createSymbol cat lineData idx)" for cat
    unfolding r(4) g3_sym by (cases "createSymbol cat lineData idx") (simp_all add: repaintChild_def)
  show ?thesis
    unfolding eq using r(1,2,3,5,8,9) sh key sym g3_names g3_par by simp
qed

lemma categoryName_nonempty [simp]: "categoryName a \<noteq> []" "[] \<noteq> categoryName a"
  by (cases a; simp)+

lemma childOfName_line:
  assumes "childOfName g ''line'' = Some c"
  shows "\<exists>lp. c = CLine lp"
  using childOfName_name [OF assms] by (cases c) (auto split: option.splits)

lemma childOfName_label:
  assumes "childOfName g ''label'' = Some c"
  shows "\<exists>lb. c = CLabel lb"
  using childOfName_name [OF assms] by (cases c) (auto split: option.splits)

lemma childOfName_symbol:
  assumes "childOfName g (categoryName cat) = Some c"
  shows "\<exists>s. c = CSymbol s \<and> sym_name s = Some cat"
  using childOfName_name [OF assms]
  by (cases c) (auto split: option.splits)

lemma wellFormedE:
  assumes "wellFormed this"
  obtains lp lb where "childOfName this ''line'' = Some (CLine lp)"
    and "childOfName this ''label'' = Some (CLabel lb)"
    and "distinct (map childName (children this))"
  using assms unfolding wellFormed_def
  by (metis childOfName_line childOfName_label not_Some_eq)

lemma updateData_result:
  assumes lp: "childOfName this ''line'' = Some (CLine lp)"
      and lb: "childOfName this ''label'' = Some (CLabel lb)"
      and dist: "distinct (map childName (children this))"
      and lay: "getItemLayout lineData idx = p0 # p1 # rest"
  shows "\<exists>this' sh. updateData rnd this lineData idx sc = Inr this' \<and>
     setLinePoints emptyShape (p0 # p1 # rest) = Inr sh \<and>
     childOfName this' ''line'' =
       Some (CLine (styleLine lineData idx (resolveModels lineData idx sc)
                      (updateProps lp sh (hostModel lineData)))) \<and>
     childOfName this' ''label'' =
       Some (CLabel (updateLabelStl rnd lineData idx (sc_labelModel (resolveModels lineData idx sc))
                       (sc_hoverLabelModel (resolveModels lineData idx sc)) lb)) \<and>
     (\<forall>cat. childOfName this' (categoryName cat) =
        map_option (repaintChild (vis_color lineData idx)
                      (resolveOpacity lineData idx (resolveModels lineData idx sc)))
          (if getSymbolTypeKey cat this \<noteq> vis_symbol lineData idx cat
           then map_option CSymbol (createSymbol cat lineData idx)
           else childOfName this (categoryName cat))) \<and>
     (\<forall>cat. getSymbolTypeKey cat this' = vis_symbol lineData idx cat) \<and>
     wellFormed this' \<and> parent this' = parent this \<and> dirty this' = dirty this"
proof -
  obtain sh where sh: "setLinePoints emptyShape (p0 # p1 # rest) = Inr sh"
    by (simp add: setLinePoints_Inr)
  let ?lp = "updateProps lp sh (hostModel lineData)"
  let ?g1 = "updateChild ''line'' (\<lambda>_. CLine ?lp) this"
  let ?g2 = "fold (updateSymbol lineData idx) SYMBOL_CATEGORIES ?g1"
  have eq: "updateData rnd this lineData idx sc = updateCommonStl rnd ?g2 lineData idx sc"
    using sh lay lp by (simp add: updateData_def Let_def)
  have g1_line: "childOfName ?g1 ''line'' = Some (CLine ?lp)"
    using lp by (simp add: childOfName_updateChild_same)
  have g1_other: "n \<noteq> ''line'' \<Longrightarrow> childOfName ?g1 n = childOfName this n" for n
    by (simp add: childOfName_updateChild_diff)
  have g1_dist: "distinct (map childName (children ?g1))"
    using dist by (simp add: names_updateChild)
  note f = fold_updateSymbol [OF g1_dist, where ld = lineData and idx = idx]
  have g2_line: "childOfName ?g2 ''line'' = Some (CLine ?lp)"
    using g1_line by (simp add: f(3))
  have g2_label: "childOfName ?g2 ''label'' = Some (CLabel lb)"
    using lb by (simp add: f(3) g1_other)
  have g2_sym: "childOfName ?g2 (categoryName cat) =
          (if getSymbolTypeKey cat this \<noteq> vis_symbol lineData idx cat
           then map_option CSymbol (createSymbol cat lineData idx)
           else childOfName this (categoryName cat))" for cat
    by (simp add: f(2) g1_other)
  from updateCommonStl_result [OF g2_line g2_label, of rnd lineData idx sc]
  obtain this' where r: "updateCommonStl rnd ?g2 lineData idx sc = Inr this'"
     "childOfName this' ''line'' = Some (CLine (styleLine lineData idx (resolveModels lineData idx sc) ?lp))"
     "childOfName this' ''label'' =
       Some (CLabel (updateLabelStl rnd lineData idx (sc_labelModel (resolveModels lineData idx sc))
                       (sc_hoverLabelModel (resolveModels lineData idx sc)) lb))"
     "\<And>cat. childOfName this' (categoryName cat) =
        map_option (repaintChild (vis_color lineData idx) (resolveOpacity lineData idx (resolveModels lineData idx sc)))
          (childOfName ?g2 (categoryName cat))"
     "map childName (children this') = map childName (children ?g2)"
     "fromSymbolType this' = fromSymbolType ?g2" "toSymbolType this' = toSymbolType ?g2"
     "parent this' = parent ?g2" "dirty this' = dirty ?g2"
    by blast
  have key: "getSymbolTypeKey cat this' = vis_symbol lineData idx cat" for cat
    using fold_updateSymbol_key [of cat lineData idx ?g1] r(6,7) by (cases cat) simp_all
  have wf: "wellFormed this'"
    using r(2,3,5) f(1) by (simp add: wellFormed_def)
  have par: "parent this' = parent this" "dirty this' = dirty this"
    using r(8,9) by (simp_all add: SYMBOL_CATEGORIES_def)
  show ?thesis
    unfolding eq using r(1,2,3) sh key wf par by (simp add: r(4) g2_sym)
qed


lemma updateData_Inr:
  assumes "updateData rnd this lineData idx sc = Inr this'"
  shows "\<exists>g. updateCommonStl rnd g lineData idx sc = Inr this' \<and>
             (\<forall>cat. getSymbolTypeKey cat g = vis_symbol lineData idx cat)"
proof -
  from assms obtain sh lp where
    "updateCommonStl rnd (fold (updateSymbol lineData idx) SYMBOL_CATEGORIES
        (updateChild ''line'' (\<lambda>_. CLine (updateProps lp sh (hostModel lineData))) this))
        lineData idx sc = Inr this'"
    by (auto simp: updateData_def Let_def split: sum.splits option.splits child.splits)
  then show ?thesis using fold_updateSymbol_key by blast
qed

lemma createLineGroup_Inr:
  assumes "createLineGroup rnd lineData idx sc = Inr this'"
  shows "\<exists>g. updateCommonStl rnd g lineData idx sc = Inr this' \<and>
             (\<forall>cat. getSymbolTypeKey cat g = vis_symbol lineData idx cat)"
proof -
  have k: "getSymbolTypeKey cat (fold (\<lambda>symbolCategory g.
                               let symbol = createSymbol symbolCategory lineData idx
                               in setSymbolTypeKey symbolCategory
                                    (vis_symbol lineData idx symbolCategory)
                                    (add (map_option CSymbol symbol) g))
                         SYMBOL_CATEGORIES g0) = vis_symbol lineData idx cat" for cat g0
    by (cases cat) (simp_all add: SYMBOL_CATEGORIES_def)
  show ?thesis using assms k
    by (auto simp: createLineGroup_def Let_def split: sum.splits)
qed

lemma sym_name_pose [simp]:
  "sym_name (poseFrom sh p iv s) = sym_name s" "sym_name (poseTo sh p iv s) = sym_name s"
  by (simp_all add: poseFrom_def poseTo_def Let_def)

lemma layoutLabel_Inr:
  "lbl_labelDistance lb \<noteq> None \<Longrightarrow> \<exists>l'. layoutLabel lb sh fromPos toPos d iv = Inr l'"
  by (auto simp: layoutLabel_def Let_def)

lemma symbol_cases:
  obtains (none) "childOfName g (categoryName cat) = None"
  | (some) s where "childOfName g (categoryName cat) = Some (CSymbol s)" "sym_name s = Some cat"
  using childOfName_symbol [of g cat] by (cases "childOfName g (categoryName cat)") auto

lemma beforeUpdate_pass:
  assumes lp: "childOfName this ''line'' = Some (CLine lp)"
      and lb: "childOfName this ''label'' = Some (CLabel lb)"
      and dirt: "dirty this \<or> lp_dirty lp"
      and some: "childOfName this ''fromSymbol'' \<noteq> None \<or> childOfName this ''toSymbol'' \<noteq> None
                 \<or> \<not> lbl_ignore lb"
      and dist: "lbl_ignore lb \<or> lbl_labelDistance lb \<noteq> None"
  shows "\<exists>this'. beforeUpdate this = Inr this' \<and>
     childOfName this' ''fromSymbol'' =
       map_option (poseChild (poseFrom (lp_shape lp) (pointAt (lp_shape lp) 0)
                                (invScaleLoop (Fin 1) (parent this))))
         (childOfName this ''fromSymbol'') \<and>
     childOfName this' ''toSymbol'' =
       map_option (poseChild (poseTo (lp_shape lp) (pointAt (lp_shape lp) (percent (lp_shape lp)))
                                (invScaleLoop (Fin 1) (parent this))))
         (childOfName this ''toSymbol'') \<and>
     childOfName this' ''line'' = Some (CLine lp) \<and>
     (\<exists>l'. childOfName this' ''label'' = Some (CLabel l') \<and>
        (if lbl_ignore lb then l' = lb
         else layoutLabel lb (lp_shape lp) (pointAt (lp_shape lp) 0)
                (pointAt (lp_shape lp) (percent (lp_shape lp)))
                (normalize (vsub (pointAt (lp_shape lp) (percent (lp_shape lp)))
                                 (pointAt (lp_shape lp) 0)))
                (invScaleLoop (Fin 1) (parent this)) = Inr l'))"
proof -
  let ?sh = "lp_shape lp"
  let ?iv = "invScaleLoop (Fin 1) (parent this)"
  let ?from = "pointAt ?sh 0" and ?to = "pointAt ?sh (percent ?sh)"
  let ?d = "normalize (vsub ?to ?from)"
  obtain l' where l': "if lbl_ignore lb then l' = lb else layoutLabel lb ?sh ?from ?to ?d ?iv = Inr l'"
    using dist layoutLabel_Inr [of lb ?sh ?from ?to ?d ?iv] by (cases "lbl_ignore lb") auto
  have upd_same: "childOfName g n = Some c \<Longrightarrow> childName c' = n \<Longrightarrow>
      childOfName (updateChild n (\<lambda>_. c') g) n = Some c'" for g n c c'
    by (simp add: childOfName_updateChild_same)
  have upd_diff: "m \<noteq> n \<Longrightarrow> childName c' = m \<Longrightarrow>
      childOfName (updateChild m (\<lambda>_. c') g) n = childOfName g n" for g m n c'
    by (simp add: childOfName_updateChild_diff)
  show ?thesis
  proof (cases rule: symbol_cases [of this FromSymbol])
    case none
    note f = none
    show ?thesis
    proof (cases rule: symbol_cases [of this ToSymbol])
      case none
      then show ?thesis using f lp lb dirt some l'
        by (auto simp: beforeUpdate_def Let_def upd_same upd_diff poseChild_def)
    next
      case (some s)
      then show ?thesis using f lp lb dirt l'
        by (auto simp: beforeUpdate_def Let_def upd_same upd_diff poseChild_def)
    qed
  next
    case (some s)
    note f = some
    show ?thesis
    proof (cases rule: symbol_cases [of this ToSymbol])
      case none
      then show ?thesis using f lp lb dirt l'
        by (auto simp: beforeUpdate_def Let_def upd_same upd_diff poseChild_def)
    next
      case (some t)
      then show ?thesis using f lp lb dirt l'
        by (auto simp: beforeUpdate_def Let_def upd_same upd_diff poseChild_def)
    qed
  qed
qed

lemma createLineGroup_wellFormed:
  assumes "getItemLayout lineData idx = p0 # p1 # rest"
  shows "\<exists>this. createLineGroup rnd lineData idx sc = Inr this \<and> wellFormed this \<and>
           (\<forall>cat. getSymbolTypeKey cat this = vis_symbol lineData idx cat)"
  using createLineGroup_result [OF assms, of rnd sc]
  by (auto simp: wellFormed_def)

lemma exampleLine_children:
  "childOfName (exampleLine p par pos) ''line'' =
     Some (CLine \<lparr>lp_shape = exampleShape p, lp_subPixelOptimize = True, lp_style = None,
                  lp_hoverStyle = None, lp_dirty = True\<rparr>)"
  "childOfName (exampleLine p par pos) ''label'' = Some (CLabel (exampleLabel pos))"
  "childOfName (exampleLine p par pos) ''fromSymbol'' = Some (CSymbol (exampleSymbol FromSymbol ''circle''))"
  "childOfName (exampleLine p par pos) ''toSymbol'' = Some (CSymbol (exampleSymbol ToSymbol ''arrow''))"
  by (simp_all add: childOfName_def exampleLine_def exampleSymbol_def)

lemma exampleLine_wellFormed: "wellFormed (exampleLine p par pos)"
  by (simp add: wellFormed_def exampleLine_children)
     (simp add: exampleLine_def exampleSymbol_def)

lemma childOfName_unique:
  assumes "distinct (map childName (children g))" and "c \<in> set (children g)"
  shows "childOfName g (childName c) = Some c"
proof -
  have "find (\<lambda>x. f x = f c) xs = Some c" if "distinct (map f xs)" "c \<in> set xs" for f :: "child \<Rightarrow> string" and xs
    using that by (induction xs) (auto simp: image_iff)
  from this [OF assms] show ?thesis by (simp add: childOfName_def)
qed

lemma updateLabelStl_ignore:
  "lbl_ignore (updateLabelStl rnd lineData idx lm hlm lb) =
     (\<not> truthyBool (lm_show lm) \<and> \<not> truthyBool (lm_show hlm))"
  by (simp add: updateLabelStl_def Let_def)

lemma updateLabelStl_hoverText:
  "hs_text (lbl_hoverStyle (updateLabelStl rnd lineData idx lm hlm lb)) =
     (if truthyBool (lm_show hlm)
      then Some (case getFormattedLabel (hostModel lineData) idx Emphasis of
                   Some t \<Rightarrow> TStr t | None \<Rightarrow> resolveBaseText rnd lineData idx)
      else None)"
  by (simp add: updateLabelStl_def Let_def retrieve2_def split: option.splits)

lemma updateLabelStl_text:
  "truthyBool (lm_show lm) \<or> truthyBool (lm_show hlm) \<Longrightarrow>
   ts_text (lbl_style (updateLabelStl rnd lineData idx lm hlm lb)) =
     (if truthyBool (lm_show lm) then Some (resolveBaseText rnd lineData idx) else None)"
  by (auto simp: updateLabelStl_def Let_def retrieve2_def setTextStyle_def split: option.splits)

lemma updateLabelStl_texts:
  fixes rnd lineData idx lm hlm lb
  defines "l' \<equiv> updateLabelStl rnd lineData idx lm hlm lb"
  defines "base \<equiv>
     (case getFormattedLabel (hostModel lineData) idx Normal of
        Some t \<Rightarrow> TStr t
      | None \<Rightarrow>
          (case getRawValue (hostModel lineData) idx of
             None \<Rightarrow> TStr (getName lineData idx)
           | Some (Fin r) \<Rightarrow> TNum (Fin (rnd r))
           | Some NonFinite \<Rightarrow> TNum NonFinite))"
  shows "(truthyBool (lm_show lm) \<longrightarrow> ts_text (lbl_style l') = Some base) \<and>
         (\<not> truthyBool (lm_show lm) \<and> truthyBool (lm_show hlm) \<longrightarrow> ts_text (lbl_style l') = None) \<and>
         (truthyBool (lm_show hlm) \<longrightarrow>
            hs_text (lbl_hoverStyle l') =
              Some (case getFormattedLabel (hostModel lineData) idx Emphasis of
                      Some t \<Rightarrow> TStr t | None \<Rightarrow> base)) \<and>
         (\<not> truthyBool (lm_show hlm) \<longrightarrow> hs_text (lbl_hoverStyle l') = None)"
  unfolding l'_def base_def
  by (auto simp: updateLabelStl_hoverText updateLabelStl_text resolveBaseText_def
           split: option.splits)

lemma lp_shape_styleLine [simp]: "lp_shape (styleLine lineData idx M lp) = lp_shape lp"
  by (simp add: styleLine_def Let_def)

lemma lp_shape_builtLine:
  "lp_shape (builtLine lineData idx sh) =
     sh\<lparr>percent := (if isAnimationEnabled (hostModel lineData) then 0 else 1)\<rparr>"
  by (simp add: builtLine_def initProps_def)

lemma pointAt_percent [simp]: "pointAt (sh\<lparr>percent := p\<rparr>) t = pointAt sh t"
  by (simp add: pointAt_def controlPoint_def split: jsnum.splits)

lemma tangentAt_percent [simp]: "tangentAt (sh\<lparr>percent := p\<rparr>) t = tangentAt sh t"
  by (simp add: tangentAt_def controlPoint_def split: jsnum.splits)

lemma roundtrip_shapes:
  assumes lay: "getItemLayout lineData idx = p0 # p1 # rest"
  shows "\<exists>this lp lp'.
            createLineGroup rnd lineData idx sc = Inr this \<and>
            lineOf (Inr this) = Some lp \<and>
            lineOf (line_setLinePoints this (getItemLayout lineData idx)) = Some lp' \<and>
            lp_shape lp' = (lp_shape lp)\<lparr>percent := 1\<rparr> \<and>
            percent (lp_shape lp) = (if isAnimationEnabled (hostModel lineData) then 0 else 1) \<and>
            (x1 (lp_shape lp), y1 (lp_shape lp)) = p0 \<and>
            (x2 (lp_shape lp), y2 (lp_shape lp)) = p1"
proof -
  let ?G = "p0 # p1 # rest"
  from createLineGroup_result [OF lay, of rnd sc]
  obtain this sh where c: "createLineGroup rnd lineData idx sc = Inr this"
      "setLinePoints emptyShape ?G = Inr sh"
      "childOfName this ''line'' =
         Some (CLine (styleLine lineData idx (resolveModels lineData idx sc) (builtLine lineData idx sh)))"
    by blast
  let ?lp = "styleLine lineData idx (resolveModels lineData idx sc) (builtLine lineData idx sh)"
  obtain s' where s': "setLinePoints (lp_shape ?lp) ?G = Inr s'"
    by (simp add: setLinePoints_Inr)
  let ?lp' = "?lp\<lparr>lp_shape := s', lp_dirty := True\<rparr>"
  have eq: "s' = (lp_shape ?lp)\<lparr>percent := 1\<rparr>"
    using s' c(2) by (auto simp: setLinePoints_Inr lp_shape_builtLine)
  have r: "line_setLinePoints this (getItemLayout lineData idx) =
        Inr (updateChild ''line'' (\<lambda>_. CLine ?lp') this)"
    using c(3) s' lay by (simp add: line_setLinePoints_def)
  have "lineOf (line_setLinePoints this (getItemLayout lineData idx)) = Some ?lp'"
    unfolding r using c(3) by (simp add: lineOf_def childOfName_updateChild_same)
  moreover have "lineOf (Inr this) = Some ?lp"
    using c(3) by (simp add: lineOf_def)
  moreover have "lp_shape ?lp' = (lp_shape ?lp)\<lparr>percent := 1\<rparr>"
    using eq by simp
  moreover have "percent (lp_shape ?lp) = (if isAnimationEnabled (hostModel lineData) then 0 else 1)"
    by (simp add: lp_shape_builtLine)
  moreover have "(x1 (lp_shape ?lp), y1 (lp_shape ?lp)) = p0"
      "(x2 (lp_shape ?lp), y2 (lp_shape ?lp)) = p1"
    using c(2) by (auto simp: setLinePoints_Inr lp_shape_builtLine)
  ultimately show ?thesis using c(1) by blast
qed

lemma shape_percent_update_eq: "sh\<lparr>percent := p\<rparr> = sh \<longleftrightarrow> percent sh = p"
  by (cases sh) auto

lemma pointAt_ends:
  "pointAt sh 0 = (x1 sh, y1 sh)" "pointAt sh 1 = (x2 sh, y2 sh)"
  by (simp_all add: pointAt_def split: option.splits prod.splits)

section \<open>Auxiliary facts about the layout pass\<close>





text \<open>
  Two ancestors with an x-scale of \<open>2^-600\<close> each: no x-scale is 0, and the second
  quotient, \<open>2^1200\<close>, is out of range.
\<close>

lemma scales_overflow:
  assumes "t \<noteq> 0" and "\<bar>1 / t\<bar> < overflowBound" and "overflowBound \<le> \<bar>1 / t / t\<bar>"
  shows "0 \<notin> set (ancestorScales (Some (Ancestor (Some (t, u)) (Some (Ancestor (Some (t, u')) None))))) \<and>
         invScaleLoop (Fin 1) (Some (Ancestor (Some (t, u)) (Some (Ancestor (Some (t, u')) None))))
           = NonFinite"
  using assms by (simp add: rangeChecked_def)

lemma tiny_scales_overflow:
  fixes t :: real
  assumes t: "t = 1 / 2 ^ 600"
  shows "0 \<notin> set (ancestorScales (Some (Ancestor (Some (t, 1)) (Some (Ancestor (Some (t, 1)) None))))) \<and>
         invScaleLoop (Fin 1) (Some (Ancestor (Some (t, 1)) (Some (Ancestor (Some (t, 1)) None))))
           = NonFinite"
proof (rule scales_overflow)
  define p :: real where "p = 2 ^ 600"
  have p0: "0 < p" unfolding p_def by (rule zero_less_power) simp
  have tp: "t = 1 / p" unfolding t p_def ..
  show "t \<noteq> 0" using p0 tp by simp
  have "p \<le> 2 ^ 1000" unfolding p_def by (rule power_increasing) simp_all
  then have "p < overflowBound" using overflowBound_large by (rule le_less_trans)
  then show "\<bar>1 / t\<bar> < overflowBound" using p0 tp by simp
  have n: "(600::nat) + 600 = 1200" by simp
  have "p * p = 2 ^ 1200" unfolding p_def power_add [symmetric] n ..
  moreover have "(2::real) ^ 1024 \<le> 2 ^ 1200" by (rule power_increasing) simp_all
  ultimately have "overflowBound \<le> p * p" using overflowBound_upper by (simp only:)
  then show "overflowBound \<le> \<bar>1 / t / t\<bar>" using p0 tp by simp
qed


lemma symbolOf_beforeUpdate:
  assumes sym: "childOfName this (categoryName cat) = Some (CSymbol s)"
      and lp: "childOfName this ''line'' = Some (CLine lp)"
      and lb: "childOfName this ''label'' = Some (CLabel lb)"
      and dirt: "dirty this \<or> lp_dirty lp"
      and dist: "lbl_ignore lb \<or> lbl_labelDistance lb \<noteq> None"
  shows "symbolOf cat (beforeUpdate this) =
     Some (case cat of
             FromSymbol \<Rightarrow> poseFrom (lp_shape lp) (pointAt (lp_shape lp) 0)
                             (invScaleLoop (Fin 1) (parent this)) s
           | ToSymbol \<Rightarrow> poseTo (lp_shape lp) (pointAt (lp_shape lp) (percent (lp_shape lp)))
                           (invScaleLoop (Fin 1) (parent this)) s)"
proof -
  have some: "childOfName this ''fromSymbol'' \<noteq> None \<or> childOfName this ''toSymbol'' \<noteq> None
                 \<or> \<not> lbl_ignore lb"
    using sym by (cases cat) auto
  from beforeUpdate_pass [OF lp lb dirt some dist] sym
  show ?thesis by (cases cat) (auto simp: symbolOf_def poseChild_def)
qed

lemma tangentAt_straight:
  "controlPoint sh = None \<Longrightarrow> tangentAt sh t = tangentAt sh u"
  by (simp add: tangentAt_def)

lemma layoutLabel_result:
  assumes dist: "lbl_labelDistance lb = Some distance"
      and pl: "pl = labelPlacement (lbl_position lb) d (tangentAt sh (percent sh / 2)) fromPos toPos
                 (pointAt sh (percent sh / 2))
                 (if fst (tangentAt sh (percent sh / 2)) < 0 then - 1 else 1)
                 (jmul (Fin (fst distance)) iv) (jmul (Fin (snd distance)) iv)"
  shows "\<exists>l'. layoutLabel lb sh fromPos toPos d iv = Inr l' \<and>
     ts_textVerticalAlign (lbl_style l') = orStr (lbl_verticalAlign lb) (Some (pl_textVerticalAlign pl)) \<and>
     ts_textAlign (lbl_style l') = orStr (lbl_textAlign lb) (pl_textAlign pl) \<and>
     lbl_origin l' = (case pl_textOrigin pl of None \<Rightarrow> lbl_origin lb | Some p \<Rightarrow> Some p) \<and>
     lbl_pos l' = (case pl_textPosition pl of None \<Rightarrow> (Fin (fst toPos), Fin (snd toPos)) | Some p \<Rightarrow> p) \<and>
     lbl_scale l' = (iv, iv)"
proof -
  let ?tangent = "tangentAt sh (percent sh / 2)"
  let ?label1 = "lb\<lparr>lbl_pos := (Fin (fst toPos), Fin (snd toPos))\<rparr>"
  define label2 where "label2 =
     (if lbl_position lb \<noteq> Some ''start'' \<and> lbl_position lb \<noteq> Some ''end''
      then let rotation = - atan2 (snd ?tangent) (fst ?tangent)
           in ?label1\<lparr>lbl_rotation := (if fst toPos < fst fromPos then pi + rotation else rotation)\<rparr>
      else ?label1)"
  have f: "lbl_origin label2 = lbl_origin lb" "lbl_pos label2 = (Fin (fst toPos), Fin (snd toPos))"
    by (simp_all add: label2_def Let_def)
  have eq: "layoutLabel lb sh fromPos toPos d iv =
     Inr (label2\<lparr>
            lbl_style := (lbl_style label2)\<lparr>
              ts_textVerticalAlign := orStr (lbl_verticalAlign lb) (Some (pl_textVerticalAlign pl)),
              ts_textAlign := orStr (lbl_textAlign lb) (pl_textAlign pl)\<rparr>,
            lbl_pos := (case pl_textPosition pl of None \<Rightarrow> lbl_pos label2 | Some p \<Rightarrow> p),
            lbl_scale := (iv, iv),
            lbl_origin := (case pl_textOrigin pl of None \<Rightarrow> lbl_origin label2 | Some p \<Rightarrow> Some p)\<rparr>)"
    unfolding layoutLabel_def pl label2_def dist Let_def by simp
  show ?thesis unfolding eq by (simp add: f cong: option.case_cong)
qed

lemma labelOf_beforeUpdate:
  assumes lp: "childOfName this ''line'' = Some (CLine lp)"
      and lb: "childOfName this ''label'' = Some (CLabel lb)"
      and dirt: "dirty this \<or> lp_dirty lp"
      and vis: "\<not> lbl_ignore lb"
      and dist: "lbl_labelDistance lb = Some distance"
  shows "\<exists>l'. labelOf (beforeUpdate this) = Some l' \<and>
           layoutLabel lb (lp_shape lp) (pointAt (lp_shape lp) 0)
                (pointAt (lp_shape lp) (percent (lp_shape lp)))
                (normalize (vsub (pointAt (lp_shape lp) (percent (lp_shape lp)))
                                 (pointAt (lp_shape lp) 0)))
                (invScaleLoop (Fin 1) (parent this)) = Inr l'"
proof -
  have some: "childOfName this ''fromSymbol'' \<noteq> None \<or> childOfName this ''toSymbol'' \<noteq> None
                 \<or> \<not> lbl_ignore lb"
    using vis by simp
  have d': "lbl_ignore lb \<or> lbl_labelDistance lb \<noteq> None" using dist by simp
  from beforeUpdate_pass [OF lp lb dirt some d'] vis
  show ?thesis by (auto simp: labelOf_def)
qed

lemma labelPlacement_end:
  "pl_textAlign (labelPlacement (Some ''end'') d tangent fromPos toPos cp dir distanceX distanceY) =
     Some (if 0.8 < fst d then ''left'' else if fst d < - 0.8 then ''right'' else ''center'')"
  "pl_textVerticalAlign (labelPlacement (Some ''end'') d tangent fromPos toPos cp dir distanceX distanceY) =
     (if 0.8 < snd d then ''top'' else if snd d < - 0.8 then ''bottom'' else ''middle'')"
  by (simp_all add: labelPlacement_def Let_def)

lemma labelPlacement_ends:
  "pl_dy (labelPlacement (Some ''end'') d tangent fromPos toPos cp dir distanceX distanceY) = Fin 0"
  "pl_dy (labelPlacement (Some ''start'') d tangent fromPos toPos cp dir distanceX distanceY) = Fin 0"
  "pl_textVerticalAlign (labelPlacement (Some ''start'') d tangent fromPos toPos cp dir distanceX distanceY) =
     (if 0.8 < snd d then ''bottom'' else if snd d < - 0.8 then ''top'' else ''middle'')"
  "pl_textOrigin (labelPlacement (Some ''end'') d tangent fromPos toPos cp dir distanceX distanceY) = None"
  "pl_textOrigin (labelPlacement (Some ''start'') d tangent fromPos toPos cp dir distanceX distanceY) = None"
  by (simp_all add: labelPlacement_def labelVertical_def Let_def)

lemma POLICIES_iff:
  "p \<in> set POLICIES \<longleftrightarrow>
     p = ''start'' \<or> p = ''middle'' \<or> p = ''end''
     \<or> p = ''insideStart'' \<or> p = ''insideStartTop'' \<or> p = ''insideStartBottom''
     \<or> p = ''insideMiddle'' \<or> p = ''insideMiddleTop'' \<or> p = ''insideMiddleBottom''
     \<or> p = ''insideEnd'' \<or> p = ''insideEndTop'' \<or> p = ''insideEndBottom''"
  unfolding POLICIES_def by simp

lemma labelPlacement_vertical:
  "pl_dy (labelPlacement position d tangent fromPos toPos cp dir distanceX distanceY)
     = fst (labelVertical position distanceY)"
  "position \<noteq> Some ''start'' \<Longrightarrow> position \<noteq> Some ''end'' \<Longrightarrow>
   pl_textVerticalAlign (labelPlacement position d tangent fromPos toPos cp dir distanceX distanceY)
     = snd (labelVertical position distanceY)"
  by (simp_all add: labelPlacement_def Let_def)

lemma labelPlacement_origin:
  assumes "p \<in> set POLICIES" "p \<noteq> ''start''" "p \<noteq> ''end''"
  shows "map_option snd
           (pl_textOrigin (labelPlacement (Some p) d tangent fromPos toPos cp dir distanceX distanceY))
         = Some (jneg (fst (labelVertical (Some p) distanceY)))"
  using assms unfolding POLICIES_iff
  by (elim disjE) (simp_all add: labelPlacement_def Let_def)

lemma labelPlacement_classes:
  assumes "p \<in> set POLICIES"
  shows "(containsStr ''Top'' p \<or> p = ''middle'' \<longrightarrow>
            pl_dy (labelPlacement (Some p) d tangent fromPos toPos cp dir distanceX distanceY) = jneg distanceY \<and>
            pl_textVerticalAlign (labelPlacement (Some p) d tangent fromPos toPos cp dir distanceX distanceY) = ''bottom'') \<and>
         (containsStr ''Bottom'' p \<longrightarrow>
            pl_dy (labelPlacement (Some p) d tangent fromPos toPos cp dir distanceX distanceY) = distanceY \<and>
            pl_textVerticalAlign (labelPlacement (Some p) d tangent fromPos toPos cp dir distanceX distanceY) = ''top'') \<and>
         (p = ''insideStart'' \<or> p = ''insideMiddle'' \<or> p = ''insideEnd'' \<longrightarrow>
            pl_dy (labelPlacement (Some p) d tangent fromPos toPos cp dir distanceX distanceY) = Fin 0 \<and>
            pl_textVerticalAlign (labelPlacement (Some p) d tangent fromPos toPos cp dir distanceX distanceY) = ''middle'') \<and>
         (p = ''start'' \<or> p = ''end'' \<longrightarrow>
            pl_dy (labelPlacement (Some p) d tangent fromPos toPos cp dir distanceX distanceY) = Fin 0) \<and>
         (containsStr ''Top'' p \<or> p = ''middle'' \<or> containsStr ''Bottom'' p \<or>
          p = ''insideStart'' \<or> p = ''insideMiddle'' \<or> p = ''insideEnd'' \<or>
          p = ''start'' \<or> p = ''end'')"
  using assms unfolding POLICIES_iff
  by (elim disjE) (simp_all add: labelPlacement_def labelVertical_def Let_def)

lemma beforeUpdate_vertical:
  assumes p: "p \<in> set POLICIES"
      and n: "p \<noteq> ''start''" "p \<noteq> ''end''"
      and lp: "childOfName this ''line'' = Some (CLine lp)"
      and lb: "childOfName this ''label'' = Some (CLabel lb)"
      and dirt: "dirty this \<or> lp_dirty lp"
      and vis: "\<not> lbl_ignore lb"
      and pos: "lbl_position lb = Some p"
      and dist: "lbl_labelDistance lb = Some distance"
      and dY: "dY = jmul (Fin (snd distance)) (invScaleLoop (Fin 1) (parent this))"
  shows "\<exists>l'. labelOf (beforeUpdate this) = Some l' \<and>
               ts_textVerticalAlign (lbl_style l') =
                 orStr (lbl_verticalAlign lb) (Some (snd (labelVertical (Some p) dY))) \<and>
               map_option snd (lbl_origin l') = Some (jneg (fst (labelVertical (Some p) dY)))"
proof -
  let ?sh = "lp_shape lp"
  let ?iv = "invScaleLoop (Fin 1) (parent this)"
  let ?chord = "normalize (vsub (pointAt ?sh (percent ?sh)) (pointAt ?sh 0))"
  define PL where "PL = labelPlacement (lbl_position lb) ?chord (tangentAt ?sh (percent ?sh / 2))
                 (pointAt ?sh 0) (pointAt ?sh (percent ?sh)) (pointAt ?sh (percent ?sh / 2))
                 (if fst (tangentAt ?sh (percent ?sh / 2)) < 0 then - 1 else 1)
                 (jmul (Fin (fst distance)) ?iv) (jmul (Fin (snd distance)) ?iv)"
  from labelOf_beforeUpdate [OF lp lb dirt vis dist]
  obtain l' where l': "labelOf (beforeUpdate this) = Some l'"
     "layoutLabel lb ?sh (pointAt ?sh 0) (pointAt ?sh (percent ?sh)) ?chord ?iv = Inr l'"
    by blast
  from layoutLabel_result [OF dist PL_def] l'(2)
  have r: "ts_textVerticalAlign (lbl_style l') =
             orStr (lbl_verticalAlign lb) (Some (pl_textVerticalAlign PL))"
          "lbl_origin l' = (case pl_textOrigin PL of None \<Rightarrow> lbl_origin lb | Some q \<Rightarrow> Some q)"
    by simp_all
  have o: "map_option snd (pl_textOrigin PL) = Some (jneg (fst (labelVertical (Some p) dY)))"
    unfolding PL_def pos dY by (rule labelPlacement_origin [OF p n])
  have ps: "Some p \<noteq> Some ''start''" "Some p \<noteq> Some ''end''"
    using n by simp_all
  have v: "pl_textVerticalAlign PL = snd (labelVertical (Some p) dY)"
    unfolding PL_def pos dY by (rule labelPlacement_vertical(2) [OF ps])
  from o obtain q where q: "pl_textOrigin PL = Some q" "snd q = jneg (fst (labelVertical (Some p) dY))"
    by (cases "pl_textOrigin PL") simp_all
  have "map_option snd (lbl_origin l') = Some (jneg (fst (labelVertical (Some p) dY)))"
    unfolding r(2) q(1) using q(2) by simp
  moreover have "ts_textVerticalAlign (lbl_style l') =
                 orStr (lbl_verticalAlign lb) (Some (snd (labelVertical (Some p) dY)))"
    unfolding r(1) v ..
  ultimately show ?thesis using l'(1) by blast
qed

lemma beforeUpdate_vertical_ends:
  assumes lp: "childOfName this ''line'' = Some (CLine lp)"
      and lb: "childOfName this ''label'' = Some (CLabel lb)"
      and dirt: "dirty this \<or> lp_dirty lp"
      and vis: "\<not> lbl_ignore lb"
      and dist: "lbl_labelDistance lb = Some distance"
      and chord: "chord = normalize (vsub (pointAt (lp_shape lp) (percent (lp_shape lp)))
                                        (pointAt (lp_shape lp) 0))"
  shows "lbl_position lb = Some ''end'' \<Longrightarrow>
         \<exists>l'. labelOf (beforeUpdate this) = Some l' \<and>
            ts_textVerticalAlign (lbl_style l') =
              orStr (lbl_verticalAlign lb)
                (Some (if 0.8 < snd chord then ''top''
                       else if snd chord < - 0.8 then ''bottom'' else ''middle'')) \<and>
            lbl_origin l' = lbl_origin lb"
    and "lbl_position lb = Some ''start'' \<Longrightarrow>
         \<exists>l'. labelOf (beforeUpdate this) = Some l' \<and>
            ts_textVerticalAlign (lbl_style l') =
              orStr (lbl_verticalAlign lb)
                (Some (if 0.8 < snd chord then ''bottom''
                       else if snd chord < - 0.8 then ''top'' else ''middle'')) \<and>
            lbl_origin l' = lbl_origin lb"
proof -
  let ?sh = "lp_shape lp"
  from labelOf_beforeUpdate [OF lp lb dirt vis dist]
  obtain l' where l': "labelOf (beforeUpdate this) = Some l'"
     "layoutLabel lb ?sh (pointAt ?sh 0) (pointAt ?sh (percent ?sh)) chord
        (invScaleLoop (Fin 1) (parent this)) = Inr l'"
    unfolding chord by blast
  note r = layoutLabel_result [OF dist refl, where d = chord and sh = ?sh and fromPos = "pointAt ?sh 0"
        and toPos = "pointAt ?sh (percent ?sh)" and iv = "invScaleLoop (Fin 1) (parent this)"]
  {
    assume pos: "lbl_position lb = Some ''end''"
    from r l'(2)
    have "ts_textVerticalAlign (lbl_style l') =
              orStr (lbl_verticalAlign lb)
                (Some (if 0.8 < snd chord then ''top''
                       else if snd chord < - 0.8 then ''bottom'' else ''middle''))"
      and "lbl_origin l' = lbl_origin lb"
      unfolding pos labelPlacement_end labelPlacement_ends by simp_all
    with l'(1) show "\<exists>l'. labelOf (beforeUpdate this) = Some l' \<and>
            ts_textVerticalAlign (lbl_style l') =
              orStr (lbl_verticalAlign lb)
                (Some (if 0.8 < snd chord then ''top''
                       else if snd chord < - 0.8 then ''bottom'' else ''middle'')) \<and>
            lbl_origin l' = lbl_origin lb"
      by blast
  }
  {
    assume pos: "lbl_position lb = Some ''start''"
    from r l'(2)
    have "ts_textVerticalAlign (lbl_style l') =
              orStr (lbl_verticalAlign lb)
                (Some (if 0.8 < snd chord then ''bottom''
                       else if snd chord < - 0.8 then ''top'' else ''middle''))"
      and "lbl_origin l' = lbl_origin lb"
      unfolding pos labelPlacement_ends by simp_all
    with l'(1) show "\<exists>l'. labelOf (beforeUpdate this) = Some l' \<and>
            ts_textVerticalAlign (lbl_style l') =
              orStr (lbl_verticalAlign lb)
                (Some (if 0.8 < snd chord then ''bottom''
                       else if snd chord < - 0.8 then ''top'' else ''middle'')) \<and>
            lbl_origin l' = lbl_origin lb"
      by blast
  }
qed

text \<open>
  Construction and data updates leave the element as the layout pass needs it: with its
  curve and its label, marked dirty, and with a label that is ignored or has its distance
  cached. The hypotheses of the properties of the layout pass below are of this kind.
\<close>

lemma updateLabelStl_ready:
  "lbl_ignore (updateLabelStl rnd lineData idx lm hlm lb) \<or>
   lbl_labelDistance (updateLabelStl rnd lineData idx lm hlm lb) \<noteq> None"
  by (auto simp: updateLabelStl_def Let_def retrieve2_def split: option.splits)

lemma createLineGroup_ready:
  assumes "getItemLayout lineData idx = p0 # p1 # rest"
  shows "\<exists>this lp lb. createLineGroup rnd lineData idx sc = Inr this \<and>
           childOfName this ''line'' = Some (CLine lp) \<and>
           childOfName this ''label'' = Some (CLabel lb) \<and>
           (dirty this \<or> lp_dirty lp) \<and>
           (lbl_ignore lb \<or> lbl_labelDistance lb \<noteq> None)"
  using createLineGroup_result [OF assms, of rnd sc] updateLabelStl_ready
  by blast

lemma updateData_ready:
  assumes "wellFormed this" and "getItemLayout lineData idx = p0 # p1 # rest"
  shows "\<exists>this' lp lb. updateData rnd this lineData idx sc = Inr this' \<and>
           childOfName this' ''line'' = Some (CLine lp) \<and>
           childOfName this' ''label'' = Some (CLabel lb) \<and>
           lp_dirty lp \<and>
           (lbl_ignore lb \<or> lbl_labelDistance lb \<noteq> None)"
proof -
  from assms(1) obtain lp lb where c0: "childOfName this ''line'' = Some (CLine lp)"
      "childOfName this ''label'' = Some (CLabel lb)"
      "distinct (map childName (children this))"
    by (rule wellFormedE)
  have d: "lp_dirty (styleLine lineData idx M x)" for M x
    by (simp add: styleLine_def Let_def)
  from updateData_result [OF c0 assms(2), of rnd sc] updateLabelStl_ready d
  show ?thesis by blast
qed

section \<open>The cached shape kinds\<close>

text \<open>
  C10. Construction succeeds on a layout of at least two points, yields a well-formed
  element and leaves in each cached shape-kind field the shape kind of the record. A data
  update of a well-formed element does the same for the new record, whether or not the
  marker is rebuilt; hence a second update decides the rebuild of each marker by comparing
  the shape kind of its record with that of the record of the first update.
\<close>

theorem symbolTypeKey_tracks_record:
  assumes "getItemLayout ld1 i1 = p0 # p1 # rest1"
      and "getItemLayout ld2 i2 = q0 # q1 # rest2"
  shows "(\<exists>this. createLineGroup rnd ld1 i1 sc1 = Inr this \<and> wellFormed this \<and>
            (\<forall>cat. getSymbolTypeKey cat this = vis_symbol ld1 i1 cat)) \<and>
         (wellFormed this0 \<longrightarrow>
            (\<exists>this1 this2.
               updateData rnd this0 ld1 i1 sc1 = Inr this1 \<and> wellFormed this1 \<and>
               (\<forall>cat. getSymbolTypeKey cat this1 = vis_symbol ld1 i1 cat) \<and>
               updateData rnd this1 ld2 i2 sc2 = Inr this2 \<and>
               (\<forall>cat. getSymbolTypeKey cat this2 = vis_symbol ld2 i2 cat) \<and>
               (\<forall>cat. childOfName this2 (categoryName cat) =
                  map_option (repaintChild (vis_color ld2 i2)
                                (resolveOpacity ld2 i2 (resolveModels ld2 i2 sc2)))
                    (if vis_symbol ld1 i1 cat \<noteq> vis_symbol ld2 i2 cat
                     then map_option CSymbol (createSymbol cat ld2 i2)
                     else childOfName this1 (categoryName cat)))))"
proof (intro conjI impI)
  show "\<exists>this. createLineGroup rnd ld1 i1 sc1 = Inr this \<and> wellFormed this \<and>
            (\<forall>cat. getSymbolTypeKey cat this = vis_symbol ld1 i1 cat)"
    by (rule createLineGroup_wellFormed [OF assms(1)])
next
  assume wf0: "wellFormed this0"
  then obtain lp lb where c0: "childOfName this0 ''line'' = Some (CLine lp)"
      "childOfName this0 ''label'' = Some (CLabel lb)"
      "distinct (map childName (children this0))"
    by (rule wellFormedE)
  from updateData_result [OF c0 assms(1), of rnd sc1]
  obtain this1 where u1: "updateData rnd this0 ld1 i1 sc1 = Inr this1" "wellFormed this1"
      "\<And>cat. getSymbolTypeKey cat this1 = vis_symbol ld1 i1 cat"
    by blast
  from u1(2) obtain lp1 lb1 where c1: "childOfName this1 ''line'' = Some (CLine lp1)"
      "childOfName this1 ''label'' = Some (CLabel lb1)"
      "distinct (map childName (children this1))"
    by (rule wellFormedE)
  from updateData_result [OF c1 assms(2), of rnd sc2]
  obtain this2 where u2: "updateData rnd this1 ld2 i2 sc2 = Inr this2"
      "\<And>cat. getSymbolTypeKey cat this2 = vis_symbol ld2 i2 cat"
      "\<And>cat. childOfName this2 (categoryName cat) =
        map_option (repaintChild (vis_color ld2 i2) (resolveOpacity ld2 i2 (resolveModels ld2 i2 sc2)))
          (if getSymbolTypeKey cat this1 \<noteq> vis_symbol ld2 i2 cat
           then map_option CSymbol (createSymbol cat ld2 i2)
           else childOfName this1 (categoryName cat))"
    by blast
  show "\<exists>this1 this2.
               updateData rnd this0 ld1 i1 sc1 = Inr this1 \<and> wellFormed this1 \<and>
               (\<forall>cat. getSymbolTypeKey cat this1 = vis_symbol ld1 i1 cat) \<and>
               updateData rnd this1 ld2 i2 sc2 = Inr this2 \<and>
               (\<forall>cat. getSymbolTypeKey cat this2 = vis_symbol ld2 i2 cat) \<and>
               (\<forall>cat. childOfName this2 (categoryName cat) =
                  map_option (repaintChild (vis_color ld2 i2)
                                (resolveOpacity ld2 i2 (resolveModels ld2 i2 sc2)))
                    (if vis_symbol ld1 i1 cat \<noteq> vis_symbol ld2 i2 cat
                     then map_option CSymbol (createSymbol cat ld2 i2)
                     else childOfName this1 (categoryName cat)))"
    using u1 u2(1,2) by (intro exI [of _ this1] exI [of _ this2]) (simp add: u2(3) u1(3))
qed

theorem symbolTypeKey_tracks_record_witness:
  "getItemLayout exampleData 0 = [(0, 0), (1, 1), (1, 0)] \<and>
   getItemLayout exampleDataNoArrow 0 = [(0, 0), (1, 1), (1, 0)] \<and>
   wellFormed (exampleLine 1 None ''middle'') \<and>
   (\<exists>this. createLineGroup id exampleData 0 None = Inr this \<and>
      getSymbolTypeKey ToSymbol this = Some ''arrow'') \<and>
   (\<exists>this1 this2.
      updateData id (exampleLine 1 None ''middle'') exampleData 0 None = Inr this1 \<and>
      getSymbolTypeKey ToSymbol this1 = Some ''arrow'' \<and>
      updateData id this1 exampleDataNoArrow 0 None = Inr this2 \<and>
      getSymbolTypeKey ToSymbol this2 = Some ''none'' \<and>
      childOfName this2 ''toSymbol'' = None)"
proof -
  let ?d2 = "exampleDataNoArrow"
  have l1: "getItemLayout exampleData 0 = [(0, 0), (1, 1), (1, 0)]"
    and l2: "getItemLayout ?d2 0 = [(0, 0), (1, 1), (1, 0)]"
    by (simp_all add: exampleData_def exampleDataNoArrow_def)
  have k1: "vis_symbol exampleData 0 ToSymbol = Some ''arrow''"
    and k2: "vis_symbol ?d2 0 ToSymbol = Some ''none''"
    and c2: "createSymbol ToSymbol ?d2 0 = None"
    by (simp_all add: exampleData_def exampleDataNoArrow_def createSymbol_def)
  note t = symbolTypeKey_tracks_record [OF l1 l2, of id None "exampleLine 1 None ''middle''" None]
  from t obtain this where a: "createLineGroup id exampleData 0 None = Inr this"
      "\<forall>cat. getSymbolTypeKey cat this = vis_symbol exampleData 0 cat"
    by blast
  from t exampleLine_wellFormed obtain this1 this2 where
      b: "updateData id (exampleLine 1 None ''middle'') exampleData 0 None = Inr this1"
         "\<forall>cat. getSymbolTypeKey cat this1 = vis_symbol exampleData 0 cat"
         "updateData id this1 ?d2 0 None = Inr this2"
         "\<forall>cat. getSymbolTypeKey cat this2 = vis_symbol ?d2 0 cat"
         "\<forall>cat. childOfName this2 (categoryName cat) =
                  map_option (repaintChild (vis_color ?d2 0)
                                (resolveOpacity ?d2 0 (resolveModels ?d2 0 None)))
                    (if vis_symbol exampleData 0 cat \<noteq> vis_symbol ?d2 0 cat
                     then map_option CSymbol (createSymbol cat ?d2 0)
                     else childOfName this1 (categoryName cat))"
    by blast
  have "childOfName this2 ''toSymbol'' = None"
    using b(5) [rule_format, of ToSymbol] k1 k2 c2 by simp
  moreover have "getSymbolTypeKey ToSymbol this = Some ''arrow''"
    "getSymbolTypeKey ToSymbol this1 = Some ''arrow''"
    "getSymbolTypeKey ToSymbol this2 = Some ''none''"
    using a(2) b(2,4) k1 k2 by simp_all
  ultimately show ?thesis
    using l1 l2 exampleLine_wellFormed a(1) b(1,3) by blast
qed

section \<open>Rebuilding the markers on a data update\<close>

text \<open>
  C5. A data update of a well-formed element, for a record whose layout has at least two
  points, succeeds and leaves the element well formed. For each marker category, when
  the shape kind cached by the previous update differs from the shape kind of the new
  record, the child under the category's name is the marker that the factory builds from
  the new record, repainted (no child when the factory builds none), and it is the only
  child of that name, so the old marker is gone. When the shape kind is unchanged, the
  child under that name is the marker that was there, with only its colour and opacity
  repainted, or still no child when there was none.
\<close>

theorem updateData_rebuilds_changed_markers:
  assumes wf: "wellFormed this"
      and lay: "getItemLayout lineData idx = p0 # p1 # rest"
  shows "\<exists>this'. updateData rnd this lineData idx sc = Inr this' \<and> wellFormed this' \<and>
     (\<forall>cat c. c \<in> set (children this') \<and> childName c = categoryName cat \<longrightarrow>
        Some c = childOfName this' (categoryName cat)) \<and>
     (\<forall>cat.
        childOfName this' (categoryName cat) =
          (if getSymbolTypeKey cat this \<noteq> vis_symbol lineData idx cat
           then map_option (\<lambda>s. CSymbol (repaint (vis_color lineData idx)
                                  (resolveOpacity lineData idx (resolveModels lineData idx sc)) s))
                  (createSymbol cat lineData idx)
           else map_option (repaintChild (vis_color lineData idx)
                              (resolveOpacity lineData idx (resolveModels lineData idx sc)))
                  (childOfName this (categoryName cat))))"
proof -
  from wf obtain lp lb where c0: "childOfName this ''line'' = Some (CLine lp)"
      "childOfName this ''label'' = Some (CLabel lb)"
      "distinct (map childName (children this))"
    by (rule wellFormedE)
  let ?vc = "vis_color lineData idx"
  let ?vo = "resolveOpacity lineData idx (resolveModels lineData idx sc)"
  from updateData_result [OF c0 lay, of rnd sc]
  obtain this' where u: "updateData rnd this lineData idx sc = Inr this'" "wellFormed this'"
      "\<And>cat. childOfName this' (categoryName cat) =
        map_option (repaintChild ?vc ?vo)
          (if getSymbolTypeKey cat this \<noteq> vis_symbol lineData idx cat
           then map_option CSymbol (createSymbol cat lineData idx)
           else childOfName this (categoryName cat))"
    by blast
  have d: "distinct (map childName (children this'))"
    using u(2) by (simp add: wellFormed_def)
  have uniq: "Some c = childOfName this' (categoryName cat)"
    if "c \<in> set (children this')" "childName c = categoryName cat" for c cat
    using childOfName_unique [OF d that(1)] that(2) by simp
  have sym: "childOfName this' (categoryName cat) =
          (if getSymbolTypeKey cat this \<noteq> vis_symbol lineData idx cat
           then map_option (\<lambda>s. CSymbol (repaint ?vc ?vo s)) (createSymbol cat lineData idx)
           else map_option (repaintChild ?vc ?vo) (childOfName this (categoryName cat)))" for cat
    unfolding u(3)
    by (cases "createSymbol cat lineData idx") (simp_all add: repaintChild_def)
  show ?thesis
    using u(1,2) uniq sym by (intro exI [of _ this']) blast
qed

theorem updateData_rebuilds_changed_markers_witness:
  "wellFormed (exampleLine 1 None ''middle'') \<and>
   getItemLayout exampleDataNoArrow 0 = [(0, 0), (1, 1), (1, 0)] \<and>
   getSymbolTypeKey ToSymbol (exampleLine 1 None ''middle'') \<noteq> vis_symbol exampleDataNoArrow 0 ToSymbol \<and>
   getSymbolTypeKey FromSymbol (exampleLine 1 None ''middle'') = vis_symbol exampleDataNoArrow 0 FromSymbol \<and>
   symbolOf ToSymbol (updateData id (exampleLine 1 None ''middle'') exampleDataNoArrow 0 None) = None \<and>
   symbolOf FromSymbol (updateData id (exampleLine 1 None ''middle'') exampleDataNoArrow 0 None) =
     Some ((exampleSymbol FromSymbol ''circle'')\<lparr>sym_opacity := Some 1\<rparr>)"
proof -
  let ?g0 = "exampleLine 1 None ''middle''"
  have lay: "getItemLayout exampleDataNoArrow 0 = [(0, 0), (1, 1), (1, 0)]"
    by (simp add: exampleData_def exampleDataNoArrow_def)
  have k: "getSymbolTypeKey ToSymbol ?g0 \<noteq> vis_symbol exampleDataNoArrow 0 ToSymbol"
          "getSymbolTypeKey FromSymbol ?g0 = vis_symbol exampleDataNoArrow 0 FromSymbol"
    by (simp_all add: exampleLine_def exampleData_def exampleDataNoArrow_def)
  have c: "createSymbol ToSymbol exampleDataNoArrow 0 = None"
    by (simp add: exampleData_def exampleDataNoArrow_def createSymbol_def)
  have p: "repaintChild (vis_color exampleDataNoArrow 0)
             (resolveOpacity exampleDataNoArrow 0 (resolveModels exampleDataNoArrow 0 None))
             (CSymbol (exampleSymbol FromSymbol ''circle''))
           = CSymbol ((exampleSymbol FromSymbol ''circle'')\<lparr>sym_opacity := Some 1\<rparr>)"
    by (simp add: repaintChild_def repaint_def resolveOpacity_def resolveModels_def retrieve3_def
                  exampleData_def exampleDataNoArrow_def exampleModels_def exampleLineStyle_def
                  exampleSymbol_def symbolUtil_createSymbol_def)
  from updateData_rebuilds_changed_markers [OF exampleLine_wellFormed lay, where rnd = id and sc = None]
  obtain this' where u: "updateData id ?g0 exampleDataNoArrow 0 None = Inr this'"
    "\<forall>cat. childOfName this' (categoryName cat) =
          (if getSymbolTypeKey cat ?g0 \<noteq> vis_symbol exampleDataNoArrow 0 cat
           then map_option (\<lambda>s. CSymbol (repaint (vis_color exampleDataNoArrow 0)
                                  (resolveOpacity exampleDataNoArrow 0 (resolveModels exampleDataNoArrow 0 None)) s))
                  (createSymbol cat exampleDataNoArrow 0)
           else map_option (repaintChild (vis_color exampleDataNoArrow 0)
                              (resolveOpacity exampleDataNoArrow 0 (resolveModels exampleDataNoArrow 0 None)))
                  (childOfName ?g0 (categoryName cat)))"
    by blast
  have "childOfName this' ''toSymbol'' = None"
    using u(2) [rule_format, of ToSymbol] k(1) c by simp
  moreover have "childOfName this' ''fromSymbol'' =
      Some (CSymbol ((exampleSymbol FromSymbol ''circle'')\<lparr>sym_opacity := Some 1\<rparr>))"
    using u(2) [rule_format, of FromSymbol] k(2) p by (simp add: exampleLine_children)
  ultimately show ?thesis
    using exampleLine_wellFormed lay k u(1) by (simp add: symbolOf_def)
qed

section \<open>Visibility and text of the label\<close>

text \<open>
  C6. After construction, and after a data update of a well-formed element, the label is
  there and its ignore flag is true exactly when neither the \<open>show\<close> flag of the base
  label model nor that of the hover label model is truthy.
\<close>

theorem label_ignored_iff_both_hidden:
  assumes lay: "getItemLayout lineData idx = p0 # p1 # rest"
  shows "(\<exists>lb. labelOf (createLineGroup rnd lineData idx sc) = Some lb \<and>
            (lbl_ignore lb \<longleftrightarrow>
               \<not> truthyBool (lm_show (sc_labelModel (resolveModels lineData idx sc))) \<and>
               \<not> truthyBool (lm_show (sc_hoverLabelModel (resolveModels lineData idx sc))))) \<and>
         (wellFormed this \<longrightarrow>
            (\<exists>lb. labelOf (updateData rnd this lineData idx sc) = Some lb \<and>
               (lbl_ignore lb \<longleftrightarrow>
                  \<not> truthyBool (lm_show (sc_labelModel (resolveModels lineData idx sc))) \<and>
                  \<not> truthyBool (lm_show (sc_hoverLabelModel (resolveModels lineData idx sc))))))"
proof (intro conjI impI)
  from createLineGroup_result [OF lay, of rnd sc]
  show "\<exists>lb. labelOf (createLineGroup rnd lineData idx sc) = Some lb \<and>
            (lbl_ignore lb \<longleftrightarrow>
               \<not> truthyBool (lm_show (sc_labelModel (resolveModels lineData idx sc))) \<and>
               \<not> truthyBool (lm_show (sc_hoverLabelModel (resolveModels lineData idx sc))))"
    by (auto simp: labelOf_def updateLabelStl_ignore)
next
  assume "wellFormed this"
  then obtain lp lb where c0: "childOfName this ''line'' = Some (CLine lp)"
      "childOfName this ''label'' = Some (CLabel lb)"
      "distinct (map childName (children this))"
    by (rule wellFormedE)
  from updateData_result [OF c0 lay, of rnd sc]
  show "\<exists>lb. labelOf (updateData rnd this lineData idx sc) = Some lb \<and>
               (lbl_ignore lb \<longleftrightarrow>
                  \<not> truthyBool (lm_show (sc_labelModel (resolveModels lineData idx sc))) \<and>
                  \<not> truthyBool (lm_show (sc_hoverLabelModel (resolveModels lineData idx sc))))"
    by (auto simp: labelOf_def updateLabelStl_ignore)
qed

theorem label_ignored_iff_both_hidden_witness:
  "getItemLayout exampleData 0 = [(0, 0), (1, 1), (1, 0)] \<and>
   wellFormed (exampleLine 1 None ''middle'') \<and>
   truthyBool (lm_show (sc_labelModel (resolveModels exampleData 0 None))) \<and>
   (\<exists>lb. labelOf (createLineGroup id exampleData 0 None) = Some lb \<and> \<not> lbl_ignore lb) \<and>
   (\<exists>lb. labelOf (updateData id (exampleLine 1 None ''middle'') exampleData 0 None) = Some lb \<and>
         \<not> lbl_ignore lb)"
proof -
  have lay: "getItemLayout exampleData 0 = [(0, 0), (1, 1), (1, 0)]"
    by (simp add: exampleData_def)
  have sh: "truthyBool (lm_show (sc_labelModel (resolveModels exampleData 0 None)))"
    by (simp add: resolveModels_def exampleData_def exampleModels_def exampleLabelModel_def
                  truthyBool_def)
  show ?thesis
    using label_ignored_iff_both_hidden [OF lay, where rnd = id and sc = None
                                             and this = "exampleLine 1 None ''middle''"]
          exampleLine_wellFormed [of 1 None "''middle''"] lay sh
    by auto
qed

text \<open>
  C7, as amended. After construction or a data update, with the base text being the
  formatted base label when there is one, else the name of the record when it has no raw
  value, else the raw value, rounded when it is finite and verbatim when it is not: the
  text of the base style is the base text when the base visibility is on, and none when
  only the hover visibility is on; the hover text is the formatted hover label when there
  is one and else the base text when the hover visibility is on, and none when the hover
  visibility is off.
\<close>

theorem label_texts_by_visibility:
  assumes lay: "getItemLayout lineData idx = p0 # p1 # rest"
      and r: "r = createLineGroup rnd lineData idx sc \<or>
              (wellFormed this \<and> r = updateData rnd this lineData idx sc)"
      and lm: "lm = sc_labelModel (resolveModels lineData idx sc)"
      and hlm: "hlm = sc_hoverLabelModel (resolveModels lineData idx sc)"
      and base: "base =
        (case getFormattedLabel (hostModel lineData) idx Normal of
           Some t \<Rightarrow> TStr t
         | None \<Rightarrow>
             (case getRawValue (hostModel lineData) idx of
                None \<Rightarrow> TStr (getName lineData idx)
              | Some (Fin v) \<Rightarrow> TNum (Fin (rnd v))
              | Some NonFinite \<Rightarrow> TNum NonFinite))"
  shows "\<exists>lb. labelOf r = Some lb \<and>
     (truthyBool (lm_show lm) \<longrightarrow> ts_text (lbl_style lb) = Some base) \<and>
     (\<not> truthyBool (lm_show lm) \<and> truthyBool (lm_show hlm) \<longrightarrow> ts_text (lbl_style lb) = None) \<and>
     (truthyBool (lm_show hlm) \<longrightarrow>
        hs_text (lbl_hoverStyle lb) =
          Some (case getFormattedLabel (hostModel lineData) idx Emphasis of
                  Some t \<Rightarrow> TStr t | None \<Rightarrow> base)) \<and>
     (\<not> truthyBool (lm_show hlm) \<longrightarrow> hs_text (lbl_hoverStyle lb) = None)"
proof -
  have "\<exists>lb0. labelOf r = Some (updateLabelStl rnd lineData idx lm hlm lb0)"
    using r
  proof
    assume "r = createLineGroup rnd lineData idx sc"
    with createLineGroup_result [OF lay, of rnd sc] show ?thesis
      by (auto simp: labelOf_def lm hlm)
  next
    assume a: "wellFormed this \<and> r = updateData rnd this lineData idx sc"
    then obtain lp lb where c0: "childOfName this ''line'' = Some (CLine lp)"
        "childOfName this ''label'' = Some (CLabel lb)"
        "distinct (map childName (children this))"
      by (auto elim: wellFormedE)
    from updateData_result [OF c0 lay, of rnd sc] a show ?thesis
      by (auto simp: labelOf_def lm hlm)
  qed
  then obtain lb0 where "labelOf r = Some (updateLabelStl rnd lineData idx lm hlm lb0)" ..
  then show ?thesis
    using updateLabelStl_texts [of lm rnd lineData idx hlm lb0] unfolding base by blast
qed

theorem label_texts_by_visibility_witness:
  "getItemLayout exampleData 0 = [(0, 0), (1, 1), (1, 0)] \<and>
   truthyBool (lm_show (sc_labelModel (resolveModels exampleData 0 None))) \<and>
   \<not> truthyBool (lm_show (sc_hoverLabelModel (resolveModels exampleData 0 None))) \<and>
   (\<exists>lb. labelOf (createLineGroup id exampleData 0 None) = Some lb \<and>
      ts_text (lbl_style lb) = Some (TNum (Fin 3)) \<and> hs_text (lbl_hoverStyle lb) = None)"
proof -
  have lay: "getItemLayout exampleData 0 = [(0, 0), (1, 1), (1, 0)]"
    by (simp add: exampleData_def)
  have sh: "truthyBool (lm_show (sc_labelModel (resolveModels exampleData 0 None)))"
       "\<not> truthyBool (lm_show (sc_hoverLabelModel (resolveModels exampleData 0 None)))"
    by (simp_all add: resolveModels_def exampleData_def exampleModels_def exampleLabelModel_def
                      truthyBool_def)
  have b: "TNum (Fin 3) =
        (case getFormattedLabel (hostModel exampleData) 0 Normal of
           Some t \<Rightarrow> TStr t
         | None \<Rightarrow>
             (case getRawValue (hostModel exampleData) 0 of
                None \<Rightarrow> TStr (getName exampleData 0)
              | Some (Fin v) \<Rightarrow> TNum (Fin (id v))
              | Some NonFinite \<Rightarrow> TNum NonFinite))"
    by (simp add: exampleData_def exampleSeries_def)
  have r: "createLineGroup id exampleData 0 None = createLineGroup id exampleData 0 None \<or>
           (wellFormed (exampleLine 1 None ''middle'') \<and>
            createLineGroup id exampleData 0 None =
              updateData id (exampleLine 1 None ''middle'') exampleData 0 None)"
    by simp
  from label_texts_by_visibility [OF lay r refl refl b] sh lay
  show ?thesis by auto
qed

text \<open>
  C7 as stated fails: with the base visibility on, the hover visibility off and a
  formatted hover label, the hover text is none and not the formatted hover label.
\<close>

theorem hover_text_counterexample:
  "truthyBool (lm_show (sc_labelModel (resolveModels exampleData 0 None))) \<and>
   getFormattedLabel (hostModel exampleData) 0 Emphasis = Some ''hover'' \<and>
   map_option (hs_text \<circ> lbl_hoverStyle) (labelOf (createLineGroup id exampleData 0 None))
     = Some None \<and>
   map_option (hs_text \<circ> lbl_hoverStyle) (labelOf (createLineGroup id exampleData 0 None))
     \<noteq> Some (Some (TStr ''hover''))"
proof -
  have lay: "getItemLayout exampleData 0 = [(0, 0), (1, 1), (1, 0)]"
    by (simp add: exampleData_def)
  have sh: "truthyBool (lm_show (sc_labelModel (resolveModels exampleData 0 None)))"
       "\<not> truthyBool (lm_show (sc_hoverLabelModel (resolveModels exampleData 0 None)))"
       "getFormattedLabel (hostModel exampleData) 0 Emphasis = Some ''hover''"
    by (simp_all add: resolveModels_def exampleData_def exampleModels_def exampleLabelModel_def
                      truthyBool_def exampleSeries_def)
  from createLineGroup_result [OF lay, of id None] sh
  show ?thesis by (auto simp: labelOf_def updateLabelStl_hoverText)
qed

section \<open>The marker factory\<close>

text \<open>
  C8, as amended. For every category, record and index the factory returns no marker
  exactly when the shape kind of the record for that category is absent, is the empty
  string or is \<open>none\<close>. Otherwise it returns a shape of that kind, named after the
  category, in the colour of the record, of width and height \<open>(w, h)\<close> and with its
  corner at \<open>(-w/2, -h/2)\<close>, hence centred at the origin, where a scalar size \<open>s\<close>
  stands for \<open>(s, s)\<close> and a pair is taken as it is.
\<close>

theorem createSymbol_result:
  "(createSymbol cat lineData idx = None \<longleftrightarrow>
      vis_symbol lineData idx cat = None \<or> vis_symbol lineData idx cat = Some []
      \<or> vis_symbol lineData idx cat = Some ''none'') \<and>
   (\<forall>ty. vis_symbol lineData idx cat = Some ty \<and> ty \<noteq> [] \<and> ty \<noteq> ''none'' \<longrightarrow>
      (\<exists>s. createSymbol cat lineData idx = Some s \<and> sym_name s = Some cat \<and> sym_type s = ty \<and>
           (sym_w s, sym_h s) = broadcast (vis_symbolSize lineData idx cat) \<and>
           sym_x s = - sym_w s / 2 \<and> sym_y s = - sym_h s / 2 \<and>
           sym_color s = vis_color lineData idx)) \<and>
   broadcast (Scalar v) = (v, v) \<and> broadcast (Pair w h) = (w, h)"
proof (intro conjI allI impI)
  show "createSymbol cat lineData idx = None \<longleftrightarrow>
      vis_symbol lineData idx cat = None \<or> vis_symbol lineData idx cat = Some []
      \<or> vis_symbol lineData idx cat = Some ''none''"
    by (cases "vis_symbol lineData idx cat") (simp_all add: createSymbol_def Let_def)
next
  fix ty
  assume k: "vis_symbol lineData idx cat = Some ty \<and> ty \<noteq> [] \<and> ty \<noteq> ''none''"
  let ?sz = "broadcast (vis_symbolSize lineData idx cat)"
  let ?s = "(symbolUtil_createSymbol ty (- fst ?sz / 2) (- snd ?sz / 2) (fst ?sz) (snd ?sz)
              (vis_color lineData idx))\<lparr>sym_name := Some cat\<rparr>"
  have "createSymbol cat lineData idx = Some ?s"
    using k by (simp add: createSymbol_def Let_def)
  moreover have "sym_name ?s = Some cat" "sym_type ?s = ty" "(sym_w ?s, sym_h ?s) = ?sz"
    "sym_x ?s = - sym_w ?s / 2" "sym_y ?s = - sym_h ?s / 2" "sym_color ?s = vis_color lineData idx"
    by (simp_all add: symbolUtil_createSymbol_def)
  ultimately show "\<exists>s. createSymbol cat lineData idx = Some s \<and> sym_name s = Some cat \<and>
           sym_type s = ty \<and>
           (sym_w s, sym_h s) = broadcast (vis_symbolSize lineData idx cat) \<and>
           sym_x s = - sym_w s / 2 \<and> sym_y s = - sym_h s / 2 \<and>
           sym_color s = vis_color lineData idx"
    by blast
qed simp_all

theorem createSymbol_result_witness:
  "vis_symbol exampleData 0 ToSymbol = Some ''arrow'' \<and> ''arrow'' \<noteq> [] \<and> ''arrow'' \<noteq> ''none'' \<and>
   (\<exists>s. createSymbol ToSymbol exampleData 0 = Some s \<and> sym_name s = Some ToSymbol \<and>
        sym_type s = ''arrow'' \<and> (sym_w s, sym_h s) = (8, 6) \<and> sym_x s = - 4 \<and> sym_y s = - 3)"
proof -
  have k: "vis_symbol exampleData 0 ToSymbol = Some ''arrow''"
          "vis_symbolSize exampleData 0 ToSymbol = Pair 8 6"
    by (simp_all add: exampleData_def)
  from createSymbol_result [of ToSymbol exampleData 0] k(1)
  obtain s where s: "createSymbol ToSymbol exampleData 0 = Some s" "sym_name s = Some ToSymbol"
    "sym_type s = ''arrow''" "(sym_w s, sym_h s) = broadcast (vis_symbolSize exampleData 0 ToSymbol)"
    "sym_x s = - sym_w s / 2" "sym_y s = - sym_h s / 2"
    by auto
  from s(4) k(2) have "sym_w s = 8" "sym_h s = 6" by simp_all
  with s k show ?thesis by simp
qed

text \<open>
  C8 as stated fails: for a shape kind that is present as the empty string the factory
  returns no marker, although the kind is neither absent nor \<open>none\<close>.
\<close>

theorem createSymbol_empty_kind_counterexample:
  "vis_symbol exampleDataEmptyKind 0 FromSymbol = Some [] \<and>
   createSymbol FromSymbol exampleDataEmptyKind 0 = None \<and>
   \<not> (createSymbol FromSymbol exampleDataEmptyKind 0 = None \<longleftrightarrow>
        vis_symbol exampleDataEmptyKind 0 FromSymbol = None \<or>
        vis_symbol exampleDataEmptyKind 0 FromSymbol = Some ''none'')"
  by (simp add: createSymbol_def exampleDataEmptyKind_def exampleData_def)

section \<open>Setting the geometry\<close>

text \<open>
  C9, as amended. \<open>setLinePoints\<close> on a list of at least two points writes the two
  endpoints, sets the draw progress to 1 and leaves a control point exactly when a third
  point is given, which is then that point. Constructing an element from a record and
  then setting its geometry from the same point list succeeds and gives a curve with the
  same endpoints and control point, hence the same points and tangents at every
  parameter. The shape is the constructed one with its draw progress set to 1:
  construction leaves the draw progress at 0 when animation is enabled and at 1 when it
  is not, so the two shapes are equal exactly when animation is not enabled, and the
  point at the draw progress, where the layout pass puts the end marker, is the same
  exactly when animation is not enabled or the two endpoints coincide.
\<close>

theorem setLinePoints_roundtrip:
  assumes lay: "getItemLayout lineData idx = p0 # p1 # rest"
  shows "(\<exists>sh. setLinePoints target (p0 # p1 # rest) = Inr sh \<and>
            (x1 sh, y1 sh) = p0 \<and> (x2 sh, y2 sh) = p1 \<and> percent sh = 1 \<and>
            controlPoint sh = (case rest of [] \<Rightarrow> None | cp # _ \<Rightarrow> Some cp)) \<and>
         (\<exists>this lp lp'.
            createLineGroup rnd lineData idx sc = Inr this \<and>
            lineOf (Inr this) = Some lp \<and>
            lineOf (line_setLinePoints this (getItemLayout lineData idx)) = Some lp' \<and>
            constructThenSet rnd lineData idx sc (getItemLayout lineData idx) =
              line_setLinePoints this (getItemLayout lineData idx) \<and>
            (\<forall>t. pointAt (lp_shape lp') t = pointAt (lp_shape lp) t \<and>
                 tangentAt (lp_shape lp') t = tangentAt (lp_shape lp) t) \<and>
            lp_shape lp' = (lp_shape lp)\<lparr>percent := 1\<rparr> \<and>
            percent (lp_shape lp) = (if isAnimationEnabled (hostModel lineData) then 0 else 1) \<and>
            (lp_shape lp' = lp_shape lp \<longleftrightarrow> \<not> isAnimationEnabled (hostModel lineData)) \<and>
            (drawnEnd lp' = drawnEnd lp \<longleftrightarrow>
               \<not> isAnimationEnabled (hostModel lineData) \<or> p1 = p0))"
proof (rule conjI)
  show "\<exists>sh. setLinePoints target (p0 # p1 # rest) = Inr sh \<and>
            (x1 sh, y1 sh) = p0 \<and> (x2 sh, y2 sh) = p1 \<and> percent sh = 1 \<and>
            controlPoint sh = (case rest of [] \<Rightarrow> None | cp # _ \<Rightarrow> Some cp)"
    by (cases rest) (simp_all add: setLinePoints_Inr controlPoint_def)
next
  from roundtrip_shapes [OF lay, of rnd sc]
  obtain this lp lp' where c: "createLineGroup rnd lineData idx sc = Inr this"
      "lineOf (Inr this) = Some lp"
      "lineOf (line_setLinePoints this (getItemLayout lineData idx)) = Some lp'"
      "lp_shape lp' = (lp_shape lp)\<lparr>percent := 1\<rparr>"
      "percent (lp_shape lp) = (if isAnimationEnabled (hostModel lineData) then 0 else 1)"
      "(x1 (lp_shape lp), y1 (lp_shape lp)) = p0"
      "(x2 (lp_shape lp), y2 (lp_shape lp)) = p1"
    by blast
  have k: "constructThenSet rnd lineData idx sc (getItemLayout lineData idx) =
              line_setLinePoints this (getItemLayout lineData idx)"
    by (simp add: constructThenSet_def c(1))
  have s: "\<forall>t. pointAt (lp_shape lp') t = pointAt (lp_shape lp) t \<and>
                 tangentAt (lp_shape lp') t = tangentAt (lp_shape lp) t"
    unfolding c(4) by simp
  have e: "lp_shape lp' = lp_shape lp \<longleftrightarrow> \<not> isAnimationEnabled (hostModel lineData)"
    unfolding c(4) shape_percent_update_eq c(5) by simp
  have d: "drawnEnd lp' = drawnEnd lp \<longleftrightarrow>
               \<not> isAnimationEnabled (hostModel lineData) \<or> p1 = p0"
    unfolding drawnEnd_def c(4) using c(5,6,7)
    by (cases "isAnimationEnabled (hostModel lineData)") (simp_all add: pointAt_ends)
  show "\<exists>this lp lp'.
            createLineGroup rnd lineData idx sc = Inr this \<and>
            lineOf (Inr this) = Some lp \<and>
            lineOf (line_setLinePoints this (getItemLayout lineData idx)) = Some lp' \<and>
            constructThenSet rnd lineData idx sc (getItemLayout lineData idx) =
              line_setLinePoints this (getItemLayout lineData idx) \<and>
            (\<forall>t. pointAt (lp_shape lp') t = pointAt (lp_shape lp) t \<and>
                 tangentAt (lp_shape lp') t = tangentAt (lp_shape lp) t) \<and>
            lp_shape lp' = (lp_shape lp)\<lparr>percent := 1\<rparr> \<and>
            percent (lp_shape lp) = (if isAnimationEnabled (hostModel lineData) then 0 else 1) \<and>
            (lp_shape lp' = lp_shape lp \<longleftrightarrow> \<not> isAnimationEnabled (hostModel lineData)) \<and>
            (drawnEnd lp' = drawnEnd lp \<longleftrightarrow>
               \<not> isAnimationEnabled (hostModel lineData) \<or> p1 = p0)"
    using c(1,2,3,4,5) k s e d by blast
qed

theorem setLinePoints_roundtrip_witness:
  "getItemLayout exampleData 0 = [(0, 0), (1, 1), (1, 0)] \<and>
   (\<exists>sh. setLinePoints emptyShape [(0, 0), (1, 1), (1, 0)] = Inr sh \<and>
      (x1 sh, y1 sh) = (0, 0) \<and> (x2 sh, y2 sh) = (1, 1) \<and> percent sh = 1 \<and>
      controlPoint sh = Some (1, 0)) \<and>
   (\<exists>this lp lp'.
      createLineGroup id exampleData 0 None = Inr this \<and>
      lineOf (Inr this) = Some lp \<and>
      lineOf (line_setLinePoints this (getItemLayout exampleData 0)) = Some lp' \<and>
      pointAt (lp_shape lp') (1 / 2) = pointAt (lp_shape lp) (1 / 2) \<and>
      tangentAt (lp_shape lp') (1 / 2) = tangentAt (lp_shape lp) (1 / 2) \<and>
      lp_shape lp' = (lp_shape lp)\<lparr>percent := 1\<rparr> \<and>
      percent (lp_shape lp) = 0 \<and>
      lp_shape lp' \<noteq> lp_shape lp \<and>
      drawnEnd lp' \<noteq> drawnEnd lp)"
proof -
  have lay: "getItemLayout exampleData 0 = [(0, 0), (1, 1), (1, 0)]"
    by (simp add: exampleData_def)
  have an: "isAnimationEnabled (hostModel exampleData)"
    by (simp add: exampleData_def exampleSeries_def)
  note th = setLinePoints_roundtrip [OF lay, of emptyShape id None]
  from th [THEN conjunct1]
  have a: "\<exists>sh. setLinePoints emptyShape [(0, 0), (1, 1), (1, 0)] = Inr sh \<and>
      (x1 sh, y1 sh) = (0, 0) \<and> (x2 sh, y2 sh) = (1, 1) \<and> percent sh = 1 \<and>
      controlPoint sh = Some (1, 0)"
    by simp
  from th [THEN conjunct2]
  obtain this lp lp' where c: "createLineGroup id exampleData 0 None = Inr this"
      "lineOf (Inr this) = Some lp"
      "lineOf (line_setLinePoints this (getItemLayout exampleData 0)) = Some lp'"
      "\<forall>t. pointAt (lp_shape lp') t = pointAt (lp_shape lp) t \<and>
           tangentAt (lp_shape lp') t = tangentAt (lp_shape lp) t"
      "lp_shape lp' = (lp_shape lp)\<lparr>percent := 1\<rparr>"
      "percent (lp_shape lp) = (if isAnimationEnabled (hostModel exampleData) then 0 else 1)"
      "lp_shape lp' = lp_shape lp \<longleftrightarrow> \<not> isAnimationEnabled (hostModel exampleData)"
      "drawnEnd lp' = drawnEnd lp \<longleftrightarrow>
         \<not> isAnimationEnabled (hostModel exampleData) \<or> ((1, 1) :: point) = (0, 0)"
    by blast
  have p: "percent (lp_shape lp) = 0" using c(6) an by simp
  have n: "lp_shape lp' \<noteq> lp_shape lp" using c(7) an by simp
  have m: "drawnEnd lp' \<noteq> drawnEnd lp" using c(8) an by simp
  have s: "pointAt (lp_shape lp') (1 / 2) = pointAt (lp_shape lp) (1 / 2)"
      "tangentAt (lp_shape lp') (1 / 2) = tangentAt (lp_shape lp) (1 / 2)"
    using c(4) by blast+
  from c(1,2,3) s c(5) p n m
  have "\<exists>this lp lp'.
      createLineGroup id exampleData 0 None = Inr this \<and>
      lineOf (Inr this) = Some lp \<and>
      lineOf (line_setLinePoints this (getItemLayout exampleData 0)) = Some lp' \<and>
      pointAt (lp_shape lp') (1 / 2) = pointAt (lp_shape lp) (1 / 2) \<and>
      tangentAt (lp_shape lp') (1 / 2) = tangentAt (lp_shape lp) (1 / 2) \<and>
      lp_shape lp' = (lp_shape lp)\<lparr>percent := 1\<rparr> \<and>
      percent (lp_shape lp) = 0 \<and>
      lp_shape lp' \<noteq> lp_shape lp \<and>
      drawnEnd lp' \<noteq> drawnEnd lp"
    by blast
  with lay a show ?thesis by blast
qed

text \<open>
  C9 as stated fails for the shape state. For the example record, whose series has
  animation enabled, construction leaves the draw progress at 0 and setting the same
  geometry again makes it 1: the two shapes differ, and so does the point at the draw
  progress.
\<close>

theorem roundtrip_shape_counterexample:
  "isAnimationEnabled (hostModel exampleData) \<and>
   map_option (percent \<circ> lp_shape) (lineOf (createLineGroup id exampleData 0 None)) = Some 0 \<and>
   map_option (percent \<circ> lp_shape)
     (lineOf (constructThenSet id exampleData 0 None (getItemLayout exampleData 0))) = Some 1 \<and>
   map_option lp_shape (lineOf (constructThenSet id exampleData 0 None (getItemLayout exampleData 0)))
     \<noteq> map_option lp_shape (lineOf (createLineGroup id exampleData 0 None)) \<and>
   map_option drawnEnd (lineOf (createLineGroup id exampleData 0 None)) = Some (0, 0) \<and>
   map_option drawnEnd
     (lineOf (constructThenSet id exampleData 0 None (getItemLayout exampleData 0))) = Some (1, 1)"
proof -
  have lay: "getItemLayout exampleData 0 = [(0, 0), (1, 1), (1, 0)]"
    by (simp add: exampleData_def)
  have an: "isAnimationEnabled (hostModel exampleData)"
    by (simp add: exampleData_def exampleSeries_def)
  from roundtrip_shapes [OF lay, of id None]
  obtain this lp lp' where c: "createLineGroup id exampleData 0 None = Inr this"
      "lineOf (Inr this) = Some lp"
      "lineOf (line_setLinePoints this (getItemLayout exampleData 0)) = Some lp'"
      "lp_shape lp' = (lp_shape lp)\<lparr>percent := 1\<rparr>"
      "percent (lp_shape lp) = (if isAnimationEnabled (hostModel exampleData) then 0 else 1)"
      "(x1 (lp_shape lp), y1 (lp_shape lp)) = (0, 0)"
      "(x2 (lp_shape lp), y2 (lp_shape lp)) = (1, 1)"
    by blast
  have k: "constructThenSet id exampleData 0 None (getItemLayout exampleData 0) =
              line_setLinePoints this (getItemLayout exampleData 0)"
    by (simp add: constructThenSet_def c(1))
  have p: "percent (lp_shape lp) = 0" using c(5) an by simp
  have p': "percent (lp_shape lp') = 1" unfolding c(4) by simp
  have n: "lp_shape lp' \<noteq> lp_shape lp" using p p' by auto
  have d: "drawnEnd lp = (0, 0)"
    unfolding drawnEnd_def p pointAt_ends by (rule c(6))
  have d': "drawnEnd lp' = (1, 1)"
    unfolding drawnEnd_def p' pointAt_ends unfolding c(4) using c(7) by simp
  show ?thesis
    unfolding k c(1) c(2) c(3) using an p p' n d d' by simp
qed

section \<open>The pose of the markers\<close>

text \<open>
  C1, as amended. In a layout pass that is not skipped, on an element with its curve, its
  label and a to-marker, the to-marker is placed at the curve point at parameter
  \<open>percent\<close>, the draw progress, and turned by \<open>-\<pi>/2 - atan2\<close> of the curve tangent
  sampled at parameter 1, the end of the curve. This is the tangent at \<open>percent\<close> when
  the connector is straight or the draw progress is 1.
\<close>

theorem toSymbol_pose:
  assumes sym: "childOfName this ''toSymbol'' = Some (CSymbol s)"
      and lp: "childOfName this ''line'' = Some (CLine lp)"
      and lb: "childOfName this ''label'' = Some (CLabel lb)"
      and dirt: "dirty this \<or> lp_dirty lp"
      and dist: "lbl_ignore lb \<or> lbl_labelDistance lb \<noteq> None"
  shows "\<exists>s'. symbolOf ToSymbol (beforeUpdate this) = Some s' \<and>
     sym_position s' = pointAt (lp_shape lp) (percent (lp_shape lp)) \<and>
     sym_rotation s' =
       - pi / 2 - atan2 (snd (tangentAt (lp_shape lp) 1)) (fst (tangentAt (lp_shape lp) 1)) \<and>
     (controlPoint (lp_shape lp) = None \<or> percent (lp_shape lp) = 1 \<longrightarrow>
        sym_rotation s' =
          - pi / 2 - atan2 (snd (tangentAt (lp_shape lp) (percent (lp_shape lp))))
                           (fst (tangentAt (lp_shape lp) (percent (lp_shape lp)))))"
proof -
  have sym': "childOfName this (categoryName ToSymbol) = Some (CSymbol s)"
    using sym by simp
  let ?sh = "lp_shape lp"
  let ?s' = "poseTo ?sh (pointAt ?sh (percent ?sh)) (invScaleLoop (Fin 1) (parent this)) s"
  have r: "symbolOf ToSymbol (beforeUpdate this) = Some ?s'"
    using symbolOf_beforeUpdate [OF sym' lp lb dirt dist] by simp
  have p: "sym_position ?s' = pointAt ?sh (percent ?sh)"
    by (simp add: poseTo_def Let_def)
  have q: "sym_rotation ?s' = - pi / 2 - atan2 (snd (tangentAt ?sh 1)) (fst (tangentAt ?sh 1))"
    by (simp add: poseTo_def Let_def)
  have t: "tangentAt ?sh 1 = tangentAt ?sh (percent ?sh)"
    if "controlPoint ?sh = None \<or> percent ?sh = 1"
    using that tangentAt_straight [of ?sh 1 "percent ?sh"] by auto
  show ?thesis
    using r p q t by (intro exI [of _ ?s']) simp
qed

theorem toSymbol_pose_witness:
  "childOfName (exampleLine (1 / 2) None ''middle'') ''toSymbol''
     = Some (CSymbol (exampleSymbol ToSymbol ''arrow'')) \<and>
   map_option sym_position (symbolOf ToSymbol (beforeUpdate (exampleLine (1 / 2) None ''middle'')))
     = Some (3 / 4, 1 / 4) \<and>
   map_option sym_rotation (symbolOf ToSymbol (beforeUpdate (exampleLine (1 / 2) None ''middle'')))
     = Some (- pi)"
proof -
  let ?g = "exampleLine (1 / 2) None ''middle''"
  have d: "dirty ?g \<or> lp_dirty \<lparr>lp_shape = exampleShape (1 / 2), lp_subPixelOptimize = True, lp_style = None,
                  lp_hoverStyle = None, lp_dirty = True\<rparr>" by simp
  have l: "lbl_ignore (exampleLabel ''middle'') \<or> lbl_labelDistance (exampleLabel ''middle'') \<noteq> None"
    by (simp add: exampleLabel_def)
  have t: "tangentAt (exampleShape (1 / 2)) 1 = (0, 2)"
    and p: "pointAt (exampleShape (1 / 2)) (1 / 2) = (3 / 4, 1 / 4)"
    and q: "percent (exampleShape (1 / 2)) = 1 / 2"
    by (simp_all add: tangentAt_def pointAt_def controlPoint_def exampleShape_def)
  from toSymbol_pose [OF exampleLine_children(4) exampleLine_children(1) exampleLine_children(2) d l]
  obtain s' where "symbolOf ToSymbol (beforeUpdate ?g) = Some s'"
    "sym_position s' = pointAt (exampleShape (1 / 2)) (percent (exampleShape (1 / 2)))"
    "sym_rotation s' = - pi / 2 - atan2 (snd (tangentAt (exampleShape (1 / 2)) 1))
                                       (fst (tangentAt (exampleShape (1 / 2)) 1))"
    by auto
  then show ?thesis
    by (simp add: exampleLine_children t p q atan2_def)
qed

text \<open>
  C1 as stated fails: on the curved example at draw progress 0 the tangent at \<open>percent\<close>
  points along the x axis, which would give the rotation \<open>-\<pi>/2\<close>, and the rotation
  written is \<open>-\<pi>\<close>, from the tangent at the end of the curve.
\<close>

theorem toSymbol_rotation_counterexample:
  "percent (exampleShape 0) = 0 \<and>
   tangentAt (exampleShape 0) (percent (exampleShape 0)) = (2, 0) \<and>
   map_option sym_rotation (symbolOf ToSymbol (beforeUpdate (exampleLine 0 None ''middle'')))
     = Some (- pi) \<and>
   map_option sym_rotation (symbolOf ToSymbol (beforeUpdate (exampleLine 0 None ''middle'')))
     \<noteq> Some (- pi / 2 - atan2 (snd (tangentAt (exampleShape 0) (percent (exampleShape 0))))
                                (fst (tangentAt (exampleShape 0) (percent (exampleShape 0)))))"
proof -
  let ?g = "exampleLine 0 None ''middle''"
  have c: "childOfName ?g (categoryName ToSymbol) = Some (CSymbol (exampleSymbol ToSymbol ''arrow''))"
    by (simp add: exampleLine_children)
  have d: "dirty ?g \<or> lp_dirty \<lparr>lp_shape = exampleShape 0, lp_subPixelOptimize = True, lp_style = None,
                  lp_hoverStyle = None, lp_dirty = True\<rparr>" by simp
  have l: "lbl_ignore (exampleLabel ''middle'') \<or> lbl_labelDistance (exampleLabel ''middle'') \<noteq> None"
    by (simp add: exampleLabel_def)
  have t: "tangentAt (exampleShape 0) 1 = (0, 2)" "tangentAt (exampleShape 0) 0 = (2, 0)"
    and p: "percent (exampleShape 0) = 0"
    by (simp_all add: tangentAt_def controlPoint_def exampleShape_def)
  have pos: "pi > 0" by simp
  show ?thesis
    unfolding symbolOf_beforeUpdate [OF c exampleLine_children(1) exampleLine_children(2) d l]
    using pos by (simp add: poseTo_def Let_def t p atan2_def)
qed




section \<open>The placement of the label\<close>

text \<open>
  C2, as amended. For the anchor policies that the layout pass tells apart: a policy
  whose name contains \<open>Top\<close>, and also the policy \<open>middle\<close>, has the vertical offset
  \<open>-distanceY\<close> and the vertical alignment \<open>bottom\<close>; a policy whose name contains
  \<open>Bottom\<close> has the offset \<open>+distanceY\<close> and the alignment \<open>top\<close>; the policies
  \<open>insideStart\<close>, \<open>insideMiddle\<close> and \<open>insideEnd\<close> have the offset 0 and the alignment
  \<open>middle\<close>; the policies \<open>start\<close> and \<open>end\<close> have the offset 0, and their vertical
  alignment is decided by the y-component of the direction: for \<open>end\<close> it is \<open>top\<close>
  above 0.8, \<open>bottom\<close> below -0.8 and \<open>middle\<close> otherwise, for \<open>start\<close> it is \<open>bottom\<close>
  above 0.8, \<open>top\<close> below -0.8 and \<open>middle\<close> otherwise. Every policy is in one of these
  classes. A layout pass that is not skipped writes this alignment to the label, unless
  the user gave one; for a policy other than \<open>start\<close> and \<open>end\<close> it writes the negated
  offset as the vertical component of the label origin; for \<open>start\<close> and \<open>end\<close> the
  direction is the normalised chord from the start of the curve to its point at the draw
  progress, and the label origin is left as it was.
\<close>

theorem vertical_offset_by_policy:
  assumes p: "p \<in> set POLICIES"
      and lp: "childOfName this ''line'' = Some (CLine lp)"
      and lb: "childOfName this ''label'' = Some (CLabel lb)"
      and dirt: "dirty this \<or> lp_dirty lp"
      and vis: "\<not> lbl_ignore lb"
      and pos: "lbl_position lb = Some p"
      and dist: "lbl_labelDistance lb = Some distance"
      and dY: "dY = jmul (Fin (snd distance)) (invScaleLoop (Fin 1) (parent this))"
      and pl: "pl = labelPlacement (Some p) d tangent fromPos toPos cp dir distanceX distanceY"
      and chord: "chord = normalize (vsub (pointAt (lp_shape lp) (percent (lp_shape lp)))
                                        (pointAt (lp_shape lp) 0))"
  shows "(containsStr ''Top'' p \<or> p = ''middle'' \<longrightarrow>
            pl_dy pl = jneg distanceY \<and> pl_textVerticalAlign pl = ''bottom'') \<and>
         (containsStr ''Bottom'' p \<longrightarrow>
            pl_dy pl = distanceY \<and> pl_textVerticalAlign pl = ''top'') \<and>
         (p = ''insideStart'' \<or> p = ''insideMiddle'' \<or> p = ''insideEnd'' \<longrightarrow>
            pl_dy pl = Fin 0 \<and> pl_textVerticalAlign pl = ''middle'') \<and>
         (p = ''start'' \<or> p = ''end'' \<longrightarrow> pl_dy pl = Fin 0) \<and>
         (containsStr ''Top'' p \<or> p = ''middle'' \<or> containsStr ''Bottom'' p \<or>
          p = ''insideStart'' \<or> p = ''insideMiddle'' \<or> p = ''insideEnd'' \<or>
          p = ''start'' \<or> p = ''end'') \<and>
         (p \<noteq> ''start'' \<and> p \<noteq> ''end'' \<longrightarrow>
            (\<exists>l'. labelOf (beforeUpdate this) = Some l' \<and>
               ts_textVerticalAlign (lbl_style l') =
                 orStr (lbl_verticalAlign lb) (Some (snd (labelVertical (Some p) dY))) \<and>
               map_option snd (lbl_origin l') = Some (jneg (fst (labelVertical (Some p) dY))))) \<and>
         (p = ''end'' \<longrightarrow>
            pl_textVerticalAlign pl =
              (if 0.8 < snd d then ''top'' else if snd d < - 0.8 then ''bottom'' else ''middle'') \<and>
            (\<exists>l'. labelOf (beforeUpdate this) = Some l' \<and>
               ts_textVerticalAlign (lbl_style l') =
                 orStr (lbl_verticalAlign lb)
                   (Some (if 0.8 < snd chord then ''top''
                          else if snd chord < - 0.8 then ''bottom'' else ''middle'')) \<and>
               lbl_origin l' = lbl_origin lb)) \<and>
         (p = ''start'' \<longrightarrow>
            pl_textVerticalAlign pl =
              (if 0.8 < snd d then ''bottom'' else if snd d < - 0.8 then ''top'' else ''middle'') \<and>
            (\<exists>l'. labelOf (beforeUpdate this) = Some l' \<and>
               ts_textVerticalAlign (lbl_style l') =
                 orStr (lbl_verticalAlign lb)
                   (Some (if 0.8 < snd chord then ''bottom''
                          else if snd chord < - 0.8 then ''top'' else ''middle'')) \<and>
               lbl_origin l' = lbl_origin lb))"
proof -
  note c = labelPlacement_classes [OF p, of d tangent fromPos toPos cp dir distanceX distanceY,
                                   folded pl]
  have e: "p \<noteq> ''start'' \<and> p \<noteq> ''end'' \<longrightarrow>
            (\<exists>l'. labelOf (beforeUpdate this) = Some l' \<and>
               ts_textVerticalAlign (lbl_style l') =
                 orStr (lbl_verticalAlign lb) (Some (snd (labelVertical (Some p) dY))) \<and>
               map_option snd (lbl_origin l') = Some (jneg (fst (labelVertical (Some p) dY))))"
  proof
    assume "p \<noteq> ''start'' \<and> p \<noteq> ''end''"
    then have n: "p \<noteq> ''start''" "p \<noteq> ''end''" by blast+
    show "\<exists>l'. labelOf (beforeUpdate this) = Some l' \<and>
               ts_textVerticalAlign (lbl_style l') =
                 orStr (lbl_verticalAlign lb) (Some (snd (labelVertical (Some p) dY))) \<and>
               map_option snd (lbl_origin l') = Some (jneg (fst (labelVertical (Some p) dY)))"
      by (rule beforeUpdate_vertical [OF p n lp lb dirt vis pos dist dY])
  qed
  have f: "p = ''end'' \<longrightarrow>
            pl_textVerticalAlign pl =
              (if 0.8 < snd d then ''top'' else if snd d < - 0.8 then ''bottom'' else ''middle'') \<and>
            (\<exists>l'. labelOf (beforeUpdate this) = Some l' \<and>
               ts_textVerticalAlign (lbl_style l') =
                 orStr (lbl_verticalAlign lb)
                   (Some (if 0.8 < snd chord then ''top''
                          else if snd chord < - 0.8 then ''bottom'' else ''middle'')) \<and>
               lbl_origin l' = lbl_origin lb)"
  proof (intro impI conjI)
    assume q: "p = ''end''"
    show "pl_textVerticalAlign pl =
              (if 0.8 < snd d then ''top'' else if snd d < - 0.8 then ''bottom'' else ''middle'')"
      unfolding pl q by (rule labelPlacement_end(2))
    show "\<exists>l'. labelOf (beforeUpdate this) = Some l' \<and>
               ts_textVerticalAlign (lbl_style l') =
                 orStr (lbl_verticalAlign lb)
                   (Some (if 0.8 < snd chord then ''top''
                          else if snd chord < - 0.8 then ''bottom'' else ''middle'')) \<and>
               lbl_origin l' = lbl_origin lb"
      by (rule beforeUpdate_vertical_ends(1) [OF lp lb dirt vis dist chord pos [unfolded q]])
  qed
  have g: "p = ''start'' \<longrightarrow>
            pl_textVerticalAlign pl =
              (if 0.8 < snd d then ''bottom'' else if snd d < - 0.8 then ''top'' else ''middle'') \<and>
            (\<exists>l'. labelOf (beforeUpdate this) = Some l' \<and>
               ts_textVerticalAlign (lbl_style l') =
                 orStr (lbl_verticalAlign lb)
                   (Some (if 0.8 < snd chord then ''bottom''
                          else if snd chord < - 0.8 then ''top'' else ''middle'')) \<and>
               lbl_origin l' = lbl_origin lb)"
  proof (intro impI conjI)
    assume q: "p = ''start''"
    show "pl_textVerticalAlign pl =
              (if 0.8 < snd d then ''bottom'' else if snd d < - 0.8 then ''top'' else ''middle'')"
      unfolding pl q by (rule labelPlacement_ends(3))
    show "\<exists>l'. labelOf (beforeUpdate this) = Some l' \<and>
               ts_textVerticalAlign (lbl_style l') =
                 orStr (lbl_verticalAlign lb)
                   (Some (if 0.8 < snd chord then ''bottom''
                          else if snd chord < - 0.8 then ''top'' else ''middle'')) \<and>
               lbl_origin l' = lbl_origin lb"
      by (rule beforeUpdate_vertical_ends(2) [OF lp lb dirt vis dist chord pos [unfolded q]])
  qed
  from c e f g show ?thesis
    by (elim conjE, intro conjI) assumption+
qed

theorem vertical_offset_by_policy_witness:
  "''insideEndTop'' \<in> set POLICIES \<and> containsStr ''Top'' ''insideEndTop'' \<and>
   childOfName (exampleLine 1 None ''insideEndTop'') ''label'' = Some (CLabel (exampleLabel ''insideEndTop'')) \<and>
   \<not> lbl_ignore (exampleLabel ''insideEndTop'') \<and>
   pl_dy (labelPlacement (Some ''insideEndTop'') (1, 0) (1, 0) (0, 0) (1, 1) (0, 0) 1 (Fin 5) (Fin 7)) = Fin (- 7) \<and>
   pl_textVerticalAlign (labelPlacement (Some ''insideEndTop'') (1, 0) (1, 0) (0, 0) (1, 1) (0, 0) 1 (Fin 5) (Fin 7))
     = ''bottom'' \<and>
   (\<exists>l'. labelOf (beforeUpdate (exampleLine 1 None ''insideEndTop'')) = Some l' \<and>
      ts_textVerticalAlign (lbl_style l') = Some ''bottom'' \<and>
      map_option snd (lbl_origin l') = Some (Fin 5)) \<and>
   ''end'' \<in> set POLICIES \<and>
   childOfName (exampleLine 0 None ''end'') ''label'' = Some (CLabel (exampleLabel ''end'')) \<and>
   \<not> lbl_ignore (exampleLabel ''end'') \<and>
   normalize (vsub (pointAt (exampleShape 0) (percent (exampleShape 0))) (pointAt (exampleShape 0) 0))
     = (0, 0) \<and>
   pl_textVerticalAlign (labelPlacement (Some ''end'') (0, 0.9) (1, 0) (0, 0) (1, 1) (0, 0) 1 (Fin 5) (Fin 7))
     = ''top'' \<and>
   (\<exists>l'. labelOf (beforeUpdate (exampleLine 0 None ''end'')) = Some l' \<and>
      ts_textVerticalAlign (lbl_style l') = Some ''middle'' \<and>
      lbl_origin l' = None)"
proof -
  let ?p = "''insideEndTop''"
  let ?g = "exampleLine 1 None ?p"
  let ?lp = "\<lparr>lp_shape = exampleShape 1, lp_subPixelOptimize = True, lp_style = None,
                  lp_hoverStyle = None, lp_dirty = True\<rparr>"
  have m: "?p \<in> set POLICIES" by (simp add: POLICIES_def)
  have t: "containsStr ''Top'' ?p" by simp
  have d: "dirty ?g \<or> lp_dirty ?lp" by simp
  have l: "\<not> lbl_ignore (exampleLabel ?p)" "lbl_position (exampleLabel ?p) = Some ?p"
      "lbl_labelDistance (exampleLabel ?p) = Some (5, 5)"
      "lbl_verticalAlign (exampleLabel ?p) = None"
    by (simp_all add: exampleLabel_def newLabel_def)
  have par: "parent ?g = None" by (simp add: exampleLine_def)
  have o: "orStr None x = x" for x by (simp add: orStr_def truthyStr_def)
  have v: "labelVertical (Some ?p) (Fin 5) = (Fin (- 5), ''bottom'')"
    by (simp add: labelVertical_def)
  note th = vertical_offset_by_policy [OF m exampleLine_children(1) [of 1 None ?p]
     exampleLine_children(2) [of 1 None ?p] d l(1,2,3) refl refl refl,
     of "(1, 0)" "(1, 0)" "(0, 0)" "(1, 1)" "(0, 0)" 1 "Fin 5" "Fin 7"]
  have t': "containsStr ''Top'' ?p \<or> ?p = ''middle''" using t ..
  from th [THEN conjunct1, THEN mp, OF t']
  have a0: "pl_dy (labelPlacement (Some ?p) (1, 0) (1, 0) (0, 0) (1, 1) (0, 0) 1 (Fin 5) (Fin 7)) = jneg (Fin 7)"
    and a2: "pl_textVerticalAlign (labelPlacement (Some ?p) (1, 0) (1, 0) (0, 0) (1, 1) (0, 0) 1 (Fin 5) (Fin 7)) = ''bottom''"
    by blast+
  have a1: "pl_dy (labelPlacement (Some ?p) (1, 0) (1, 0) (0, 0) (1, 1) (0, 0) 1 (Fin 5) (Fin 7)) = Fin (- 7)"
    unfolding a0 by simp
  note a = a1 a2
  have ne: "?p \<noteq> ''start'' \<and> ?p \<noteq> ''end''" by simp
  from th [THEN conjunct2, THEN conjunct2, THEN conjunct2, THEN conjunct2, THEN conjunct2,
           THEN conjunct1, THEN mp, OF ne]
  have "\<exists>l'. labelOf (beforeUpdate ?g) = Some l' \<and>
      ts_textVerticalAlign (lbl_style l') =
        orStr (lbl_verticalAlign (exampleLabel ?p))
          (Some (snd (labelVertical (Some ?p) (jmul (Fin (snd (5 :: real, 5 :: real))) (invScaleLoop (Fin 1) (parent ?g)))))) \<and>
      map_option snd (lbl_origin l') =
        Some (jneg (fst (labelVertical (Some ?p) (jmul (Fin (snd (5 :: real, 5 :: real))) (invScaleLoop (Fin 1) (parent ?g))))))"
    .
  then have b: "\<exists>l'. labelOf (beforeUpdate ?g) = Some l' \<and>
      ts_textVerticalAlign (lbl_style l') = Some ''bottom'' \<and>
      map_option snd (lbl_origin l') = Some (Fin 5)"
    unfolding par l(4) o by (simp add: v rangeChecked_small)
  let ?q = "''end''"
  let ?h = "exampleLine 0 None ?q"
  let ?lq = "\<lparr>lp_shape = exampleShape 0, lp_subPixelOptimize = True, lp_style = None,
                  lp_hoverStyle = None, lp_dirty = True\<rparr>"
  have mq: "?q \<in> set POLICIES" by (simp add: POLICIES_def)
  have dq: "dirty ?h \<or> lp_dirty ?lq" by simp
  have lq: "\<not> lbl_ignore (exampleLabel ?q)" "lbl_position (exampleLabel ?q) = Some ?q"
      "lbl_labelDistance (exampleLabel ?q) = Some (5, 5)"
      "lbl_verticalAlign (exampleLabel ?q) = None"
      "lbl_origin (exampleLabel ?q) = None"
    by (simp_all add: exampleLabel_def newLabel_def)
  have cq: "normalize (vsub (pointAt (exampleShape 0) (percent (exampleShape 0))) (pointAt (exampleShape 0) 0))
     = (0, 0)"
    by (simp add: normalize_def vsub_def exampleShape_def)
  have cq': "(0, 0) = normalize (vsub (pointAt (lp_shape ?lq) (percent (lp_shape ?lq)))
                                      (pointAt (lp_shape ?lq) 0))"
    using cq by simp
  note tq = vertical_offset_by_policy [OF mq exampleLine_children(1) [of 0 None ?q]
     exampleLine_children(2) [of 0 None ?q] dq lq(1,2,3) refl refl cq',
     of "(0, 0.9)" "(1, 0)" "(0, 0)" "(1, 1)" "(0, 0)" 1 "Fin 5" "Fin 7"]
  from tq [THEN conjunct2, THEN conjunct2, THEN conjunct2, THEN conjunct2, THEN conjunct2,
           THEN conjunct2, THEN conjunct1, THEN mp, OF refl]
  have e0: "pl_textVerticalAlign (labelPlacement (Some ?q) (0, 0.9) (1, 0) (0, 0) (1, 1) (0, 0) 1 (Fin 5) (Fin 7)) =
              (if 0.8 < snd (0 :: real, 0.9 :: real) then ''top''
               else if snd (0 :: real, 0.9 :: real) < - 0.8 then ''bottom'' else ''middle'')"
    and e1: "\<exists>l'. labelOf (beforeUpdate ?h) = Some l' \<and>
               ts_textVerticalAlign (lbl_style l') =
                 orStr (lbl_verticalAlign (exampleLabel ?q))
                   (Some (if 0.8 < snd (0 :: real, 0 :: real) then ''top''
                          else if snd (0 :: real, 0 :: real) < - 0.8 then ''bottom'' else ''middle'')) \<and>
               lbl_origin l' = lbl_origin (exampleLabel ?q)"
    by blast+
  have e: "pl_textVerticalAlign (labelPlacement (Some ?q) (0, 0.9) (1, 0) (0, 0) (1, 1) (0, 0) 1 (Fin 5) (Fin 7)) = ''top''"
    unfolding e0 by simp
  have f: "\<exists>l'. labelOf (beforeUpdate ?h) = Some l' \<and>
      ts_textVerticalAlign (lbl_style l') = Some ''middle'' \<and> lbl_origin l' = None"
    using e1 unfolding lq(4,5) o by simp
  show ?thesis
    using m t exampleLine_children(2) [of 1 None ?p] l(1) a b
      mq exampleLine_children(2) [of 0 None ?q] lq(1) cq e f by blast
qed

text \<open>
  C2 as stated fails for the policy \<open>middle\<close>, whose name contains neither word: its
  offset is \<open>-distanceY\<close> and its alignment \<open>bottom\<close>, not 0 and \<open>middle\<close>.
\<close>

theorem middle_policy_counterexample:
  "\<not> containsStr ''Top'' ''middle'' \<and> \<not> containsStr ''Bottom'' ''middle'' \<and>
   pl_dy (labelPlacement (Some ''middle'') (1, 0) (1, 0) (0, 0) (1, 1) (0, 0) 1 (Fin 5) (Fin 7)) = Fin (- 7) \<and>
   pl_dy (labelPlacement (Some ''middle'') (1, 0) (1, 0) (0, 0) (1, 1) (0, 0) 1 (Fin 5) (Fin 7)) \<noteq> Fin 0 \<and>
   pl_textVerticalAlign (labelPlacement (Some ''middle'') (1, 0) (1, 0) (0, 0) (1, 1) (0, 0) 1 (Fin 5) (Fin 7))
     = ''bottom'' \<and>
   pl_textVerticalAlign (labelPlacement (Some ''middle'') (1, 0) (1, 0) (0, 0) (1, 1) (0, 0) 1 (Fin 5) (Fin 7))
     \<noteq> ''middle'' \<and>
   map_option (ts_textVerticalAlign \<circ> lbl_style) (labelOf (beforeUpdate (exampleLine 1 None ''middle'')))
     = Some (Some ''bottom'') \<and>
   map_option lbl_origin (labelOf (beforeUpdate (exampleLine 1 None ''middle'')))
     = Some (Some (Fin 0, Fin 5))"
proof -
  let ?p = "''middle''"
  let ?g = "exampleLine 1 None ?p"
  let ?lp = "\<lparr>lp_shape = exampleShape 1, lp_subPixelOptimize = True, lp_style = None,
                  lp_hoverStyle = None, lp_dirty = True\<rparr>"
  let ?sh = "lp_shape ?lp"
  let ?iv = "invScaleLoop (Fin 1) (parent ?g)"
  let ?chord = "normalize (vsub (pointAt ?sh (percent ?sh)) (pointAt ?sh 0))"
  have a: "pl_dy (labelPlacement (Some ?p) d t f e c r x y) = jneg y"
    "pl_textVerticalAlign (labelPlacement (Some ?p) d t f e c r x y) = ''bottom''"
    "pl_textOrigin (labelPlacement (Some ?p) d t f e c r x y) = Some (Fin 0, jneg (jneg y))"
    for d t f e c r x y
    by (simp_all add: labelPlacement_def labelVertical_def Let_def)
  have d: "dirty ?g \<or> lp_dirty ?lp" by simp
  have l: "\<not> lbl_ignore (exampleLabel ?p)" "lbl_position (exampleLabel ?p) = Some ?p"
      "lbl_labelDistance (exampleLabel ?p) = Some (5, 5)"
      "lbl_verticalAlign (exampleLabel ?p) = None"
    by (simp_all add: exampleLabel_def newLabel_def)
  have par: "parent ?g = None" by (simp add: exampleLine_def)
  have o: "orStr None x = x" for x by (simp add: orStr_def truthyStr_def)
  from labelOf_beforeUpdate [OF exampleLine_children(1) [of 1 None ?p]
         exampleLine_children(2) [of 1 None ?p] d l(1,3)]
  obtain l' where l': "labelOf (beforeUpdate ?g) = Some l'"
     "layoutLabel (exampleLabel ?p) ?sh (pointAt ?sh 0) (pointAt ?sh (percent ?sh)) ?chord ?iv = Inr l'"
    by blast
  from layoutLabel_result [OF l(3) refl, where d = ?chord and sh = ?sh and fromPos = "pointAt ?sh 0"
          and toPos = "pointAt ?sh (percent ?sh)" and iv = ?iv] l'(2)
  have r: "ts_textVerticalAlign (lbl_style l') = Some ''bottom''"
          "lbl_origin l' = Some (Fin 0, Fin 5)"
    unfolding l(2) a l(4) o par by (simp_all add: rangeChecked_small)
  show ?thesis
    unfolding a l'(1) using r by simp
qed

text \<open>
  C4. For the anchor policy \<open>end\<close> the computed horizontal alignment is \<open>left\<close> when
  the x-component of the direction is above 0.8, \<open>right\<close> when it is below -0.8 and
  \<open>center\<close> otherwise, and the computed vertical alignment is \<open>top\<close>, \<open>bottom\<close> or
  \<open>middle\<close> by the same thresholds on the y-component. In a layout pass that is not
  skipped the direction is the normalised chord from the start of the curve to its point
  at the draw progress, and these alignments are written to the label unless the user
  gave one.
\<close>

theorem end_policy_alignment:
  assumes lp: "childOfName this ''line'' = Some (CLine lp)"
      and lb: "childOfName this ''label'' = Some (CLabel lb)"
      and dirt: "dirty this \<or> lp_dirty lp"
      and vis: "\<not> lbl_ignore lb"
      and pos: "lbl_position lb = Some ''end''"
      and dist: "lbl_labelDistance lb = Some distance"
      and chord: "chord = normalize (vsub (pointAt (lp_shape lp) (percent (lp_shape lp)))
                                        (pointAt (lp_shape lp) 0))"
  shows "pl_textAlign (labelPlacement (Some ''end'') d tangent fromPos toPos cp dir distanceX distanceY) =
           Some (if 0.8 < fst d then ''left'' else if fst d < - 0.8 then ''right'' else ''center'') \<and>
         pl_textVerticalAlign (labelPlacement (Some ''end'') d tangent fromPos toPos cp dir distanceX distanceY) =
           (if 0.8 < snd d then ''top'' else if snd d < - 0.8 then ''bottom'' else ''middle'') \<and>
         (\<exists>l'. labelOf (beforeUpdate this) = Some l' \<and>
            ts_textAlign (lbl_style l') =
              orStr (lbl_textAlign lb)
                (Some (if 0.8 < fst chord then ''left''
                       else if fst chord < - 0.8 then ''right'' else ''center'')) \<and>
            ts_textVerticalAlign (lbl_style l') =
              orStr (lbl_verticalAlign lb)
                (Some (if 0.8 < snd chord then ''top''
                       else if snd chord < - 0.8 then ''bottom'' else ''middle'')))"
proof (intro conjI)
  let ?sh = "lp_shape lp"
  from labelOf_beforeUpdate [OF lp lb dirt vis dist]
  obtain l' where l': "labelOf (beforeUpdate this) = Some l'"
     "layoutLabel lb ?sh (pointAt ?sh 0) (pointAt ?sh (percent ?sh)) chord
        (invScaleLoop (Fin 1) (parent this)) = Inr l'"
    unfolding chord by blast
  from layoutLabel_result [OF dist refl, where d = chord and sh = ?sh and fromPos = "pointAt ?sh 0"
        and toPos = "pointAt ?sh (percent ?sh)" and iv = "invScaleLoop (Fin 1) (parent this)"] l'(2)
  have "ts_textAlign (lbl_style l') =
              orStr (lbl_textAlign lb)
                (Some (if 0.8 < fst chord then ''left''
                       else if fst chord < - 0.8 then ''right'' else ''center''))"
    and "ts_textVerticalAlign (lbl_style l') =
              orStr (lbl_verticalAlign lb)
                (Some (if 0.8 < snd chord then ''top''
                       else if snd chord < - 0.8 then ''bottom'' else ''middle''))"
    unfolding pos labelPlacement_end by simp_all
  with l'(1) show "\<exists>l'. labelOf (beforeUpdate this) = Some l' \<and>
            ts_textAlign (lbl_style l') =
              orStr (lbl_textAlign lb)
                (Some (if 0.8 < fst chord then ''left''
                       else if fst chord < - 0.8 then ''right'' else ''center'')) \<and>
            ts_textVerticalAlign (lbl_style l') =
              orStr (lbl_verticalAlign lb)
                (Some (if 0.8 < snd chord then ''top''
                       else if snd chord < - 0.8 then ''bottom'' else ''middle''))"
    by blast
qed (simp_all add: labelPlacement_end)

theorem end_policy_alignment_witness:
  "childOfName (exampleLine 0 None ''end'') ''line'' =
     Some (CLine \<lparr>lp_shape = exampleShape 0, lp_subPixelOptimize = True, lp_style = None,
                  lp_hoverStyle = None, lp_dirty = True\<rparr>) \<and>
   childOfName (exampleLine 0 None ''end'') ''label'' = Some (CLabel (exampleLabel ''end'')) \<and>
   \<not> lbl_ignore (exampleLabel ''end'') \<and>
   lbl_position (exampleLabel ''end'') = Some ''end'' \<and>
   lbl_labelDistance (exampleLabel ''end'') = Some (5, 5) \<and>
   normalize (vsub (pointAt (exampleShape 0) (percent (exampleShape 0))) (pointAt (exampleShape 0) 0))
     = (0, 0) \<and>
   pl_textAlign (labelPlacement (Some ''end'') (0.9, 0) (1, 0) (0, 0) (1, 1) (0, 0) 1 (Fin 5) (Fin 5))
     = Some ''left'' \<and>
   pl_textAlign (labelPlacement (Some ''end'') (- 0.9, 0) (1, 0) (0, 0) (1, 1) (0, 0) 1 (Fin 5) (Fin 5))
     = Some ''right'' \<and>
   pl_textAlign (labelPlacement (Some ''end'') (0, 0) (1, 0) (0, 0) (1, 1) (0, 0) 1 (Fin 5) (Fin 5))
     = Some ''center'' \<and>
   pl_textVerticalAlign (labelPlacement (Some ''end'') (0, 0.9) (1, 0) (0, 0) (1, 1) (0, 0) 1 (Fin 5) (Fin 5))
     = ''top'' \<and>
   pl_textVerticalAlign (labelPlacement (Some ''end'') (0, - 0.9) (1, 0) (0, 0) (1, 1) (0, 0) 1 (Fin 5) (Fin 5))
     = ''bottom'' \<and>
   (\<exists>l'. labelOf (beforeUpdate (exampleLine 0 None ''end'')) = Some l' \<and>
      ts_textAlign (lbl_style l') = Some ''center'' \<and>
      ts_textVerticalAlign (lbl_style l') = Some ''middle'')"
proof -
  let ?g = "exampleLine 0 None ''end''"
  have d: "dirty ?g \<or> lp_dirty \<lparr>lp_shape = exampleShape 0, lp_subPixelOptimize = True, lp_style = None,
                  lp_hoverStyle = None, lp_dirty = True\<rparr>" by simp
  have l: "\<not> lbl_ignore (exampleLabel ''end'')" "lbl_position (exampleLabel ''end'') = Some ''end''"
      "lbl_labelDistance (exampleLabel ''end'') = Some (5, 5)"
      "lbl_textAlign (exampleLabel ''end'') = None" "lbl_verticalAlign (exampleLabel ''end'') = None"
    by (simp_all add: exampleLabel_def newLabel_def)
  have c: "normalize (vsub (pointAt (exampleShape 0) (percent (exampleShape 0))) (pointAt (exampleShape 0) 0))
     = (0, 0)"
    by (simp add: normalize_def vsub_def exampleShape_def)
  let ?lp = "\<lparr>lp_shape = exampleShape 0, lp_subPixelOptimize = True, lp_style = None,
                  lp_hoverStyle = None, lp_dirty = True\<rparr>"
  have c': "(0, 0) = normalize (vsub (pointAt (lp_shape ?lp) (percent (lp_shape ?lp)))
                                     (pointAt (lp_shape ?lp) 0))"
    using c by simp
  have o: "orStr None x = x" for x by (simp add: orStr_def truthyStr_def)
  note t = end_policy_alignment [OF exampleLine_children(1) [of 0 None "''end''"]
             exampleLine_children(2) [of 0 None "''end''"] d l(1,2,3) c']
  have a: "pl_textAlign (labelPlacement (Some ''end'') (0.9, 0) (1, 0) (0, 0) (1, 1) (0, 0) 1 (Fin 5) (Fin 5))
     = Some ''left''"
    using t [of "(0.9, 0)" "(1, 0)" "(0, 0)" "(1, 1)" "(0, 0)" 1 "Fin 5" "Fin 5"] by simp
  have b: "pl_textAlign (labelPlacement (Some ''end'') (- 0.9, 0) (1, 0) (0, 0) (1, 1) (0, 0) 1 (Fin 5) (Fin 5))
     = Some ''right''"
    using t [of "(- 0.9, 0)" "(1, 0)" "(0, 0)" "(1, 1)" "(0, 0)" 1 "Fin 5" "Fin 5"] by simp
  have e: "pl_textAlign (labelPlacement (Some ''end'') (0, 0) (1, 0) (0, 0) (1, 1) (0, 0) 1 (Fin 5) (Fin 5))
     = Some ''center''"
    using t [of "(0, 0)" "(1, 0)" "(0, 0)" "(1, 1)" "(0, 0)" 1 "Fin 5" "Fin 5"] by simp
  have f: "pl_textVerticalAlign (labelPlacement (Some ''end'') (0, 0.9) (1, 0) (0, 0) (1, 1) (0, 0) 1 (Fin 5) (Fin 5))
     = ''top''"
    using t [of "(0, 0.9)" "(1, 0)" "(0, 0)" "(1, 1)" "(0, 0)" 1 "Fin 5" "Fin 5"] by simp
  have g: "pl_textVerticalAlign (labelPlacement (Some ''end'') (0, - 0.9) (1, 0) (0, 0) (1, 1) (0, 0) 1 (Fin 5) (Fin 5))
     = ''bottom''"
    using t [of "(0, - 0.9)" "(1, 0)" "(0, 0)" "(1, 1)" "(0, 0)" 1 "Fin 5" "Fin 5"] by simp
  have h: "\<exists>l'. labelOf (beforeUpdate ?g) = Some l' \<and>
      ts_textAlign (lbl_style l') = Some ''center'' \<and>
      ts_textVerticalAlign (lbl_style l') = Some ''middle''"
    using t [of "(0, 0)" "(1, 0)" "(0, 0)" "(1, 1)" "(0, 0)" 1 "Fin 5" "Fin 5"]
    by (simp add: l o)
  show ?thesis
    using exampleLine_children(1,2) [of 0 None "''end''"] l(1,2,3) c a b e f g h by blast
qed

end
